(* ===== verification/Prelude.thy ===== *)
theory Prelude
  imports Main "HOL-Library.Word" "HOL-Library.Multiset"
begin

text \<open>
  What every component of the model shares: JavaScript strings and the operations of the language
  the sources use on them, JSON values, and the generic facts on lists the component proofs need.

  A JavaScript string is a list of 16-bit code units (\<open>jstring\<close>): its \<open>length\<close> is the
  JavaScript \<open>length\<close>, lone surrogates included. \<open>js\<close> turns an ASCII literal into one.
  \<open>utf8_encode\<close> is \<open>Buffer.from(s, "utf-8")\<close>: a lone surrogate becomes U+FFFD, as Node writes it,
  and \<open>utf8_bytes\<close> is \<open>Buffer.byteLength\<close>. A JavaScript number that the code only prints or
  compares is kept as an integer; a JSON number is kept as its canonical decimal text.
\<close>

named_theorems text_simps \<open>unfoldings of the string operations\<close>

section \<open>Strings\<close>

type_synonym code_unit = "16 word"
type_synonym jstring = "code_unit list"
type_synonym byte = "8 word"

definition js :: "string \<Rightarrow> jstring" where
  "js s = map of_char s"

lemma js_Nil [simp]: "js [] = []"
  by (simp add: js_def)

lemma js_Cons [simp]: "js (c # s) = of_char c # js s"
  by (simp add: js_def)

lemma length_js [simp]: "length (js s) = length s"
  by (simp add: js_def)

abbreviation newline :: code_unit where
  "newline \<equiv> 10"

text \<open>\<open>s.split(sep)\<close> for a separator of one code unit; \<open>"".split(sep)\<close> is \<open>[""]\<close>.\<close>

fun split_on :: "'a \<Rightarrow> 'a list \<Rightarrow> 'a list list" where
  "split_on c [] = [[]]"
| "split_on c (x # xs) =
     (if x = c then [] # split_on c xs
      else (case split_on c xs of [] \<Rightarrow> [[x]] | w # ws \<Rightarrow> (x # w) # ws))"

text \<open>\<open>parts.join(sep)\<close>.\<close>

fun join_with :: "'a list \<Rightarrow> 'a list list \<Rightarrow> 'a list" where
  "join_with sep [] = []"
| "join_with sep [w] = w"
| "join_with sep (w # v # ws) = w @ sep @ join_with sep (v # ws)"

lemma split_on_not_Nil [simp]: "split_on c xs \<noteq> []"
  by (induction xs) (auto split: list.splits)

lemma join_with_Cons: "ws \<noteq> [] \<Longrightarrow> join_with sep (w # ws) = w @ sep @ join_with sep ws"
  by (cases ws) simp_all

lemma join_with_Cons_head: "join_with sep ((x # w) # ws) = x # join_with sep (w # ws)"
  by (cases ws) simp_all

lemma join_split [simp]: "join_with [c] (split_on c xs) = xs"
proof (induction xs)
  case (Cons x xs)
  then show ?case
    by (auto simp: join_with_Cons join_with_Cons_head split: list.splits)
qed simp

lemma split_on_no_sep: "w \<in> set (split_on c xs) \<Longrightarrow> c \<notin> set w"
  by (induction xs arbitrary: w) (auto split: list.splits if_splits)

lemma split_on_single: "c \<notin> set xs \<Longrightarrow> split_on c xs = [xs]"
  by (induction xs) auto

lemma split_on_append:
  "c \<notin> set w \<Longrightarrow> split_on c (w @ c # xs) = w # split_on c xs"
  by (induction w) auto

lemma split_join:
  "ws \<noteq> [] \<Longrightarrow> (\<And>w. w \<in> set ws \<Longrightarrow> c \<notin> set w) \<Longrightarrow> split_on c (join_with [c] ws) = ws"
  by (induction "[c]" ws rule: join_with.induct) (auto simp: split_on_single split_on_append)

lemma length_split_on: "length (split_on c xs) = Suc (count_list xs c)"
  by (induction xs) (auto split: list.splits)

lemma length_join_with:
  "length (join_with sep ws) = sum_list (map length ws) + length sep * (length ws - 1)"
  by (induction sep ws rule: join_with.induct) auto

section \<open>Lists\<close>

lemma find_SomeD: "List.find P xs = Some x \<Longrightarrow> x \<in> set xs \<and> P x"
  by (auto simp: find_Some_iff)

lemma drop_eq_ConsD:
  assumes "drop i xs = y # ys"
  shows "i < length xs \<and> y = xs ! i \<and> ys = drop (Suc i) xs"
proof -
  have "i < length xs" using assms by (metis drop_all leI list.distinct(1))
  with assms Cons_nth_drop_Suc [of i xs] show ?thesis by simp
qed

lemma drop_take_append:
  assumes "i \<le> j" "j \<le> k"
  shows "drop i (take j xs) @ drop j (take k xs) = drop i (take k xs)"
proof -
  have "take k xs = take j xs @ drop j (take k xs)"
    using assms(2) by (metis append_take_drop_id min.absorb1 take_take)
  then have "drop i (take k xs) = drop i (take j xs @ drop j (take k xs))" by simp
  also have "\<dots> = drop i (take j xs) @ drop j (take k xs)"
    using assms(1) by (cases "i \<le> length xs") simp_all
  finally show ?thesis ..
qed

text \<open>\<open>findIndex\<close>, with \<open>None\<close> for -1, and the insertion of \<open>splice(i, 0, x)\<close>.\<close>

fun first_index :: "('a \<Rightarrow> bool) \<Rightarrow> 'a list \<Rightarrow> nat option" where
  "first_index P [] = None"
| "first_index P (x # xs) = (if P x then Some 0 else map_option Suc (first_index P xs))"

definition insert_at :: "nat \<Rightarrow> 'a \<Rightarrow> 'a list \<Rightarrow> 'a list" where
  "insert_at i x xs = take i xs @ x # drop i xs"

lemma mset_insert_at [simp]: "mset (insert_at i x xs) = add_mset x (mset xs)"
  by (simp add: insert_at_def flip: mset_append [where xs = "take i xs" and ys = "drop i xs" for i xs])

lemma set_insert_at [simp]: "set (insert_at i x xs) = insert x (set xs)"
  by (metis mset_insert_at set_mset_add_mset_insert set_mset_mset)

lemma distinct_insert_at [simp]: "distinct (insert_at i x xs) \<longleftrightarrow> x \<notin> set xs \<and> distinct xs"
  by (metis mset_insert_at mset_eq_imp_distinct_iff distinct.simps(2) mset.simps(2))

lemma first_index_Some:
  assumes "first_index P xs = Some i"
  shows "i < length xs \<and> P (xs ! i) \<and> (\<forall>j<i. \<not> P (xs ! j))"
  using assms
proof (induction xs arbitrary: i)
  case (Cons x xs)
  then show ?case by (auto simp: nth_Cons less_Suc_eq_0_disj split: if_splits nat.splits)
qed simp

lemma first_index_None: "first_index P xs = None \<longleftrightarrow> (\<forall>x\<in>set xs. \<not> P x)"
  by (induction xs) auto

section \<open>Objects and maps\<close>

text \<open>
  Assignment to a property of an object, \<open>Map.set\<close>: in place when the key exists, else at the end.
\<close>

fun put_field :: "'k \<Rightarrow> 'v \<Rightarrow> ('k \<times> 'v) list \<Rightarrow> ('k \<times> 'v) list" where
  "put_field k v [] = [(k, v)]"
| "put_field k v ((k', v') # es) = (if k' = k then (k, v) # es else (k', v') # put_field k v es)"

lemma map_of_put_field [simp]: "map_of (put_field k v es) = (map_of es)(k \<mapsto> v)"
  by (induction es rule: put_field.induct) (auto simp: fun_upd_twist)

lemma keys_put_field [simp]: "fst ` set (put_field k v es) = insert k (fst ` set es)"
  by (induction k v es rule: put_field.induct) auto

lemma distinct_put_field [simp]: "distinct (map fst es) \<Longrightarrow> distinct (map fst (put_field k v es))"
proof (induction k v es rule: put_field.induct)
  case (2 k v k' v' es)
  then show ?case by (auto simp flip: set_map) (metis imageI keys_put_field insertE set_map fst_conv)
qed simp

section \<open>UTF-8\<close>

definition high_surrogate :: "code_unit \<Rightarrow> bool" where
  "high_surrogate u \<longleftrightarrow> 0xD800 \<le> u \<and> u < 0xDC00"

definition low_surrogate :: "code_unit \<Rightarrow> bool" where
  "low_surrogate u \<longleftrightarrow> 0xDC00 \<le> u \<and> u < 0xE000"

text \<open>The code points of a string; a lone surrogate reads as U+FFFD.\<close>

fun code_points :: "jstring \<Rightarrow> nat list" where
  "code_points [] = []"
| "code_points [u] = [if high_surrogate u \<or> low_surrogate u then 0xFFFD else unat u]"
| "code_points (u # v # us) =
     (if high_surrogate u \<and> low_surrogate v
      then (0x10000 + (unat u - 0xD800) * 0x400 + (unat v - 0xDC00)) # code_points us
      else (if high_surrogate u \<or> low_surrogate u then 0xFFFD else unat u)
             # code_points (v # us))"

definition encode_point :: "nat \<Rightarrow> byte list" where
  "encode_point n =
     (if n < 0x80 then [of_nat n]
      else if n < 0x800 then [of_nat (0xC0 + n div 64), of_nat (0x80 + n mod 64)]
      else if n < 0x10000
      then [of_nat (0xE0 + n div 4096), of_nat (0x80 + n div 64 mod 64), of_nat (0x80 + n mod 64)]
      else [of_nat (0xF0 + n div 262144), of_nat (0x80 + n div 4096 mod 64),
            of_nat (0x80 + n div 64 mod 64), of_nat (0x80 + n mod 64)])"

definition utf8_encode :: "jstring \<Rightarrow> byte list" where
  "utf8_encode s = concat (map encode_point (code_points s))"

definition point_bytes :: "nat \<Rightarrow> nat" where
  "point_bytes n = (if n < 0x80 then 1 else if n < 0x800 then 2 else if n < 0x10000 then 3 else 4)"

definition utf8_bytes :: "jstring \<Rightarrow> nat" where
  "utf8_bytes s = sum_list (map point_bytes (code_points s))"

lemma length_encode_point [simp]: "length (encode_point n) = point_bytes n"
  by (simp add: encode_point_def point_bytes_def)

lemma length_utf8_encode [simp]: "length (utf8_encode s) = utf8_bytes s"
  by (simp add: utf8_encode_def utf8_bytes_def length_concat comp_def)

lemma utf8_bytes_Nil [simp]: "utf8_bytes [] = 0"
  by (simp add: utf8_bytes_def)

lemma point_bytes_pos [simp]: "0 < point_bytes n" and point_bytes_le: "point_bytes n \<le> 4"
  by (simp_all add: point_bytes_def)

lemma not_surrogate_newline [simp]:
  "\<not> high_surrogate newline" "\<not> low_surrogate newline"
  by (simp_all add: high_surrogate_def low_surrogate_def)

text \<open>A code unit that is no surrogate splits the code points around it.\<close>

lemma code_points_append_plain:
  assumes "\<not> high_surrogate c" "\<not> low_surrogate c"
  shows "code_points (xs @ c # ys) = code_points xs @ unat c # code_points ys"
proof (induction xs rule: code_points.induct)
  case 1
  with assms show ?case by (cases ys) auto
next
  case (2 u)
  with assms show ?case by (cases ys) auto
next
  case (3 u v us)
  then show ?case by auto
qed

lemma utf8_bytes_newline: "utf8_bytes (xs @ newline # ys) = utf8_bytes xs + 1 + utf8_bytes ys"
  by (simp add: utf8_bytes_def code_points_append_plain point_bytes_def)

text \<open>The bytes of joined lines: those of each line and one per line break.\<close>

lemma utf8_bytes_join:
  "utf8_bytes (join_with [newline] ws) = sum_list (map utf8_bytes ws) + (length ws - 1)"
  by (induction "[newline]" ws rule: join_with.induct) (auto simp: utf8_bytes_newline)

text \<open>
  The decoder of \<open>Buffer.toString("utf-8")\<close>. Well-formed sequences decode to their code point;
  any other byte decodes to U+FFFD. The sources only decode what \<open>utf8_encode\<close> produced, cut at a
  character boundary, so the second case is never reached there (\<open>decode_points_utf8_encode\<close>).
\<close>

definition cont_byte :: "byte \<Rightarrow> bool" where
  "cont_byte b \<longleftrightarrow> 0x80 \<le> unat b \<and> unat b < 0xC0"

fun decode_points :: "byte list \<Rightarrow> nat list" where
  "decode_points [] = []"
| "decode_points (a # bs) =
     (let n = unat a in
      if n < 0x80 then n # decode_points bs
      else if 0xC2 \<le> n \<and> n < 0xE0 then
        (case bs of b # rest \<Rightarrow>
           if cont_byte b then ((n - 0xC0) * 64 + (unat b - 0x80)) # decode_points rest
           else 0xFFFD # decode_points bs
         | _ \<Rightarrow> 0xFFFD # decode_points bs)
      else if 0xE0 \<le> n \<and> n < 0xF0 then
        (case bs of b # c # rest \<Rightarrow>
           if cont_byte b \<and> cont_byte c
           then ((n - 0xE0) * 4096 + (unat b - 0x80) * 64 + (unat c - 0x80)) # decode_points rest
           else 0xFFFD # decode_points bs
         | _ \<Rightarrow> 0xFFFD # decode_points bs)
      else if 0xF0 \<le> n \<and> n < 0xF5 then
        (case bs of b # c # d # rest \<Rightarrow>
           if cont_byte b \<and> cont_byte c \<and> cont_byte d
           then ((n - 0xF0) * 262144 + (unat b - 0x80) * 4096 + (unat c - 0x80) * 64
                 + (unat d - 0x80)) # decode_points rest
           else 0xFFFD # decode_points bs
         | _ \<Rightarrow> 0xFFFD # decode_points bs)
      else 0xFFFD # decode_points bs)"

definition units_of_point :: "nat \<Rightarrow> jstring" where
  "units_of_point n =
     (if n < 0x10000 then [of_nat n]
      else [of_nat (0xD800 + (n - 0x10000) div 0x400), of_nat (0xDC00 + (n - 0x10000) mod 0x400)])"

definition utf8_decode :: "byte list \<Rightarrow> jstring" where
  "utf8_decode bs = concat (map units_of_point (decode_points bs))"

lemma unat_code_unit: "unat (u :: code_unit) < 65536"
  using unsigned_less [of u, where 'a = nat] by simp

lemma unat_byte_small: "n < 256 \<Longrightarrow> unat (of_nat n :: byte) = n"
  by (simp add: unat_of_nat)

lemma decode_points_encode:
  assumes "n < 0x110000"
  shows "decode_points (encode_point n @ bs) = n # decode_points bs"
proof -
  have m: "n mod 64 < 64" "n div 64 mod 64 < 64" "n div 4096 mod 64 < 64" by simp_all
  consider "n < 0x80" | "0x80 \<le> n" "n < 0x800" | "0x800 \<le> n" "n < 0x10000" | "0x10000 \<le> n"
    by linarith
  then show ?thesis
  proof cases
    case 1
    then show ?thesis by (simp add: encode_point_def unat_byte_small Let_def)
  next
    case 2
    then have "2 \<le> n div 64" "n div 64 < 32" "n < 65536" by auto
    with 2 m show ?thesis
      by (simp add: encode_point_def unat_byte_small Let_def cont_byte_def del: of_nat_add)
  next
    case 3
    have "n div 64 = n div 4096 * 64 + n div 64 mod 64"
      using div_mult_mod_eq [of "n div 64" 64] by (simp add: div_mult2_eq [symmetric])
    then have "n div 4096 * 4096 + n div 64 mod 64 * 64 + n mod 64 = n"
      using div_mult_mod_eq [of n 64] by linarith
    moreover from 3 have "n div 4096 < 16" by auto
    ultimately show ?thesis using 3 m
      by (simp add: encode_point_def unat_byte_small Let_def cont_byte_def del: of_nat_add)
  next
    case 4
    have a: "n div 64 = n div 4096 * 64 + n div 64 mod 64"
      using div_mult_mod_eq [of "n div 64" 64] by (simp add: div_mult2_eq [symmetric])
    have b: "n div 4096 = n div 262144 * 64 + n div 4096 mod 64"
      using div_mult_mod_eq [of "n div 4096" 64] by (simp add: div_mult2_eq [symmetric])
    from a b have "n div 262144 * 262144 + n div 4096 mod 64 * 4096 + n div 64 mod 64 * 64 + n mod 64 = n"
      using div_mult_mod_eq [of n 64] by linarith
    moreover from assms have "n div 262144 < 5" by auto
    ultimately show ?thesis using 4 m
      by (simp add: encode_point_def unat_byte_small Let_def cont_byte_def del: of_nat_add)
  qed
qed

lemma code_points_bound: "n \<in> set (code_points s) \<Longrightarrow> n < 0x110000"
proof (induction s rule: code_points.induct)
  case (2 u)
  have "unat u < 65536" by (rule unat_code_unit)
  with 2 show ?case by (auto split: if_splits)
next
  case (3 u v us)
  have "unat u < 65536" by (rule unat_code_unit)
  moreover have "unat u - 0xD800 < 0x400" if "high_surrogate u"
    using that by (auto simp: high_surrogate_def word_less_nat_alt)
  moreover have "unat v - 0xDC00 < 0x400" if "low_surrogate v"
    using that by (auto simp: low_surrogate_def word_less_nat_alt)
  ultimately show ?case using 3 by (fastforce split: if_splits)
qed simp

lemma decode_points_concat:
  "(\<And>n. n \<in> set ns \<Longrightarrow> n < 0x110000) \<Longrightarrow> decode_points (concat (map encode_point ns)) = ns"
  by (induction ns) (simp_all add: decode_points_encode)

lemma decode_points_utf8_encode: "decode_points (utf8_encode s) = code_points s"
  unfolding utf8_encode_def by (rule decode_points_concat) (rule code_points_bound)

text \<open>Line breaks are code points of their own, so they can be counted on either level.\<close>

lemma unat_newline_iff: "unat u = 10 \<longleftrightarrow> u = newline"
proof
  assume "unat u = 10"
  then have "unat u = unat newline" by simp
  then show "u = newline" by (rule unsigned_word_eqI)
qed simp

lemma not_newline_surrogate: "high_surrogate u \<or> low_surrogate u \<Longrightarrow> u \<noteq> newline"
  using not_surrogate_newline by blast

lemma count_newline_points: "count_list (code_points s) 10 = count_list s newline"
proof (induction s rule: code_points.induct)
  case (2 u)
  with not_newline_surrogate [of u] show ?case by (auto simp: unat_newline_iff)
next
  case (3 u v us)
  from not_newline_surrogate [of u] not_newline_surrogate [of v] 3 show ?case
    by (auto simp: unat_newline_iff)
qed simp

lemma count_list_drop_le: "count_list (drop j xs) x \<le> count_list xs x"
  by (induction xs arbitrary: j) (auto simp: drop_Cons' le_SucI)

lemma count_list_join:
  "(\<And>w. w \<in> set ws \<Longrightarrow> c \<notin> set w) \<Longrightarrow> count_list (join_with [c] ws) c = length ws - 1"
  by (induction "[c]" ws rule: join_with.induct) (auto simp: count_list_0_iff)

end
