(* ===== verification/JsValues.thy ===== *)
theory JsValues
  imports Complex_Main Prelude
begin

text \<open>
  The values of the language beside strings: printing of integers, \<open>trim\<close>, \<open>toLowerCase\<close>, the
  conversion \<open>Number(string)\<close>, and JSON with \<open>JSON.stringify\<close>.

  Numbers are exact: a finite JavaScript number is a rational (\<open>Fin\<close>), with overflow to infinity at
  the bound of IEEE doubles but without their rounding. A number inside a JSON value is kept as its
  canonical decimal text, which is all \<open>JSON.stringify\<close> uses of it.
\<close>

section \<open>Printing\<close>

fun dec_nat :: "nat \<Rightarrow> jstring" where
  "dec_nat n = (if n < 10 then [of_nat (48 + n)] else dec_nat (n div 10) @ [of_nat (48 + n mod 10)])"

declare dec_nat.simps [simp del]

definition dec_int :: "int \<Rightarrow> jstring" where
  "dec_int i = (if i < 0 then 45 # dec_nat (nat (- i)) else dec_nat (nat i))"

lemma dec_nat_not_Nil [simp]: "dec_nat n \<noteq> []"
  by (subst dec_nat.simps) simp

lemma digit_unit_bounds:
  fixes d :: nat
  assumes "d < 10"
  shows "(48 :: code_unit) \<le> of_nat (48 + d)" "of_nat (48 + d) \<le> (57 :: code_unit)"
  using assms by (simp_all add: word_le_nat_alt unat_of_nat del: of_nat_add)

lemma dec_nat_digits: "u \<in> set (dec_nat n) \<Longrightarrow> 48 \<le> u \<and> u \<le> 57"
proof (induction n rule: dec_nat.induct)
  case (1 n)
  show ?case
  proof (cases "n < 10")
    case True
    with 1(2) show ?thesis
      using digit_unit_bounds [of n] by (auto simp: dec_nat.simps [of n] simp del: of_nat_add)
  next
    case False
    with 1 show ?thesis
      using digit_unit_bounds [of "n mod 10"] by (auto simp: dec_nat.simps [of n] simp del: of_nat_add)
  qed
qed

lemma length_dec_nat_le: "n < 10 ^ k \<Longrightarrow> 0 < k \<Longrightarrow> length (dec_nat n) \<le> k"
proof (induction n arbitrary: k rule: dec_nat.induct)
  case (1 n)
  show ?case
  proof (cases "n < 10")
    case True
    with 1(3) show ?thesis by (simp add: dec_nat.simps [of n])
  next
    case False
    with 1 have "k \<noteq> 1" by auto
    with 1(3) obtain j where k: "k = Suc j" "0 < j" by (cases k) auto
    with 1(2) have "n div 10 < 10 ^ j" by auto
    with 1(1) [OF False this] k False show ?thesis by (simp add: dec_nat.simps [of n])
  qed
qed

section \<open>Trimming and case\<close>

definition js_space :: "code_unit \<Rightarrow> bool" where
  "js_space u \<longleftrightarrow> u \<in> {9, 10, 11, 12, 13, 32, 0xA0, 0x1680, 0x2028, 0x2029, 0x202F, 0x205F, 0x3000, 0xFEFF}
     \<or> 0x2000 \<le> u \<and> u \<le> 0x200A"

definition js_trim :: "jstring \<Rightarrow> jstring" where
  "js_trim s = rev (dropWhile js_space (rev (dropWhile js_space s)))"

text \<open>
  \<open>toLowerCase\<close> on ASCII letters and on the Kelvin sign, the only other code unit whose lower case
  is an ASCII letter. The sources only compare the result with ASCII words.
\<close>

definition lower_unit :: "code_unit \<Rightarrow> code_unit" where
  "lower_unit u = (if 65 \<le> u \<and> u \<le> 90 then u + 32 else if u = 0x212A then 107 else u)"

definition js_lower :: "jstring \<Rightarrow> jstring" where
  "js_lower s = map lower_unit s"

section \<open>Numbers from strings\<close>

datatype 'a jsnum = NaN | PosInf | NegInf | Fin 'a

definition is_digit :: "code_unit \<Rightarrow> bool" where
  "is_digit u \<longleftrightarrow> 48 \<le> u \<and> u \<le> 57"

definition digits_value :: "jstring \<Rightarrow> nat" where
  "digits_value ds = fold (\<lambda>d n. n * 10 + (unat d - 48)) ds 0"

lemma digits_of_dec_nat: "list_all is_digit (dec_nat n)"
  using dec_nat_digits [of _ n] by (auto simp: list_all_iff is_digit_def)

lemma digits_value_snoc: "digits_value (ds @ [d]) = digits_value ds * 10 + (unat d - 48)"
  by (simp add: digits_value_def)

lemma unat_digit: "d < 10 \<Longrightarrow> unat (of_nat (48 + d) :: code_unit) = 48 + d"
  by (subst unat_of_nat) simp

lemma digits_value_dec_nat: "digits_value (dec_nat n) = n"
proof (induction n rule: dec_nat.induct)
  case (1 n)
  show ?case
  proof (cases "n < 10")
    case True
    then show ?thesis using unat_digit [of n] by (simp add: dec_nat.simps [of n] digits_value_def)
  next
    case False
    then show ?thesis
      using 1 unat_digit [of "n mod 10"] by (simp add: dec_nat.simps [of n] digits_value_snoc del: of_nat_add)
  qed
qed

definition radix_digit :: "code_unit \<Rightarrow> nat option" where
  "radix_digit u =
     (if is_digit u then Some (unat u - 48)
      else if 97 \<le> lower_unit u \<and> lower_unit u \<le> 102 \<and> u \<noteq> 0x212A then Some (unat (lower_unit u) - 87)
      else None)"

fun radix_value :: "nat \<Rightarrow> nat \<Rightarrow> jstring \<Rightarrow> nat option" where
  "radix_value r n [] = Some n"
| "radix_value r n (u # us) =
     (case radix_digit u of
        Some d \<Rightarrow> if d < r then radix_value r (n * r + d) us else None
      | None \<Rightarrow> None)"

definition number_bound :: rat where
  "number_bound = 2 ^ 1024 - 2 ^ 970"

definition finite_number :: "rat \<Rightarrow> rat jsnum" where
  "finite_number r =
     (if r \<ge> number_bound then PosInf else if r \<le> - number_bound then NegInf else Fin r)"

text \<open>The exponent part: empty, or \<open>e\<close> with an optional sign and digits.\<close>

definition exponent_value :: "jstring \<Rightarrow> rat option" where
  "exponent_value s =
     (case s of
        [] \<Rightarrow> Some 1
      | e # rest \<Rightarrow>
          if e \<noteq> 101 \<and> e \<noteq> 69 then None
          else
            let ds = (case rest of sg # ds \<Rightarrow> if sg = 43 \<or> sg = 45 then ds else rest | [] \<Rightarrow> []);
                neg = (rest \<noteq> [] \<and> hd rest = 45)
            in if ds = [] \<or> \<not> list_all is_digit ds then None
               else Some (if neg then 1 / 10 ^ digits_value ds else 10 ^ digits_value ds))"

definition unsigned_decimal :: "jstring \<Rightarrow> rat option" where
  "unsigned_decimal s =
     (let ip = takeWhile is_digit s;
          rest = dropWhile is_digit s;
          dot = (rest \<noteq> [] \<and> hd rest = 46);
          fp = (if dot then takeWhile is_digit (tl rest) else []);
          ex = (if dot then dropWhile is_digit (tl rest) else rest)
      in if ip = [] \<and> fp = [] then None
         else map_option
           (\<lambda>e. (of_nat (digits_value ip) + of_nat (digits_value fp) / 10 ^ length fp) * e)
           (exponent_value ex))"

definition js_number :: "jstring \<Rightarrow> rat jsnum" where
  "js_number raw =
     (let s = js_trim raw;
          sign = (s \<noteq> [] \<and> (hd s = 43 \<or> hd s = 45));
          neg = (s \<noteq> [] \<and> hd s = 45);
          body = (if sign then tl s else s);
          pre = take 2 s
      in if s = [] then Fin 0
         else if body = js ''Infinity'' then (if neg then NegInf else PosInf)
         else if pre \<in> {js ''0x'', js ''0X'', js ''0o'', js ''0O'', js ''0b'', js ''0B''} then
           (let r = (if pre \<in> {js ''0x'', js ''0X''} then 16 else if pre \<in> {js ''0o'', js ''0O''} then 8 else 2)
            in if drop 2 s = [] then NaN
               else (case radix_value r 0 (drop 2 s) of
                       Some n \<Rightarrow> finite_number (of_nat n) | None \<Rightarrow> NaN))
         else (case unsigned_decimal body of
                 Some q \<Rightarrow> finite_number (if neg then - q else q)
               | None \<Rightarrow> NaN))"

text \<open>The outcome of a call that may throw (or whose promise may reject).\<close>

datatype 'a attempt = Threw | Got 'a

text \<open>\<open>Number.isInteger\<close> of a finite number.\<close>

definition is_integer :: "rat \<Rightarrow> bool" where
  "is_integer q \<longleftrightarrow> of_int \<lfloor>q\<rfloor> = q"

lemma is_integer_of_int [simp]: "is_integer (of_int i)"
  by (simp add: is_integer_def)

section \<open>JSON\<close>

datatype json =
    JNull
  | JBool bool
  | JNum jstring
  | JStr jstring
  | JArr "json list"
  | JObj "(jstring \<times> json) list"

definition hex_digit :: "nat \<Rightarrow> code_unit" where
  "hex_digit n = (if n < 10 then of_nat (48 + n) else of_nat (87 + n))"

definition unicode_escape :: "code_unit \<Rightarrow> jstring" where
  "unicode_escape u =
     (let n = unat u in
      [92, 117, hex_digit (n div 4096), hex_digit (n div 256 mod 16), hex_digit (n div 16 mod 16),
       hex_digit (n mod 16)])"

definition escape_unit :: "code_unit \<Rightarrow> jstring" where
  "escape_unit u =
     (if u = 34 then [92, 34] else if u = 92 then [92, 92]
      else if u = 8 then [92, 98] else if u = 9 then [92, 116] else if u = 10 then [92, 110]
      else if u = 12 then [92, 102] else if u = 13 then [92, 114]
      else if u < 32 then unicode_escape u else [u])"

text \<open>Lone surrogates are escaped, pairs are kept.\<close>

fun escape_string :: "jstring \<Rightarrow> jstring" where
  "escape_string [] = []"
| "escape_string [u] =
     (if high_surrogate u \<or> low_surrogate u then unicode_escape u else escape_unit u)"
| "escape_string (u # v # us) =
     (if high_surrogate u \<and> low_surrogate v then u # v # escape_string us
      else (if high_surrogate u \<or> low_surrogate u then unicode_escape u else escape_unit u)
             @ escape_string (v # us))"

definition quote_string :: "jstring \<Rightarrow> jstring" where
  "quote_string s = 34 # escape_string s @ [34]"

fun json_stringify :: "json \<Rightarrow> jstring" where
  "json_stringify JNull = js ''null''"
| "json_stringify (JBool b) = (if b then js ''true'' else js ''false'')"
| "json_stringify (JNum t) = t"
| "json_stringify (JStr s) = quote_string s"
| "json_stringify (JArr vs) = 91 # join_with [44] (map json_stringify vs) @ [93]"
| "json_stringify (JObj es) =
     123 # join_with [44] (map (\<lambda>(k, v). quote_string k @ 58 # json_stringify v) es) @ [125]"

end
