(* ===== verification/Messages.thy ===== *)
theory Messages
  imports JsValues
begin

text \<open>
  The messages of a transcript (packages/ai/src/types.ts, packages/coding-agent/src/core/messages.ts)
  and the arithmetic on usage records (packages/coding-agent/src/core/usage.ts).

  Optional fields are options; \<open>details\<close> payloads are JSON values. Token counts are integers and
  costs exact rationals. The locale \<open>transcript_transform\<close> is the interface between the agent
  session, which sends a transformed transcript to the provider, and the transforms it installs.
\<close>

section \<open>Content\<close>

datatype part =
    TextPart jstring "jstring option"
  | ImagePart jstring jstring

record tool_call =
  call_id :: jstring
  call_name :: jstring
  call_args :: json
  thought_signature :: "jstring option"

datatype block =
    TextBlock jstring "jstring option"
  | ThinkingBlock jstring "jstring option" bool
  | CallBlock tool_call

datatype content =
    Plain jstring
  | Parts "part list"

datatype stop_reason = Stop | Length | ToolUse | ErrorStop | Aborted

record cost =
  cost_input :: rat
  cost_output :: rat
  cost_cache_read :: rat
  cost_cache_write :: rat
  cost_total :: rat

record usage =
  usage_input :: int
  usage_output :: int
  usage_cache_read :: int
  usage_cache_write :: int
  usage_total :: int
  usage_cost :: cost

section \<open>Messages\<close>

record user_message =
  um_content :: content
  um_time :: int

record assistant_message =
  am_content :: "block list"
  am_api :: jstring
  am_provider :: jstring
  am_model :: jstring
  am_response_model :: "jstring option"
  am_response_id :: "jstring option"
  am_diagnostics :: "json list option"
  am_usage :: usage
  am_stop :: stop_reason
  am_stop_raw :: "jstring option"
  am_error :: "jstring option"
  am_time :: int

record tool_result =
  tr_call_id :: jstring
  tr_tool :: jstring
  tr_content :: "part list"
  tr_details :: "json option"
  tr_error :: bool
  tr_time :: int

record bash_execution =
  be_command :: jstring
  be_output :: jstring
  be_exit_code :: "int option"
  be_cancelled :: bool
  be_truncated :: bool
  be_full_output :: "jstring option"
  be_exclude :: bool
  be_time :: int

record custom_message =
  cm_type :: jstring
  cm_content :: content
  cm_display :: bool
  cm_details :: "json option"
  cm_time :: int

record branch_summary =
  bs_summary :: jstring
  bs_from :: jstring
  bs_time :: int

record compaction_summary =
  cs_summary :: jstring
  cs_tokens_before :: int
  cs_retained :: "nat option"
  cs_instructions :: "jstring option"
  cs_digest :: "jstring option"
  cs_fingerprint :: "jstring option"
  cs_time :: int

datatype message =
    User user_message
  | Assistant assistant_message
  | ToolResult tool_result
  | BashExecution bash_execution
  | Custom custom_message
  | BranchSummary branch_summary
  | CompactionSummary compaction_summary

type_synonym transcript = "message list"

fun is_assistant :: "message \<Rightarrow> bool" where
  "is_assistant (Assistant _) = True"
| "is_assistant _ = False"

fun is_tool_result :: "message \<Rightarrow> bool" where
  "is_tool_result (ToolResult _) = True"
| "is_tool_result _ = False"

definition tool_calls :: "block list \<Rightarrow> tool_call list" where
  "tool_calls bs = List.map_filter (\<lambda>b. case b of CallBlock c \<Rightarrow> Some c | _ \<Rightarrow> None) bs"

lemma tool_calls_simps [simp]:
  "tool_calls [] = []"
  "tool_calls (CallBlock c # bs) = c # tool_calls bs"
  "tool_calls (TextBlock t s # bs) = tool_calls bs"
  "tool_calls (ThinkingBlock t s r # bs) = tool_calls bs"
  by (simp_all add: tool_calls_def List.map_filter_def)

lemma set_tool_calls: "set (tool_calls bs) = {c. CallBlock c \<in> set bs}"
  by (induction bs) (auto simp: tool_calls_def List.map_filter_def split: block.splits)

fun text_of_part :: "part \<Rightarrow> jstring option" where
  "text_of_part (TextPart t _) = Some t"
| "text_of_part (ImagePart _ _) = None"

fun is_image :: "part \<Rightarrow> bool" where
  "is_image (ImagePart _ _) = True"
| "is_image _ = False"

section \<open>Usage\<close>

definition empty_usage :: usage where
  "empty_usage = \<lparr>usage_input = 0, usage_output = 0, usage_cache_read = 0, usage_cache_write = 0,
     usage_total = 0,
     usage_cost = \<lparr>cost_input = 0, cost_output = 0, cost_cache_read = 0, cost_cache_write = 0,
                   cost_total = 0\<rparr>\<rparr>"

definition add_assistant_usage :: "usage \<Rightarrow> usage \<Rightarrow> usage" where
  "add_assistant_usage t u =
     \<lparr>usage_input = usage_input t + usage_input u,
      usage_output = usage_output t + usage_output u,
      usage_cache_read = usage_cache_read t + usage_cache_read u,
      usage_cache_write = usage_cache_write t + usage_cache_write u,
      usage_total = usage_total t + usage_total u,
      usage_cost =
        \<lparr>cost_input = cost_input (usage_cost t) + cost_input (usage_cost u),
         cost_output = cost_output (usage_cost t) + cost_output (usage_cost u),
         cost_cache_read = cost_cache_read (usage_cost t) + cost_cache_read (usage_cost u),
         cost_cache_write = cost_cache_write (usage_cost t) + cost_cache_write (usage_cost u),
         cost_total = cost_total (usage_cost t) + cost_total (usage_cost u)\<rparr>\<rparr>"

definition subtract_assistant_usage :: "usage \<Rightarrow> usage \<Rightarrow> usage" where
  "subtract_assistant_usage t u =
     \<lparr>usage_input = max 0 (usage_input t - usage_input u),
      usage_output = max 0 (usage_output t - usage_output u),
      usage_cache_read = max 0 (usage_cache_read t - usage_cache_read u),
      usage_cache_write = max 0 (usage_cache_write t - usage_cache_write u),
      usage_total = max 0 (usage_total t - usage_total u),
      usage_cost =
        \<lparr>cost_input = max 0 (cost_input (usage_cost t) - cost_input (usage_cost u)),
         cost_output = max 0 (cost_output (usage_cost t) - cost_output (usage_cost u)),
         cost_cache_read = max 0 (cost_cache_read (usage_cost t) - cost_cache_read (usage_cost u)),
         cost_cache_write = max 0 (cost_cache_write (usage_cost t) - cost_cache_write (usage_cost u)),
         cost_total = max 0 (cost_total (usage_cost t) - cost_total (usage_cost u))\<rparr>\<rparr>"

record usage_summary =
  summary_input :: int
  summary_output :: int
  summary_cost :: rat

definition session_usage_summary :: "usage \<Rightarrow> usage_summary option" where
  "session_usage_summary u =
     (let inp = usage_input u + usage_cache_read u + usage_cache_write u
      in if inp = 0 \<and> usage_output u = 0 \<and> cost_total (usage_cost u) = 0 then None
         else Some \<lparr>summary_input = inp, summary_output = usage_output u,
                    summary_cost = cost_total (usage_cost u)\<rparr>)"

definition nonneg_usage :: "usage \<Rightarrow> bool" where
  "nonneg_usage u \<longleftrightarrow>
     0 \<le> usage_input u \<and> 0 \<le> usage_output u \<and> 0 \<le> usage_cache_read u \<and> 0 \<le> usage_cache_write u \<and>
     0 \<le> usage_total u \<and> 0 \<le> cost_input (usage_cost u) \<and> 0 \<le> cost_output (usage_cost u) \<and>
     0 \<le> cost_cache_read (usage_cost u) \<and> 0 \<le> cost_cache_write (usage_cost u) \<and>
     0 \<le> cost_total (usage_cost u)"

lemma subtract_nonneg: "nonneg_usage (subtract_assistant_usage t u)"
  by (simp add: nonneg_usage_def subtract_assistant_usage_def)

lemma subtract_add_usage:
  "nonneg_usage t \<Longrightarrow> subtract_assistant_usage (add_assistant_usage t u) u = t"
  by (cases t; cases "usage_cost t") (simp add: nonneg_usage_def subtract_assistant_usage_def add_assistant_usage_def)

lemma add_usage_commute: "add_assistant_usage t u = add_assistant_usage u t"
  by (simp add: add_assistant_usage_def add.commute)

lemma add_usage_left_commute:
  "add_assistant_usage (add_assistant_usage t u) v = add_assistant_usage (add_assistant_usage t v) u"
  by (simp add: add_assistant_usage_def)

section \<open>What a transform of the transcript must keep\<close>

text \<open>
  The skeleton of a message is everything but the content of a user message or of a tool result:
  the role, the assistant's blocks, the call id, the tool and the error flag of a result.
\<close>

fun skeleton :: "message \<Rightarrow> message" where
  "skeleton (User m) = User (m\<lparr>um_content := Parts []\<rparr>)"
| "skeleton (ToolResult m) = ToolResult (m\<lparr>tr_content := []\<rparr>)"
| "skeleton m = m"

fun answered_call :: "message \<Rightarrow> jstring option" where
  "answered_call (ToolResult m) = Some (tr_call_id m)"
| "answered_call _ = None"

fun requested_calls :: "message \<Rightarrow> jstring list" where
  "requested_calls (Assistant m) = map call_id (tool_calls (am_content m))"
| "requested_calls _ = []"

text \<open>Every tool result answers a call that an earlier assistant message made.\<close>

fun paired_from :: "jstring set \<Rightarrow> transcript \<Rightarrow> bool" where
  "paired_from ids [] = True"
| "paired_from ids (m # ms) =
     ((case answered_call m of None \<Rightarrow> True | Some i \<Rightarrow> i \<in> ids) \<and>
      paired_from (ids \<union> set (requested_calls m)) ms)"

definition paired :: "transcript \<Rightarrow> bool" where
  "paired ms \<longleftrightarrow> paired_from {} ms"

lemma skeleton_fields [simp]:
  "is_assistant (skeleton m) = is_assistant m"
  "is_tool_result (skeleton m) = is_tool_result m"
  "answered_call (skeleton m) = answered_call m"
  "requested_calls (skeleton m) = requested_calls m"
  by (cases m; simp)+

lemma skeleton_assistant [simp]: "is_assistant m \<Longrightarrow> skeleton m = m"
  by (cases m) simp_all

lemma skeleton_eq_fields:
  assumes "skeleton m = skeleton n"
  shows "is_assistant m = is_assistant n" "answered_call m = answered_call n"
    "requested_calls m = requested_calls n" "is_assistant m \<Longrightarrow> m = n"
proof -
  show a: "is_assistant m = is_assistant n" "answered_call m = answered_call n"
    "requested_calls m = requested_calls n"
    using assms by (metis skeleton_fields)+
  show "m = n" if "is_assistant m"
    using assms a(1) that by simp
qed

lemma paired_from_skeleton:
  "map skeleton ms = map skeleton ns \<Longrightarrow> paired_from ids ms = paired_from ids ns"
proof (induction ms arbitrary: ns ids)
  case (Cons m ms)
  then obtain n ns' where ns: "ns = n # ns'" "skeleton m = skeleton n" "map skeleton ms = map skeleton ns'"
    by (cases ns) auto
  show ?case
    using skeleton_eq_fields (2,3) [OF ns(2)] Cons.IH [OF ns(3)] by (simp add: ns(1))
qed simp

lemma filter_skeleton:
  "map skeleton ms = map skeleton ns \<Longrightarrow> filter is_assistant ms = filter is_assistant ns"
proof (induction ms arbitrary: ns)
  case (Cons m ms)
  then obtain n ns' where ns: "ns = n # ns'" "skeleton m = skeleton n" "map skeleton ms = map skeleton ns'"
    by (cases ns) auto
  show ?case
    using skeleton_eq_fields (1,4) [OF ns(2)] Cons.IH [OF ns(3)] by (simp add: ns(1))
qed simp

locale transcript_transform =
  fixes f :: "transcript \<Rightarrow> transcript"
  assumes keeps_skeleton: "map skeleton (f ms) = map skeleton ms"
begin

lemma same_length: "length (f ms) = length ms"
  using keeps_skeleton [of ms] by (metis length_map)

lemma keeps_pairing: "paired (f ms) = paired ms"
  unfolding paired_def by (rule paired_from_skeleton) (rule keeps_skeleton)

lemma keeps_assistants: "filter is_assistant (f ms) = filter is_assistant ms"
  by (rule filter_skeleton) (rule keeps_skeleton)

lemma nth_skeleton: "i < length ms \<Longrightarrow> skeleton (f ms ! i) = skeleton (ms ! i)"
  using keeps_skeleton [of ms] same_length [of ms] by (metis nth_map)

lemma keeps_assistant:
  assumes "i < length ms" "is_assistant (ms ! i)"
  shows "f ms ! i = ms ! i"
proof -
  from nth_skeleton [OF assms(1)] have "skeleton (ms ! i) = skeleton (f ms ! i)" by simp
  from skeleton_eq_fields(4) [OF this assms(2)] show ?thesis by simp
qed

end

text \<open>Transforms compose; the session installs one after the other.\<close>

lemma transform_comp:
  assumes "transcript_transform f" "transcript_transform g"
  shows "transcript_transform (\<lambda>ms. g (f ms))"
  by (unfold_locales)
    (simp add: transcript_transform.keeps_skeleton [OF assms(1)] transcript_transform.keeps_skeleton [OF assms(2)])

section \<open>Sample messages\<close>

text \<open>Short ways to write the concrete transcripts of the witnesses.\<close>

definition user_msg :: "part list \<Rightarrow> message" where
  "user_msg ps = User \<lparr>um_content = Parts ps, um_time = 0\<rparr>"

definition assistant_msg :: "block list \<Rightarrow> stop_reason \<Rightarrow> message" where
  "assistant_msg bs r = Assistant
     \<lparr>am_content = bs, am_api = [], am_provider = [], am_model = [], am_response_model = None,
      am_response_id = None, am_diagnostics = None, am_usage = empty_usage,
      am_stop = r, am_stop_raw = None, am_error = None, am_time = 0\<rparr>"

definition call_block :: "jstring \<Rightarrow> jstring \<Rightarrow> json \<Rightarrow> block" where
  "call_block i n args = CallBlock \<lparr>call_id = i, call_name = n, call_args = args, thought_signature = None\<rparr>"

definition tool_msg :: "jstring \<Rightarrow> jstring \<Rightarrow> part list \<Rightarrow> bool \<Rightarrow> message" where
  "tool_msg i n ps e = ToolResult
     \<lparr>tr_call_id = i, tr_tool = n, tr_content = ps, tr_details = None, tr_error = e, tr_time = 0\<rparr>"

lemmas sample_defs = user_msg_def assistant_msg_def call_block_def tool_msg_def

end
