(* ===== verification/Truncate.thy ===== *)
theory Truncate
  imports Messages
begin

text \<open>
  Truncation of tool output by lines and bytes (packages/coding-agent/src/core/tools/truncate.ts).
  Limits are natural numbers; the loops over the lines are recursions whose accumulator is the
  array of collected lines. The locale \<open>line_window\<close> is what a caller relies on, and both ends
  provide it.
\<close>

datatype trunc_limit = ByLines | ByBytes

record truncation =
  t_content :: jstring
  t_truncated :: bool
  t_by :: "trunc_limit option"
  t_total_lines :: nat
  t_total_bytes :: nat
  t_output_lines :: nat
  t_output_bytes :: nat
  t_last_partial :: bool
  t_first_exceeds :: bool
  t_max_lines :: nat
  t_max_bytes :: nat

definition default_max_lines :: nat where
  "default_max_lines = 2000"

definition default_max_bytes :: nat where
  "default_max_bytes = 50 * 1024"

definition untruncated :: "nat \<Rightarrow> nat \<Rightarrow> jstring \<Rightarrow> truncation" where
  "untruncated ml mb s =
     (let n = length (split_on newline s); b = utf8_bytes s in
      \<lparr>t_content = s, t_truncated = False, t_by = None, t_total_lines = n, t_total_bytes = b,
       t_output_lines = n, t_output_bytes = b, t_last_partial = False, t_first_exceeds = False,
       t_max_lines = ml, t_max_bytes = mb\<rparr>)"

section \<open>From the head\<close>

fun head_loop :: "nat \<Rightarrow> nat \<Rightarrow> jstring list \<Rightarrow> jstring list \<Rightarrow> nat \<Rightarrow> jstring list \<times> nat \<times> trunc_limit" where
  "head_loop ml mb [] acc n = (acc, n, ByLines)"
| "head_loop ml mb (l # ls) acc n =
     (if length acc < ml then
        (let b = utf8_bytes l + (if acc \<noteq> [] then 1 else 0)
         in if n + b > mb then (acc, n, ByBytes) else head_loop ml mb ls (acc @ [l]) (n + b))
      else (acc, n, ByLines))"

definition truncate_head :: "nat \<Rightarrow> nat \<Rightarrow> jstring \<Rightarrow> truncation" where
  "truncate_head ml mb s =
     (let total_bytes = utf8_bytes s; ls = split_on newline s; total_lines = length ls in
      if total_lines \<le> ml \<and> total_bytes \<le> mb then untruncated ml mb s
      else if utf8_bytes (hd ls) > mb then
        \<lparr>t_content = [], t_truncated = True, t_by = Some ByBytes, t_total_lines = total_lines,
         t_total_bytes = total_bytes, t_output_lines = 0, t_output_bytes = 0, t_last_partial = False,
         t_first_exceeds = True, t_max_lines = ml, t_max_bytes = mb\<rparr>
      else
        (case head_loop ml mb ls [] 0 of (out, n, why) \<Rightarrow>
           let why' = (if length out \<ge> ml \<and> n \<le> mb then ByLines else why); c = join_with [newline] out in
           \<lparr>t_content = c, t_truncated = True, t_by = Some why', t_total_lines = total_lines,
            t_total_bytes = total_bytes, t_output_lines = length out, t_output_bytes = utf8_bytes c,
            t_last_partial = False, t_first_exceeds = False, t_max_lines = ml, t_max_bytes = mb\<rparr>))"

section \<open>From the tail\<close>

definition truncate_string_to_bytes_from_end :: "jstring \<Rightarrow> nat \<Rightarrow> jstring" where
  "truncate_string_to_bytes_from_end s mb =
     (let buf = utf8_encode s in
      if length buf \<le> mb then s
      else utf8_decode (dropWhile cont_byte (drop (length buf - mb) buf)))"

text \<open>\<open>rs\<close> is the rest of the lines, last line first; the flag says a line was cut.\<close>

fun tail_loop ::
  "nat \<Rightarrow> nat \<Rightarrow> jstring list \<Rightarrow> jstring list \<Rightarrow> nat \<Rightarrow> jstring list \<times> nat \<times> trunc_limit \<times> bool" where
  "tail_loop ml mb [] acc n = (acc, n, ByLines, False)"
| "tail_loop ml mb (l # rs) acc n =
     (if length acc < ml then
        (let b = utf8_bytes l + (if acc \<noteq> [] then 1 else 0)
         in if n + b > mb then
              (if list_all (\<lambda>c. c = []) acc
               then (let kept = min (length acc) (mb - 1);
                         cut = truncate_string_to_bytes_from_end l (mb - kept)
                     in (cut # take kept acc, utf8_bytes cut + kept, ByBytes, True))
               else (acc, n, ByBytes, False))
            else tail_loop ml mb rs (l # acc) (n + b))
      else (acc, n, ByLines, False))"

definition truncate_tail :: "nat \<Rightarrow> nat \<Rightarrow> jstring \<Rightarrow> truncation" where
  "truncate_tail ml mb s =
     (let total_bytes = utf8_bytes s; ls = split_on newline s; total_lines = length ls in
      if total_lines \<le> ml \<and> total_bytes \<le> mb then untruncated ml mb s
      else
        (case tail_loop ml mb (rev ls) [] 0 of (out, n, why, partial) \<Rightarrow>
           let why' = (if length out \<ge> ml \<and> n \<le> mb then ByLines else why); c = join_with [newline] out in
           \<lparr>t_content = c, t_truncated = True, t_by = Some why', t_total_lines = total_lines,
            t_total_bytes = total_bytes, t_output_lines = length out, t_output_bytes = utf8_bytes c,
            t_last_partial = partial, t_first_exceeds = False, t_max_lines = ml, t_max_bytes = mb\<rparr>))"

definition truncate_line :: "jstring \<Rightarrow> nat \<Rightarrow> jstring \<times> bool" where
  "truncate_line l mc =
     (if length l \<le> mc then (l, False) else (take mc l @ js ''... [truncated]'', True))"

section \<open>The head keeps whole lines\<close>

lemma head_loop_spec:
  assumes "head_loop ml mb ls acc n = (out, k, why)"
    and "n = utf8_bytes (join_with [newline] acc)" "n \<le> mb" "length acc \<le> ml"
  shows "\<exists>j. out = acc @ take j ls \<and> j \<le> length ls \<and> k = utf8_bytes (join_with [newline] out)
     \<and> k \<le> mb \<and> length out \<le> ml
     \<and> (j < length ls \<longrightarrow> length out = ml \<or> k + utf8_bytes (ls ! j) + (if out \<noteq> [] then 1 else 0) > mb)"
  using assms
proof (induction ml mb ls acc n rule: head_loop.induct)
  case (1 ml mb acc n)
  then show ?case by auto
next
  case (2 ml mb l ls acc n)
  let ?b = "utf8_bytes l + (if acc \<noteq> [] then 1 else 0)"
  show ?case
  proof (cases "length acc < ml \<and> n + ?b \<le> mb")
    case True
    have "n + ?b = utf8_bytes (join_with [newline] (acc @ [l]))"
      using "2.prems"(2) by (cases acc) (auto simp: utf8_bytes_join)
    moreover from True "2.prems"(1) have "head_loop ml mb ls (acc @ [l]) (n + ?b) = (out, k, why)"
      by (simp add: Let_def)
    moreover from True have "length acc < ml" "\<not> mb < n + ?b" "n + ?b \<le> mb" "length (acc @ [l]) \<le> ml"
      by auto
    ultimately obtain j where
      "out = (acc @ [l]) @ take j ls" "j \<le> length ls" "k = utf8_bytes (join_with [newline] out)"
      "k \<le> mb" "length out \<le> ml"
      "j < length ls \<longrightarrow> length out = ml \<or> k + utf8_bytes (ls ! j) + (if out \<noteq> [] then 1 else 0) > mb"
      using "2.IH" [of ?b] by blast
    then show ?thesis by (intro exI [of _ "Suc j"]) auto
  next
    case False
    with 2 show ?thesis by (intro exI [of _ 0]) (auto simp: Let_def split: if_splits)
  qed
qed

lemma truncate_head_spec:
  "\<exists>j. t_content (truncate_head ml mb s) = join_with [newline] (take j (split_on newline s))
     \<and> t_output_lines (truncate_head ml mb s) = j \<and> j \<le> ml
     \<and> t_output_bytes (truncate_head ml mb s) = utf8_bytes (t_content (truncate_head ml mb s))
     \<and> t_output_bytes (truncate_head ml mb s) \<le> mb
     \<and> (j < length (split_on newline s) \<longrightarrow> j = ml \<or>
         t_output_bytes (truncate_head ml mb s) + utf8_bytes (split_on newline s ! j) + (if 0 < j then 1 else 0) > mb)"
proof -
  let ?ls = "split_on newline s"
  consider (fits) "length ?ls \<le> ml \<and> utf8_bytes s \<le> mb"
    | (first) "\<not> (length ?ls \<le> ml \<and> utf8_bytes s \<le> mb)" "utf8_bytes (hd ?ls) > mb"
    | (loop) "\<not> (length ?ls \<le> ml \<and> utf8_bytes s \<le> mb)" "utf8_bytes (hd ?ls) \<le> mb"
    by linarith
  then show ?thesis
  proof cases
    case fits
    then show ?thesis
      by (intro exI [of _ "length ?ls"]) (simp add: truncate_head_def untruncated_def Let_def)
  next
    case first
    then show ?thesis
      by (intro exI [of _ 0]) (auto simp: truncate_head_def hd_conv_nth)
  next
    case loop
    obtain out k why where r: "head_loop ml mb ?ls [] 0 = (out, k, why)"
      by (cases "head_loop ml mb ?ls [] 0") auto
    have "\<exists>j. out = [] @ take j ?ls \<and> j \<le> length ?ls \<and> k = utf8_bytes (join_with [newline] out)
      \<and> k \<le> mb \<and> length out \<le> ml
      \<and> (j < length ?ls \<longrightarrow> length out = ml \<or> k + utf8_bytes (?ls ! j) + (if out \<noteq> [] then 1 else 0) > mb)"
      by (rule head_loop_spec [OF r]) simp_all
    then obtain j where j:
      "out = take j ?ls" "j \<le> length ?ls" "k = utf8_bytes (join_with [newline] out)"
      "k \<le> mb" "length out \<le> ml"
      "j < length ?ls \<longrightarrow> length out = ml \<or> k + utf8_bytes (?ls ! j) + (if out \<noteq> [] then 1 else 0) > mb"
      by (simp only: append_Nil) blast
    have "truncate_head ml mb s =
        \<lparr>t_content = join_with [newline] out, t_truncated = True,
         t_by = Some (if length out \<ge> ml \<and> k \<le> mb then ByLines else why), t_total_lines = length ?ls,
         t_total_bytes = utf8_bytes s, t_output_lines = length out, t_output_bytes = k,
         t_last_partial = False, t_first_exceeds = False, t_max_lines = ml, t_max_bytes = mb\<rparr>"
      using loop r j(3) unfolding truncate_head_def Let_def by auto
    moreover have "out \<noteq> [] \<longleftrightarrow> 0 < j" "length out = j"
      using j(1,2) by auto
    ultimately show ?thesis using j by (intro exI [of _ j]) simp
  qed
qed

section \<open>Cutting a string at a character boundary\<close>

text \<open>The scalar values: the code points a decoded string can hold.\<close>

definition scalar :: "nat \<Rightarrow> bool" where
  "scalar n \<longleftrightarrow> n < 0x110000 \<and> \<not> (0xD800 \<le> n \<and> n < 0xE000)"

lemma surrogate_unat:
  "high_surrogate u \<longleftrightarrow> 0xD800 \<le> unat u \<and> unat u < 0xDC00"
  "low_surrogate u \<longleftrightarrow> 0xDC00 \<le> unat u \<and> unat u < 0xE000"
  by (simp_all add: high_surrogate_def low_surrogate_def word_le_nat_alt word_less_nat_alt)

lemma code_points_scalar: "n \<in> set (code_points s) \<Longrightarrow> scalar n"
proof (induction s rule: code_points.induct)
  case (2 u)
  with unat_code_unit [of u] show ?case by (auto simp: scalar_def surrogate_unat split: if_splits)
next
  case (3 u v us)
  with unat_code_unit [of u] show ?case
    by (fastforce simp: scalar_def surrogate_unat split: if_splits)
qed simp

lemma unat_of_small: "n < 65536 \<Longrightarrow> unat (of_nat n :: code_unit) = n"
  by (simp add: unat_of_nat)

lemma code_points_unit: "scalar n \<Longrightarrow> code_points (units_of_point n @ us) = n # code_points us"
proof (cases "n < 0x10000")
  case True
  assume sc: "scalar n"
  have u: "unat (of_nat n :: code_unit) = n" by (rule unat_of_small) (use True in simp)
  have "\<not> high_surrogate (of_nat n)" "\<not> low_surrogate (of_nat n)"
    unfolding surrogate_unat u using sc by (auto simp: scalar_def)
  from code_points_append_plain [OF this, of "[]" us] True u show ?thesis
    by (simp add: units_of_point_def)
next
  case False
  assume sc: "scalar n"
  define h l where "h = (n - 0x10000) div 0x400" and "l = (n - 0x10000) mod 0x400"
  have hl: "h < 0x400" "l < 0x400" "n = 0x10000 + h * 0x400 + l"
    using sc False by (auto simp: scalar_def h_def l_def)
  then have "unat (of_nat (0xD800 + h) :: code_unit) = 0xD800 + h"
    "unat (of_nat (0xDC00 + l) :: code_unit) = 0xDC00 + l"
    by (simp_all add: unat_of_small del: of_nat_add)
  with False hl show ?thesis
    by (simp add: units_of_point_def h_def [symmetric] l_def [symmetric] surrogate_unat del: of_nat_add)
qed

lemma code_points_units:
  "(\<And>n. n \<in> set ns \<Longrightarrow> scalar n) \<Longrightarrow> code_points (concat (map units_of_point ns)) = ns"
  by (induction ns) (simp_all add: code_points_unit)

lemma encode_point_shape:
  assumes "n < 0x110000"
  shows "\<exists>b cs. encode_point n = b # cs \<and> \<not> cont_byte b \<and> list_all cont_byte cs"
proof -
  have m: "n mod 64 < 64" "n div 64 mod 64 < 64" "n div 4096 mod 64 < 64" by simp_all
  have d: "n < 0x800 \<Longrightarrow> n div 64 < 32" "n < 0x10000 \<Longrightarrow> n div 4096 < 16" "n div 262144 < 5"
    using assms by auto
  show ?thesis
    using m d by (auto simp: encode_point_def cont_byte_def unat_byte_small simp del: of_nat_add)
qed

lemma dropWhile_encoded:
  "(\<And>n. n \<in> set ns \<Longrightarrow> n < 0x110000) \<Longrightarrow>
   dropWhile cont_byte (concat (map encode_point ns)) = concat (map encode_point ns)"
proof (induction ns)
  case (Cons n ns)
  then obtain b cs where "encode_point n = b # cs" "\<not> cont_byte b"
    using encode_point_shape [of n] by auto
  then show ?case by simp
qed simp

lemma dropWhile_all_append: "list_all P xs \<Longrightarrow> dropWhile P (xs @ ys) = dropWhile P ys"
  by (induction xs) auto

lemma cut_encoded:
  "(\<And>n. n \<in> set ns \<Longrightarrow> n < 0x110000) \<Longrightarrow>
   \<exists>j. dropWhile cont_byte (drop k (concat (map encode_point ns))) = concat (map encode_point (drop j ns))"
proof (induction ns arbitrary: k)
  case Nil
  then show ?case by simp
next
  case (Cons n ns)
  then obtain b cs where e: "encode_point n = b # cs" "\<not> cont_byte b" "list_all cont_byte cs"
    using encode_point_shape [of n] by auto
  show ?case
  proof (cases k)
    case 0
    with e show ?thesis by (intro exI [of _ 0]) simp
  next
    case (Suc i)
    show ?thesis
    proof (cases "i < length cs")
      case True
      from e(3) have "list_all cont_byte (drop i cs)"
        by (auto simp: list_all_iff dest: in_set_dropD)
      with True Suc e(1) Cons.prems show ?thesis
        by (intro exI [of _ 1]) (simp add: dropWhile_all_append dropWhile_encoded)
    next
      case False
      obtain j where "dropWhile cont_byte (drop (i - length cs) (concat (map encode_point ns)))
          = concat (map encode_point (drop j ns))"
        using Cons by fastforce
      with False Suc e(1) show ?thesis by (intro exI [of _ "Suc j"]) simp
    qed
  qed
qed

text \<open>
  The cut keeps a suffix of the characters and never exceeds the byte budget.
\<close>

lemma truncate_from_end_points:
  "\<exists>j. code_points (truncate_string_to_bytes_from_end s mb) = drop j (code_points s)
     \<and> utf8_bytes (truncate_string_to_bytes_from_end s mb) \<le> mb"
proof (cases "utf8_bytes s \<le> mb")
  case True
  then show ?thesis by (intro exI [of _ 0]) (simp add: truncate_string_to_bytes_from_end_def)
next
  case False
  let ?k = "utf8_bytes s - mb" and ?ns = "code_points s"
  let ?cut = "dropWhile cont_byte (drop ?k (utf8_encode s))"
  obtain j where j: "?cut = concat (map encode_point (drop j ?ns))"
    using cut_encoded [of ?ns ?k] code_points_bound by (auto simp: utf8_encode_def)
  have "decode_points ?cut = drop j ?ns"
    unfolding j by (rule decode_points_concat) (auto dest: in_set_dropD code_points_bound)
  then have pts: "code_points (utf8_decode ?cut) = drop j ?ns"
    unfolding utf8_decode_def by (simp, intro code_points_units) (auto dest: in_set_dropD code_points_scalar)
  have "utf8_bytes (utf8_decode ?cut) = sum_list (map point_bytes (drop j ?ns))"
    unfolding utf8_bytes_def [of "utf8_decode ?cut"] pts ..
  also have "\<dots> = length ?cut"
    unfolding j by (simp add: length_concat comp_def)
  also have "\<dots> \<le> mb"
    using length_dropWhile_le [of cont_byte "drop ?k (utf8_encode s)"] False by simp
  finally show ?thesis
    using False pts by (intro exI [of _ j]) (simp add: truncate_string_to_bytes_from_end_def)
qed

lemma truncate_from_end_bytes: "utf8_bytes (truncate_string_to_bytes_from_end s mb) \<le> mb"
  using truncate_from_end_points [of s mb] by auto

section \<open>The tail stays inside both limits\<close>

lemma join_blanks_bytes:
  "list_all (\<lambda>c. c = []) cs \<Longrightarrow> utf8_bytes (join_with [newline] (w # cs)) = utf8_bytes w + length cs"
proof -
  assume "list_all (\<lambda>c. c = []) cs"
  then have "sum_list (map utf8_bytes cs) = 0" by (induction cs) auto
  then show ?thesis by (simp add: utf8_bytes_join del: join_with.simps)
qed

lemma tail_loop_spec:
  assumes "tail_loop ml mb rs acc n = (out, k, why, partial)"
    and "n = utf8_bytes (join_with [newline] acc)" "n \<le> mb" "length acc \<le> ml"
  shows "k = utf8_bytes (join_with [newline] out) \<and> k \<le> mb \<and> length out \<le> ml
     \<and> (\<not> partial \<longrightarrow> (\<exists>j. out = rev (take j rs) @ acc \<and> j \<le> length rs))"
  using assms
proof (induction ml mb rs acc n rule: tail_loop.induct)
  case (1 ml mb acc n)
  then show ?case by auto
next
  case (2 ml mb l rs acc n)
  let ?b = "utf8_bytes l + (if acc \<noteq> [] then 1 else 0)"
  consider (more) "length acc < ml" "n + ?b \<le> mb" | (full) "\<not> length acc < ml"
    | (cut) "length acc < ml" "n + ?b > mb" "list_all (\<lambda>c. c = []) acc"
    | (stop) "length acc < ml" "n + ?b > mb" "\<not> list_all (\<lambda>c. c = []) acc"
    by linarith
  then show ?case
  proof cases
    case more
    have "n + ?b = utf8_bytes (join_with [newline] (l # acc))"
      using "2.prems"(2) by (cases acc) (simp_all add: utf8_bytes_join del: join_with.simps(3))
    with more 2 have r: "k = utf8_bytes (join_with [newline] out) \<and> k \<le> mb \<and> length out \<le> ml"
      and j: "\<not> partial \<longrightarrow> (\<exists>j. out = rev (take j rs) @ l # acc \<and> j \<le> length rs)"
      by (auto simp: Let_def)
    have "\<not> partial \<longrightarrow> (\<exists>j. out = rev (take j (l # rs)) @ acc \<and> j \<le> length (l # rs))"
    proof
      assume "\<not> partial"
      with j obtain j' where "out = rev (take j' rs) @ l # acc" "j' \<le> length rs" by auto
      then show "\<exists>j. out = rev (take j (l # rs)) @ acc \<and> j \<le> length (l # rs)"
        by (intro exI [of _ "Suc j'"]) simp
    qed
    with r show ?thesis by simp
  next
    case full
    with "2.prems" show ?thesis by (auto intro: exI [of _ 0])
  next
    case cut
    define kept where "kept = min (length acc) (mb - 1)"
    define w where "w = truncate_string_to_bytes_from_end l (mb - kept)"
    from cut "2.prems"(1) have out: "out = w # take kept acc" "k = utf8_bytes w + kept" "partial"
      by (auto simp: Let_def kept_def w_def)
    from cut(3) have "list_all (\<lambda>c. c = []) (take kept acc)"
      by (auto simp: list_all_iff dest: in_set_takeD)
    then have bytes: "utf8_bytes (join_with [newline] out) = utf8_bytes w + length (take kept acc)"
      unfolding out(1) by (rule join_blanks_bytes)
    have kept: "kept \<le> length acc" "kept \<le> mb"
      by (simp_all add: kept_def)
    moreover have "utf8_bytes w \<le> mb - kept"
      unfolding w_def by (rule truncate_from_end_bytes)
    ultimately show ?thesis
      using bytes out cut(1) by simp
  next
    case stop
    with "2.prems" show ?thesis by (auto simp: Let_def intro: exI [of _ 0])
  qed
qed

lemma truncate_tail_spec:
  "t_output_lines (truncate_tail ml mb s) \<le> ml"
  "t_output_bytes (truncate_tail ml mb s) \<le> mb"
  "t_output_bytes (truncate_tail ml mb s) = utf8_bytes (t_content (truncate_tail ml mb s))"
  "\<not> t_last_partial (truncate_tail ml mb s) \<Longrightarrow>
   \<exists>j. t_content (truncate_tail ml mb s) = join_with [newline] (drop j (split_on newline s))"
proof -
  let ?ls = "split_on newline s" and ?t = "truncate_tail ml mb s"
  have "t_output_lines ?t \<le> ml \<and> t_output_bytes ?t \<le> mb \<and> t_output_bytes ?t = utf8_bytes (t_content ?t)
    \<and> (\<not> t_last_partial ?t \<longrightarrow> (\<exists>j. t_content ?t = join_with [newline] (drop j ?ls)))"
  proof (cases "length ?ls \<le> ml \<and> utf8_bytes s \<le> mb")
    case True
    moreover have "\<exists>j. s = join_with [newline] (drop j ?ls)" by (rule exI [of _ 0]) simp
    ultimately show ?thesis by (simp add: truncate_tail_def untruncated_def Let_def)
  next
    case False
    obtain out k why partial where r: "tail_loop ml mb (rev ?ls) [] 0 = (out, k, why, partial)"
      by (cases "tail_loop ml mb (rev ?ls) [] 0") auto
    have *: "k = utf8_bytes (join_with [newline] out) \<and> k \<le> mb \<and> length out \<le> ml
      \<and> (\<not> partial \<longrightarrow> (\<exists>j. out = rev (take j (rev ?ls)) @ [] \<and> j \<le> length (rev ?ls)))"
      by (rule tail_loop_spec [OF r]) simp_all
    then have "\<exists>j. join_with [newline] out = join_with [newline] (drop j ?ls)" if "\<not> partial"
      using that by (auto simp: take_rev)
    moreover have "truncate_tail ml mb s =
        \<lparr>t_content = join_with [newline] out, t_truncated = True,
         t_by = Some (if length out \<ge> ml \<and> k \<le> mb then ByLines else why), t_total_lines = length ?ls,
         t_total_bytes = utf8_bytes s, t_output_lines = length out, t_output_bytes = k,
         t_last_partial = partial, t_first_exceeds = False, t_max_lines = ml, t_max_bytes = mb\<rparr>"
      using False r * unfolding truncate_tail_def Let_def by auto
    ultimately show ?thesis using * by simp
  qed
  then show "t_output_lines ?t \<le> ml" "t_output_bytes ?t \<le> mb"
    "t_output_bytes ?t = utf8_bytes (t_content ?t)"
    "\<not> t_last_partial ?t \<Longrightarrow> \<exists>j. t_content ?t = join_with [newline] (drop j ?ls)"
    by blast+
qed

section \<open>What a caller relies on\<close>

definition over_limit :: "nat \<Rightarrow> nat \<Rightarrow> jstring \<Rightarrow> bool" where
  "over_limit ml mb s \<longleftrightarrow> \<not> (length (split_on newline s) \<le> ml \<and> utf8_bytes s \<le> mb)"

locale line_window =
  fixes cut :: "nat \<Rightarrow> nat \<Rightarrow> jstring \<Rightarrow> truncation"
  assumes lines_bound: "t_output_lines (cut ml mb s) \<le> ml"
    and bytes_bound: "t_output_bytes (cut ml mb s) \<le> mb"
    and bytes_count: "t_output_bytes (cut ml mb s) = utf8_bytes (t_content (cut ml mb s))"
    and truncated_iff: "t_truncated (cut ml mb s) \<longleftrightarrow> over_limit ml mb s"
    and untouched: "\<not> over_limit ml mb s \<Longrightarrow> t_content (cut ml mb s) = s"
begin

lemma content_bytes: "utf8_bytes (t_content (cut ml mb s)) \<le> mb"
  using bytes_bound [of ml mb s] by (simp add: bytes_count)

lemma truncated_differs_only_when_over:
  "t_content (cut ml mb s) \<noteq> s \<Longrightarrow> t_truncated (cut ml mb s)"
  using untouched truncated_iff by blast

text \<open>Cutting again with the same byte limit and enough lines changes nothing.\<close>

lemma cut_again:
  "length (split_on newline (t_content (cut ml mb s))) \<le> ml \<Longrightarrow>
   t_content (cut ml mb (t_content (cut ml mb s))) = t_content (cut ml mb s)"
  by (rule untouched) (simp add: over_limit_def content_bytes)

end

interpretation head: line_window truncate_head
proof
  fix ml mb s
  obtain j where "t_output_lines (truncate_head ml mb s) = j \<and> j \<le> ml
     \<and> t_output_bytes (truncate_head ml mb s) = utf8_bytes (t_content (truncate_head ml mb s))
     \<and> t_output_bytes (truncate_head ml mb s) \<le> mb"
    using truncate_head_spec [of ml mb s] by blast
  then show "t_output_lines (truncate_head ml mb s) \<le> ml" "t_output_bytes (truncate_head ml mb s) \<le> mb"
    "t_output_bytes (truncate_head ml mb s) = utf8_bytes (t_content (truncate_head ml mb s))"
    by auto
  show "t_truncated (truncate_head ml mb s) \<longleftrightarrow> over_limit ml mb s"
    by (simp add: truncate_head_def untruncated_def over_limit_def Let_def split: prod.split)
  show "\<not> over_limit ml mb s \<Longrightarrow> t_content (truncate_head ml mb s) = s"
    by (simp add: truncate_head_def untruncated_def over_limit_def Let_def)
qed

interpretation tail: line_window truncate_tail
proof
  fix ml mb s
  show "t_output_lines (truncate_tail ml mb s) \<le> ml" "t_output_bytes (truncate_tail ml mb s) \<le> mb"
    "t_output_bytes (truncate_tail ml mb s) = utf8_bytes (t_content (truncate_tail ml mb s))"
    by (fact truncate_tail_spec)+
  show "t_truncated (truncate_tail ml mb s) \<longleftrightarrow> over_limit ml mb s"
    by (simp add: truncate_tail_def untruncated_def over_limit_def Let_def split: prod.split)
  show "\<not> over_limit ml mb s \<Longrightarrow> t_content (truncate_tail ml mb s) = s"
    by (simp add: truncate_tail_def untruncated_def over_limit_def Let_def)
qed

section \<open>Line breaks of the two cuts\<close>

lemma truncate_from_end_newlines:
  "newline \<notin> set l \<Longrightarrow> newline \<notin> set (truncate_string_to_bytes_from_end l mb)"
proof -
  assume "newline \<notin> set l"
  then have "count_list (code_points l) 10 = 0"
    by (simp add: count_newline_points count_list_0_iff)
  moreover obtain j where "code_points (truncate_string_to_bytes_from_end l mb) = drop j (code_points l)"
    using truncate_from_end_points [of l mb] by blast
  ultimately have "count_list (code_points (truncate_string_to_bytes_from_end l mb)) 10 = 0"
    using count_list_drop_le [of j "code_points l" 10] by simp
  then show ?thesis by (simp add: count_newline_points count_list_0_iff)
qed

lemma tail_loop_lines:
  "tail_loop ml mb rs acc n = (out, k, why, partial) \<Longrightarrow>
   (\<And>c. c \<in> set rs \<union> set acc \<Longrightarrow> newline \<notin> set c) \<Longrightarrow> c \<in> set out \<Longrightarrow> newline \<notin> set c"
  by (induction ml mb rs acc n rule: tail_loop.induct)
    (fastforce simp: Let_def truncate_from_end_newlines dest: in_set_takeD split: if_splits)+

lemma truncate_head_newlines: "count_list (t_content (truncate_head ml mb s)) newline \<le> ml - 1"
proof -
  obtain j where j: "t_content (truncate_head ml mb s) = join_with [newline] (take j (split_on newline s))"
    "j \<le> ml"
    using truncate_head_spec [of ml mb s] by blast
  have "count_list (t_content (truncate_head ml mb s)) newline = length (take j (split_on newline s)) - 1"
    unfolding j(1) by (rule count_list_join) (auto dest: in_set_takeD split_on_no_sep)
  with j(2) show ?thesis by simp
qed

lemma truncate_tail_newlines: "count_list (t_content (truncate_tail ml mb s)) newline \<le> ml - 1"
proof (cases "over_limit ml mb s")
  case False
  then have "count_list s newline = length (split_on newline s) - 1" "length (split_on newline s) \<le> ml"
    by (simp_all add: length_split_on over_limit_def)
  with False show ?thesis by (simp add: tail.untouched)
next
  case True
  obtain out k why partial where r: "tail_loop ml mb (rev (split_on newline s)) [] 0 = (out, k, why, partial)"
    by (cases "tail_loop ml mb (rev (split_on newline s)) [] 0") auto
  have lines: "\<And>c. c \<in> set out \<Longrightarrow> newline \<notin> set c"
    by (rule tail_loop_lines [OF r]) (auto dest: split_on_no_sep)
  have "length out \<le> ml" using tail_loop_spec [OF r] by simp
  moreover have "t_content (truncate_tail ml mb s) = join_with [newline] out"
    using True r unfolding truncate_tail_def over_limit_def Let_def by auto
  ultimately show ?thesis using count_list_join [of out, OF lines] by simp
qed

section \<open>Properties\<close>

text \<open>
  C38. Truncating from the head keeps whole lines from the start, as many as fit: the output is the
  first \<open>j\<close> lines joined, it respects both limits, \<open>outputBytes\<close> is its UTF-8 length, and either
  every line was kept, or \<open>j\<close> is the line limit, or the next line would exceed the byte limit.
\<close>

theorem truncate_head_longest_prefix:
  "\<exists>j. t_content (truncate_head ml mb s) = join_with [newline] (take j (split_on newline s))
     \<and> t_output_lines (truncate_head ml mb s) = j \<and> j \<le> ml
     \<and> t_output_bytes (truncate_head ml mb s) = utf8_bytes (t_content (truncate_head ml mb s))
     \<and> t_output_bytes (truncate_head ml mb s) \<le> mb
     \<and> (j \<ge> length (split_on newline s) \<or> j = ml \<or>
         t_output_bytes (truncate_head ml mb s) + utf8_bytes (split_on newline s ! j) + (if 0 < j then 1 else 0) > mb)"
  using truncate_head_spec [of ml mb s] by (meson not_le)

text \<open>
  Truncating from the tail never exceeds the line limit or the byte limit, whatever the text
  (surrogate pairs and oversized last lines included); unless a line had to be cut, the output is a
  suffix of whole lines, and a cut line keeps whole characters.
\<close>

theorem truncate_tail_within_limits:
  "t_output_lines (truncate_tail ml mb s) \<le> ml
   \<and> utf8_bytes (t_content (truncate_tail ml mb s)) \<le> mb
   \<and> Suc (count_list (t_content (truncate_tail ml mb s)) newline) \<le> max 1 ml
   \<and> (t_last_partial (truncate_tail ml mb s) \<or>
       (\<exists>j. t_content (truncate_tail ml mb s) = join_with [newline] (drop j (split_on newline s))))
   \<and> (\<exists>j. code_points (truncate_string_to_bytes_from_end l b) = drop j (code_points l))"
  using truncate_tail_spec [of ml mb s] truncate_tail_newlines [of ml mb s]
    tail.content_bytes [of ml mb s] truncate_from_end_points [of l b]
  by auto

end
