(* ===== verification/OutputCap.thy ===== *)
theory OutputCap
  imports Truncate
begin

text \<open>
  The cap on tool results (packages/coding-agent/src/core/tool-output-cap.ts): the text parts of an
  oversized result become one head and tail window with a pointer to the full output; images pass
  through. The scratchpad writer is an argument that may fail (\<open>None\<close>, the exception of the source);
  a failure leaves the result uncapped. \<open>head_ratio\<close> is an exact rational.
\<close>

record cap_options =
  max_lines :: nat
  max_bytes :: nat
  head_ratio :: rat

record capped_output =
  co_content :: "part list"
  co_capped :: bool
  co_path :: "jstring option"
  co_original_bytes :: nat

definition beyond_pointer_omitted :: jstring where
  "beyond_pointer_omitted = js ''[... middle omitted; see full output file ...]''"

definition exceeds_output_cap :: "jstring \<Rightarrow> cap_options \<Rightarrow> bool" where
  "exceeds_output_cap s opts \<longleftrightarrow>
     utf8_bytes s > max_bytes opts \<or> length (split_on newline s) > max_lines opts"

definition build_pointer :: "jstring \<Rightarrow> nat \<Rightarrow> nat \<Rightarrow> cap_options \<Rightarrow> jstring" where
  "build_pointer path total_lines total_bytes opts =
     join_with [newline]
       [js ''[Output exceeded '' @ dec_nat (max_lines opts) @ js '' lines / '' @ dec_nat (max_bytes opts)
          @ js '' bytes ('' @ dec_nat total_lines @ js '' lines, '' @ dec_nat total_bytes @ js '' bytes).]'',
        js ''[Full output: '' @ path @ js '']'',
        js ''[Use grep/awk/sed on that file to inspect specific sections.]'']"

definition joined_text :: "part list \<Rightarrow> jstring" where
  "joined_text ps = join_with [newline] (List.map_filter text_of_part ps)"

definition inline_image_bytes :: "part list \<Rightarrow> nat" where
  "inline_image_bytes ps =
     sum_list (map (\<lambda>p. case p of ImagePart d m \<Rightarrow> length d * 3 div 4 | TextPart t g \<Rightarrow> 0) ps)"

definition head_lines :: "cap_options \<Rightarrow> nat" where
  "head_lines opts = max 1 (nat \<lfloor>of_nat (max_lines opts) * head_ratio opts\<rfloor>)"

definition head_bytes :: "cap_options \<Rightarrow> nat" where
  "head_bytes opts = max 1 (nat \<lceil>of_nat (max_bytes opts) * head_ratio opts\<rceil>)"

text \<open>The window: the two cuts that are not empty, around the omission marker.\<close>

definition cap_window :: "jstring \<Rightarrow> cap_options \<Rightarrow> jstring" where
  "cap_window s opts =
     (let tail_lines = max_lines opts - head_lines opts;
          head = t_content (truncate_head (head_lines opts) (head_bytes opts) s);
          tail = (if tail_lines > 0 then t_content (truncate_tail tail_lines (max_bytes opts) s) else [])
      in join_with (newline # beyond_pointer_omitted @ [newline]) (filter (\<lambda>c. c \<noteq> []) [head, tail]))"

definition cap_tool_output ::
  "part list \<Rightarrow> jstring option \<Rightarrow> cap_options \<Rightarrow> (jstring \<Rightarrow> jstring option) \<Rightarrow> capped_output" where
  "cap_tool_output content existing opts write =
     (let rest = filter is_image content;
          s = joined_text content;
          original = utf8_bytes s + inline_image_bytes rest
      in if \<not> exceeds_output_cap s opts then
           \<lparr>co_content = content, co_capped = False, co_path = None, co_original_bytes = original\<rparr>
         else
           (case (case existing of Some p \<Rightarrow> Some p | None \<Rightarrow> write s) of
              None \<Rightarrow> \<lparr>co_content = content, co_capped = False, co_path = None, co_original_bytes = 0\<rparr>
            | Some path \<Rightarrow>
                let windowed = cap_window s opts;
                    pointer = build_pointer path (length (split_on newline s)) (utf8_bytes s) opts;
                    bounded = (if windowed \<noteq> [] then windowed @ newline # pointer else pointer)
                in \<lparr>co_content = TextPart bounded None # rest, co_capped = True, co_path = Some path,
                    co_original_bytes = original\<rparr>))"

section \<open>What the cap keeps\<close>

lemma filter_images: "filter is_image (filter is_image ps) = filter is_image ps"
  by simp

lemma cap_keeps_images: "filter is_image (co_content (cap_tool_output c e opts w)) = filter is_image c"
  by (simp add: cap_tool_output_def Let_def split: option.split)

lemma cap_uncapped_content:
  "\<not> co_capped (cap_tool_output c e opts w) \<Longrightarrow> co_content (cap_tool_output c e opts w) = c"
  by (simp add: cap_tool_output_def Let_def split: option.splits if_splits)

lemma cap_capped_iff:
  "co_capped (cap_tool_output c e opts w) \<longleftrightarrow>
     exceeds_output_cap (joined_text c) opts \<and> (e \<noteq> None \<or> w (joined_text c) \<noteq> None)"
  by (auto simp: cap_tool_output_def Let_def split: option.splits if_splits)

section \<open>Bounds on the window\<close>

lemma over_limit_exceeds: "over_limit (max_lines opts) (max_bytes opts) s = exceeds_output_cap s opts"
  by (auto simp: over_limit_def exceeds_output_cap_def)

lemma utf8_bytes_sep:
  "utf8_bytes (a @ (newline # m @ [newline]) @ b) = utf8_bytes a + utf8_bytes m + 2 + utf8_bytes b"
  using utf8_bytes_newline [of a "m @ newline # b"] utf8_bytes_newline [of m b] by simp

lemma marker_bytes: "utf8_bytes beyond_pointer_omitted = 46"
  by code_simp

lemma cap_window_bytes: "utf8_bytes (cap_window s opts) \<le> head_bytes opts + max_bytes opts + 48"
proof -
  let ?h = "t_content (truncate_head (head_lines opts) (head_bytes opts) s)"
  let ?t = "if max_lines opts - head_lines opts > 0
    then t_content (truncate_tail (max_lines opts - head_lines opts) (max_bytes opts) s) else []"
  have h: "utf8_bytes ?h \<le> head_bytes opts" by (rule head.content_bytes)
  have t: "utf8_bytes ?t \<le> max_bytes opts" by (simp add: tail.content_bytes)
  show ?thesis
    unfolding cap_window_def Let_def
    using h t utf8_bytes_sep [of ?h beyond_pointer_omitted ?t] marker_bytes by auto
qed

lemma count_list_marker: "count_list beyond_pointer_omitted newline = 0"
  by code_simp

lemma cap_window_newlines:
  assumes "head_ratio opts \<le> 1"
  shows "count_list (cap_window s opts) newline \<le> max 1 (max_lines opts)"
proof -
  let ?h = "t_content (truncate_head (head_lines opts) (head_bytes opts) s)"
  let ?t = "if max_lines opts - head_lines opts > 0
    then t_content (truncate_tail (max_lines opts - head_lines opts) (max_bytes opts) s) else []"
  have "of_nat (max_lines opts) * head_ratio opts \<le> of_nat (max_lines opts)"
    using assms by (simp add: mult_left_le)
  then have "\<lfloor>of_nat (max_lines opts) * head_ratio opts\<rfloor> \<le> int (max_lines opts)"
    by (metis floor_mono floor_of_nat)
  then have hl: "head_lines opts \<le> max 1 (max_lines opts)" by (auto simp: head_lines_def)
  have h: "count_list ?h newline \<le> head_lines opts - 1" by (rule truncate_head_newlines)
  have t: "count_list ?t newline \<le> max_lines opts - head_lines opts - 1"
    using truncate_tail_newlines [of "max_lines opts - head_lines opts" "max_bytes opts" s] by simp
  have h1: "1 \<le> head_lines opts" by (simp add: head_lines_def)
  show ?thesis
    unfolding cap_window_def Let_def using h t hl h1 count_list_marker by auto
qed

lemma code_points_of_js_plain [simp]: "utf8_bytes (newline # s) = Suc (utf8_bytes s)"
  using utf8_bytes_newline [of "[]" s] by simp

section \<open>Properties\<close>

text \<open>
  A capped result is bounded: it is one text block followed by the images of the original, in
  order; the block has at most \<open>maxLines\<close> line breaks (one for \<open>maxLines\<close> 0) before its pointer, and
  its bytes are at most the head budget plus \<open>maxBytes\<close>, the 48 bytes of the omission marker, one
  line break and the pointer.
\<close>

theorem cap_bounds:
  assumes "co_capped (cap_tool_output content existing opts write)" "head_ratio opts \<le> 1"
  shows "\<exists>t path. co_content (cap_tool_output content existing opts write)
      = TextPart t None # filter is_image content
    \<and> co_path (cap_tool_output content existing opts write) = Some path
    \<and> (let pointer = build_pointer path (length (split_on newline (joined_text content)))
                      (utf8_bytes (joined_text content)) opts
       in utf8_bytes t \<le> head_bytes opts + max_bytes opts + 49 + utf8_bytes pointer
        \<and> count_list t newline \<le> max 1 (max_lines opts) + 1 + count_list pointer newline)"
proof -
  let ?s = "joined_text content"
  obtain path where path: "(case existing of Some p \<Rightarrow> Some p | None \<Rightarrow> write ?s) = Some path"
    using assms(1) by (cases existing) (auto simp: cap_capped_iff)
  let ?pointer = "build_pointer path (length (split_on newline ?s)) (utf8_bytes ?s) opts"
  let ?w = "cap_window ?s opts"
  have "cap_tool_output content existing opts write =
      \<lparr>co_content = TextPart (if ?w \<noteq> [] then ?w @ newline # ?pointer else ?pointer) None # filter is_image content,
       co_capped = True, co_path = Some path,
       co_original_bytes = utf8_bytes ?s + inline_image_bytes (filter is_image content)\<rparr>"
    using assms(1) path unfolding cap_capped_iff by (auto simp: cap_tool_output_def Let_def)
  moreover have "utf8_bytes (?w @ newline # ?pointer) = utf8_bytes ?w + 1 + utf8_bytes ?pointer"
    by (rule utf8_bytes_newline)
  ultimately show ?thesis
    using cap_window_bytes [of ?s opts] cap_window_newlines [OF assms(2), of ?s]
    by (auto simp: Let_def)
qed

text \<open>
  The cap fails open and is otherwise invisible: an output inside both limits, and an output
  whose scratchpad cannot be written, come back unchanged and uncapped; the writer is never needed
  when the tool already spilled its output.
\<close>

theorem cap_fails_open:
  "(if exceeds_output_cap (joined_text content) opts \<and> (existing \<noteq> None \<or> write (joined_text content) \<noteq> None)
    then co_capped (cap_tool_output content existing opts write)
      \<and> co_path (cap_tool_output content existing opts write)
          = (if existing = None then write (joined_text content) else existing)
    else co_content (cap_tool_output content existing opts write) = content
      \<and> \<not> co_capped (cap_tool_output content existing opts write)
      \<and> co_path (cap_tool_output content existing opts write) = None)"
  by (auto simp: cap_tool_output_def Let_def split: option.splits)

text \<open>
  The window may repeat lines and outgrow its input: the tail may use the whole byte budget
  beside the head's share, so the two cuts overlap when the text is only a little over the limit.
  Here six one-letter lines (11 bytes) against a limit of 10 bytes come back with the second and
  third line twice, under a marker that claims an omission.
\<close>

theorem cap_window_overlaps:
  "let s = join_with [newline] (map js [''a'', ''b'', ''c'', ''d'', ''e'', ''f'']);
       opts = \<lparr>max_lines = 200, max_bytes = 10, head_ratio = 3 / 5\<rparr>
   in exceeds_output_cap s opts \<and>
      split_on newline (cap_window s opts)
        = map js [''a'', ''b'', ''c''] @ beyond_pointer_omitted # map js [''b'', ''c'', ''d'', ''e'', ''f'']
      \<and> utf8_bytes (cap_window s opts) > utf8_bytes s"
  by code_simp

text \<open>A concrete capped result, for the bounds above.\<close>

theorem cap_bounds_witness:
  "\<exists>t path. co_content (cap_tool_output [TextPart (js ''abc'') None] None
      \<lparr>max_lines = 5, max_bytes = 2, head_ratio = 1 / 2\<rparr> (\<lambda>s. Some (js ''/tmp/x'')))
      = TextPart t None # filter is_image [TextPart (js ''abc'') None]
    \<and> co_path (cap_tool_output [TextPart (js ''abc'') None] None
      \<lparr>max_lines = 5, max_bytes = 2, head_ratio = 1 / 2\<rparr> (\<lambda>s. Some (js ''/tmp/x''))) = Some path
    \<and> (let pointer = build_pointer path (length (split_on newline (joined_text [TextPart (js ''abc'') None])))
                      (utf8_bytes (joined_text [TextPart (js ''abc'') None]))
                      \<lparr>max_lines = 5, max_bytes = 2, head_ratio = 1 / 2\<rparr>
       in utf8_bytes t \<le> head_bytes \<lparr>max_lines = 5, max_bytes = 2, head_ratio = 1 / 2\<rparr> + 2 + 49 + utf8_bytes pointer
        \<and> count_list t newline \<le> max 1 5 + 1 + count_list pointer newline)"
proof -
  let ?o = "\<lparr>max_lines = 5, max_bytes = 2, head_ratio = 1 / 2\<rparr>"
  have "utf8_bytes (js ''abc'') = 3" by code_simp
  then have "co_capped (cap_tool_output [TextPart (js ''abc'') None] None ?o (\<lambda>s. Some (js ''/tmp/x'')))"
    unfolding cap_capped_iff
    by (simp add: exceeds_output_cap_def joined_text_def List.map_filter_def)
  from cap_bounds [OF this] show ?thesis by simp
qed

end
