(* ===== verification/Tokens.thy ===== *)
theory Tokens
  imports Messages
begin

text \<open>
  Token estimates (packages/coding-agent/src/core/compaction/compaction.ts): the chars/4 heuristic
  per message, and the estimate of a context from the last usable assistant usage plus what follows
  it. Character counts are JavaScript string lengths.
\<close>

definition ceil_quarter :: "nat \<Rightarrow> nat" where
  "ceil_quarter n = (n + 3) div 4"

fun text_chars :: "part \<Rightarrow> nat" where
  "text_chars (TextPart t s) = length t"
| "text_chars (ImagePart d m) = 0"

fun part_chars :: "part \<Rightarrow> nat" where
  "part_chars (TextPart t s) = length t"
| "part_chars (ImagePart d m) = 4800"

fun block_chars :: "block \<Rightarrow> nat" where
  "block_chars (TextBlock t s) = length t"
| "block_chars (ThinkingBlock t s r) = length t"
| "block_chars (CallBlock c) = length (call_name c) + length (json_stringify (call_args c))"

fun content_chars :: "(part \<Rightarrow> nat) \<Rightarrow> content \<Rightarrow> nat" where
  "content_chars f (Plain s) = length s"
| "content_chars f (Parts ps) = sum_list (map f ps)"

fun estimate_tokens :: "message \<Rightarrow> nat" where
  "estimate_tokens (User m) = ceil_quarter (content_chars text_chars (um_content m))"
| "estimate_tokens (Assistant m) = ceil_quarter (sum_list (map block_chars (am_content m)))"
| "estimate_tokens (Custom m) = ceil_quarter (content_chars part_chars (cm_content m))"
| "estimate_tokens (ToolResult m) = ceil_quarter (sum_list (map part_chars (tr_content m)))"
| "estimate_tokens (BashExecution m) = ceil_quarter (length (be_command m) + length (be_output m))"
| "estimate_tokens (BranchSummary m) = ceil_quarter (length (bs_summary m))"
| "estimate_tokens (CompactionSummary m) = ceil_quarter (length (cs_summary m))"

definition calculate_context_tokens :: "usage \<Rightarrow> int" where
  "calculate_context_tokens u =
     (if usage_total u \<noteq> 0 then usage_total u
      else usage_input u + usage_output u + usage_cache_read u + usage_cache_write u)"

fun get_assistant_usage :: "message \<Rightarrow> usage option" where
  "get_assistant_usage (Assistant m) =
     (if am_stop m \<noteq> Aborted \<and> am_stop m \<noteq> ErrorStop then Some (am_usage m) else None)"
| "get_assistant_usage _ = None"

text \<open>The scan from the end: \<open>rs\<close> is the rest of the transcript, last message first.\<close>

fun last_usage_rev :: "message list \<Rightarrow> (usage \<times> nat) option" where
  "last_usage_rev [] = None"
| "last_usage_rev (m # rs) =
     (case get_assistant_usage m of Some u \<Rightarrow> Some (u, length rs) | None \<Rightarrow> last_usage_rev rs)"

definition get_last_assistant_usage_info :: "transcript \<Rightarrow> (usage \<times> nat) option" where
  "get_last_assistant_usage_info ms = last_usage_rev (rev ms)"

record context_estimate =
  ce_tokens :: int
  ce_usage_tokens :: int
  ce_trailing_tokens :: int
  ce_last_usage_index :: "nat option"

definition estimate_sum :: "transcript \<Rightarrow> nat" where
  "estimate_sum ms = sum_list (map estimate_tokens ms)"

definition estimate_context_tokens :: "transcript \<Rightarrow> context_estimate" where
  "estimate_context_tokens ms =
     (case get_last_assistant_usage_info ms of
        None \<Rightarrow> \<lparr>ce_tokens = int (estimate_sum ms), ce_usage_tokens = 0,
                 ce_trailing_tokens = int (estimate_sum ms), ce_last_usage_index = None\<rparr>
      | Some (u, i) \<Rightarrow>
          (let used = calculate_context_tokens u; trailing = int (estimate_sum (drop (Suc i) ms))
           in \<lparr>ce_tokens = used + trailing, ce_usage_tokens = used, ce_trailing_tokens = trailing,
               ce_last_usage_index = Some i\<rparr>))"

record compaction_settings =
  compact_enabled :: bool
  reserve_tokens :: int
  keep_recent_tokens :: int

definition should_compact :: "int \<Rightarrow> int \<Rightarrow> compaction_settings \<Rightarrow> bool" where
  "should_compact tokens window s =
     (if \<not> compact_enabled s then False
      else if window \<le> 0 then False
      else tokens > window - reserve_tokens s)"

lemma estimate_sum_simps [simp]:
  "estimate_sum [] = 0" "estimate_sum (m # ms) = estimate_tokens m + estimate_sum ms"
  "estimate_sum (ms @ ns) = estimate_sum ms + estimate_sum ns"
  by (simp_all add: estimate_sum_def)

lemma last_usage_rev_None: "last_usage_rev rs = None \<longleftrightarrow> (\<forall>m\<in>set rs. get_assistant_usage m = None)"
  by (induction rs) (auto split: option.splits)

lemma last_usage_rev_Some:
  "last_usage_rev rs = Some (u, i) \<Longrightarrow>
   \<exists>pre m post. rs = pre @ m # post \<and> i = length post \<and> get_assistant_usage m = Some u
     \<and> (\<forall>n\<in>set pre. get_assistant_usage n = None)"
proof (induction rs)
  case (Cons m rs)
  show ?case
  proof (cases "get_assistant_usage m")
    case None
    with Cons obtain pre n post where "rs = pre @ n # post" "i = length post"
      "get_assistant_usage n = Some u" "\<forall>n\<in>set pre. get_assistant_usage n = None" by auto
    with None show ?thesis by (intro exI [of _ "m # pre"] exI [of _ n] exI [of _ post]) auto
  next
    case (Some v)
    with Cons.prems show ?thesis by (intro exI [of _ "[]"]) auto
  qed
qed simp

text \<open>The estimate splits the transcript at the last usable usage.\<close>

lemma estimate_context_split:
  assumes "get_assistant_usage m = Some u" "\<And>n. n \<in> set post \<Longrightarrow> get_assistant_usage n = None"
  shows "ce_tokens (estimate_context_tokens (pre @ m # post)) = calculate_context_tokens u + int (estimate_sum post)"
proof -
  have "last_usage_rev (rev post @ m # rev pre) = Some (u, length pre)"
    using assms
  proof (induction post rule: rev_induct)
    case (snoc x xs)
    then show ?case by (simp add: snoc.prems(2))
  qed simp
  then show ?thesis
    by (simp add: estimate_context_tokens_def get_last_assistant_usage_info_def Let_def)
qed

lemma estimate_context_append:
  assumes "\<And>n. n \<in> set post \<Longrightarrow> get_assistant_usage n = None"
  shows "ce_tokens (estimate_context_tokens (ms @ post)) = ce_tokens (estimate_context_tokens ms) + int (estimate_sum post)"
proof (cases "last_usage_rev (rev ms)")
  case None
  then have "last_usage_rev (rev (ms @ post)) = None"
    using assms by (auto simp: last_usage_rev_None)
  with None show ?thesis
    by (simp add: estimate_context_tokens_def get_last_assistant_usage_info_def)
next
  case (Some p)
  then obtain u i where "last_usage_rev (rev ms) = Some (u, i)" by (cases p) auto
  from last_usage_rev_Some [OF this] obtain a m b where r: "rev ms = a @ m # b"
    "get_assistant_usage m = Some u" "\<forall>n\<in>set a. get_assistant_usage n = None" by blast
  then have ms: "ms = rev b @ m # rev a" by (metis rev.simps(2) rev_append rev_rev_ident append.assoc append_Cons append_Nil)
  have "ce_tokens (estimate_context_tokens (rev b @ m # (rev a @ post)))
      = calculate_context_tokens u + int (estimate_sum (rev a @ post))"
    by (rule estimate_context_split [OF r(2)]) (use r(3) assms in auto)
  moreover have "ce_tokens (estimate_context_tokens (rev b @ m # rev a))
      = calculate_context_tokens u + int (estimate_sum (rev a))"
    by (rule estimate_context_split [OF r(2)]) (use r(3) in auto)
  ultimately show ?thesis by (simp add: ms)
qed

end
