(* ===== verification/ImageTtl.thy ===== *)
theory ImageTtl
  imports Tokens
begin

text \<open>
  Eviction of stale images from the provider view and the payback gate in front of it
  (packages/coding-agent/src/core/image-ttl.ts). The backward scan is a recursion over the reversed
  transcript that carries \<open>assistantsSeen\<close>; the flag it returns stands for the identity test
  \<open>view === messages\<close>. An infinite payback is \<open>None\<close>.
\<close>

record ttl_options =
  ttl_turns :: int
  ttl_payback :: "rat option"

definition image_token_cost :: nat where
  "image_token_cost = 1200"

definition image_ttl_payback_turns :: rat where
  "image_ttl_payback_turns = 2"

definition count_images :: "part list \<Rightarrow> nat" where
  "count_images ps = length (filter is_image ps)"

fun count_message_images :: "message \<Rightarrow> nat" where
  "count_message_images (User m) = (case um_content m of Plain s \<Rightarrow> 0 | Parts ps \<Rightarrow> count_images ps)"
| "count_message_images (ToolResult m) = count_images (tr_content m)"
| "count_message_images _ = 0"

definition estimate_message_tokens :: "message \<Rightarrow> nat" where
  "estimate_message_tokens m = estimate_tokens m + image_token_cost * count_message_images m"

definition image_eviction_placeholder :: "jstring \<Rightarrow> jstring option \<Rightarrow> jstring" where
  "image_eviction_placeholder mime obs =
     (case obs of
        Some o' \<Rightarrow> if o' \<noteq> [] then js ''[image evicted: '' @ mime @ js ''; observed: '' @ o' @ js '']''
                   else js ''[image evicted: '' @ mime @ js '']''
      | None \<Rightarrow> js ''[image evicted: '' @ mime @ js '']'')"

fun evict_part :: "jstring option \<Rightarrow> part \<Rightarrow> part" where
  "evict_part obs (ImagePart d m) = TextPart (image_eviction_placeholder m obs) None"
| "evict_part obs (TextPart t s) = TextPart t s"

definition evict_parts :: "jstring option \<Rightarrow> part list \<Rightarrow> part list" where
  "evict_parts obs ps =
     (let replaced = map (evict_part obs) ps
      in if replaced \<noteq> [] then replaced
         else [TextPart (image_eviction_placeholder (js ''unknown'') None) None])"

text \<open>The replacement of one message, if it holds images.\<close>

fun evict_message :: "message \<Rightarrow> message option" where
  "evict_message (User m) =
     (case um_content m of
        Plain s \<Rightarrow> None
      | Parts ps \<Rightarrow> if list_ex is_image ps then Some (User (m\<lparr>um_content := Parts (evict_parts None ps)\<rparr>)) else None)"
| "evict_message (ToolResult m) =
     (if list_ex is_image (tr_content m)
      then Some (ToolResult (m\<lparr>tr_content := evict_parts (Some (tr_tool m)) (tr_content m)\<rparr>)) else None)"
| "evict_message _ = None"

fun evict_rev :: "int \<Rightarrow> int \<Rightarrow> message list \<Rightarrow> message list \<times> bool" where
  "evict_rev ttl seen [] = ([], False)"
| "evict_rev ttl seen (m # rs) =
     (if is_assistant m then (case evict_rev ttl (seen + 1) rs of (out, ev) \<Rightarrow> (m # out, ev))
      else (case evict_rev ttl seen rs of (out, ev) \<Rightarrow>
        (case evict_message m of
           None \<Rightarrow> (m # out, ev)
         | Some m' \<Rightarrow> if seen \<le> ttl then (m # out, ev) else (m' # out, True))))"

definition evict_stale_images :: "ttl_options \<Rightarrow> transcript \<Rightarrow> transcript \<times> bool" where
  "evict_stale_images opts ms =
     (if ttl_turns opts \<le> 0 then (ms, False)
      else (case evict_rev (ttl_turns opts) 0 (rev ms) of
              (out, ev) \<Rightarrow> if ev then (rev out, True) else (ms, False)))"

definition count_resident_images :: "transcript \<Rightarrow> nat" where
  "count_resident_images ms = sum_list (map count_message_images ms)"

section \<open>The plan\<close>

record eviction_plan =
  ep_messages :: transcript
  ep_evicted_images :: int
  ep_recovered :: int
  ep_break :: nat
  ep_payback :: "rat option"
  ep_evicted :: bool

definition recovered_tokens :: "transcript \<Rightarrow> transcript \<Rightarrow> int" where
  "recovered_tokens ms view =
     sum_list (map (\<lambda>(m, v). if v = m then 0
       else int (estimate_message_tokens m) - int (estimate_message_tokens v)) (zip ms view))"

definition unchanged_prefix :: "transcript \<Rightarrow> transcript \<Rightarrow> transcript" where
  "unchanged_prefix ms view = map fst (takeWhile (\<lambda>(m, v). v = m) (zip ms view))"

definition break_tokens :: "transcript \<Rightarrow> transcript \<Rightarrow> nat" where
  "break_tokens ms view = sum_list (map estimate_message_tokens (unchanged_prefix ms view))"

definition payback_horizon :: "ttl_options \<Rightarrow> rat" where
  "payback_horizon opts = (case ttl_payback opts of Some h \<Rightarrow> h | None \<Rightarrow> image_ttl_payback_turns)"

definition plan_image_eviction :: "ttl_options \<Rightarrow> transcript \<Rightarrow> eviction_plan" where
  "plan_image_eviction opts ms =
     (case evict_stale_images opts ms of (view, changed) \<Rightarrow>
        if \<not> changed then
          \<lparr>ep_messages = view, ep_evicted_images = 0, ep_recovered = 0, ep_break = 0,
           ep_payback = None, ep_evicted = False\<rparr>
        else
          (let recovered = recovered_tokens ms view;
               brk = break_tokens ms view;
               payback = (if recovered > 0 then Some (of_nat brk / of_int recovered) else None)
           in if (case payback of None \<Rightarrow> True | Some p \<Rightarrow> p > payback_horizon opts) then
                \<lparr>ep_messages = ms, ep_evicted_images = 0, ep_recovered = recovered, ep_break = brk,
                 ep_payback = payback, ep_evicted = False\<rparr>
              else
                \<lparr>ep_messages = view,
                 ep_evicted_images = int (count_resident_images ms) - int (count_resident_images view),
                 ep_recovered = recovered, ep_break = brk, ep_payback = payback, ep_evicted = True\<rparr>))"

section \<open>The scan, read forwards\<close>

definition assistants :: "transcript \<Rightarrow> nat" where
  "assistants ms = length (filter is_assistant ms)"

lemma assistants_simps [simp]:
  "assistants [] = 0" "assistants (m # ms) = (if is_assistant m then 1 else 0) + assistants ms"
  "assistants (ms @ ns) = assistants ms + assistants ns" "assistants (rev ms) = assistants ms"
  by (simp_all add: assistants_def rev_filter [symmetric])

definition evict_at :: "int \<Rightarrow> int \<Rightarrow> message \<Rightarrow> message" where
  "evict_at ttl seen m =
     (case evict_message m of None \<Rightarrow> m | Some m' \<Rightarrow> if seen \<le> ttl then m else m')"

fun evict_fwd :: "int \<Rightarrow> transcript \<Rightarrow> transcript" where
  "evict_fwd ttl [] = []"
| "evict_fwd ttl (m # ms) = evict_at ttl (int (assistants ms)) m # evict_fwd ttl ms"

lemma evict_message_assistant [simp]: "is_assistant m \<Longrightarrow> evict_message m = None"
  by (cases m) simp_all

lemma list_ex_images: "list_ex is_image ps \<longleftrightarrow> 0 < count_images ps"
  by (induction ps) (auto simp: count_images_def)

lemma count_evict_parts [simp]: "count_images (evict_parts obs ps) = 0"
proof -
  have "\<not> is_image (evict_part obs p)" for p by (cases p) simp_all
  then show ?thesis by (simp add: evict_parts_def count_images_def Let_def filter_map comp_def)
qed

lemma evict_message_Some:
  assumes "evict_message m = Some m'"
  shows "skeleton m' = skeleton m" "count_message_images m' = 0" "0 < count_message_images m" "m' \<noteq> m"
proof -
  show "skeleton m' = skeleton m" "count_message_images m' = 0" and *: "0 < count_message_images m"
    using assms by (cases m; auto simp: list_ex_images split: content.splits if_splits)+
  with \<open>count_message_images m' = 0\<close> show "m' \<noteq> m" by auto
qed

lemma evict_message_None: "evict_message m = None \<longleftrightarrow> count_message_images m = 0"
  by (cases m) (auto simp: list_ex_images split: content.splits)

lemma evict_rev_snoc:
  "evict_rev ttl s (rs @ [m]) =
     (case evict_rev ttl s rs of
        (out, ev) \<Rightarrow> (out @ [evict_at ttl (s + int (assistants rs)) m],
                     ev \<or> evict_at ttl (s + int (assistants rs)) m \<noteq> m))"
proof (induction rs arbitrary: s)
  case Nil
  show ?case
    by (auto simp: evict_at_def evict_message_Some(4) split: option.split)
next
  case (Cons r rs)
  have a: "s + 1 + int (assistants rs) = s + (1 + int (assistants rs))" by simp
  show ?case
    by (auto simp: Cons.IH a split: prod.split option.split)
qed

lemma evict_rev_fwd: "evict_rev ttl 0 (rev ms) = (rev (evict_fwd ttl ms), evict_fwd ttl ms \<noteq> ms)"
  by (induction ms) (auto simp: evict_rev_snoc)

lemma evict_stale_images_eq:
  "evict_stale_images opts ms =
     (if ttl_turns opts \<le> 0 then (ms, False)
      else (evict_fwd (ttl_turns opts) ms, evict_fwd (ttl_turns opts) ms \<noteq> ms))"
  by (auto simp: evict_stale_images_def evict_rev_fwd)

lemma length_evict_fwd [simp]: "length (evict_fwd ttl ms) = length ms"
  by (induction ms) simp_all

lemma evict_fwd_nth:
  "i < length ms \<Longrightarrow> evict_fwd ttl ms ! i = evict_at ttl (int (assistants (drop (Suc i) ms))) (ms ! i)"
  by (induction ms arbitrary: i) (auto simp: less_Suc_eq_0_disj)

lemma skeleton_evict_at [simp]: "skeleton (evict_at ttl s m) = skeleton m"
  by (simp add: evict_at_def evict_message_Some split: option.split)

lemma skeleton_evict_fwd: "map skeleton (evict_fwd ttl ms) = map skeleton ms"
  by (induction ms) simp_all

interpretation ttl: transcript_transform "\<lambda>ms. fst (evict_stale_images opts ms)" for opts
  by unfold_locales (simp add: evict_stale_images_eq skeleton_evict_fwd)

text \<open>The view the plan hands out is a transform too, whatever the gate decides.\<close>

lemma plan_messages_cases:
  "ep_messages (plan_image_eviction opts ms)
     = (if ep_evicted (plan_image_eviction opts ms) then fst (evict_stale_images opts ms) else ms)"
  by (auto simp: plan_image_eviction_def evict_stale_images_eq Let_def split: prod.split)

interpretation ttl_plan: transcript_transform "\<lambda>ms. ep_messages (plan_image_eviction opts ms)" for opts
  by unfold_locales (simp add: plan_messages_cases ttl.keeps_skeleton)

section \<open>Monotonicity of the gate\<close>

lemma evict_fwd_not_stale: "int (assistants ms) \<le> ttl \<Longrightarrow> evict_fwd ttl ms = ms"
  by (induction ms) (auto simp: evict_at_def split: option.split)

definition saving :: "message \<Rightarrow> message \<Rightarrow> int" where
  "saving m v = (if v = m then 0 else int (estimate_message_tokens m) - int (estimate_message_tokens v))"

lemma recovered_Cons [simp]:
  "recovered_tokens [] [] = 0"
  "recovered_tokens (m # ms) (v # vs) = saving m v + recovered_tokens ms vs"
  by (simp_all add: recovered_tokens_def saving_def)

lemma break_Cons [simp]:
  "break_tokens [] [] = 0"
  "break_tokens (m # ms) (v # vs) = (if v = m then estimate_message_tokens m + break_tokens ms vs else 0)"
  by (simp_all add: break_tokens_def unchanged_prefix_def)

text \<open>No eviction makes a message larger: true unless a placeholder outgrows the image it replaces.\<close>

definition evictions_save :: "transcript \<Rightarrow> bool" where
  "evictions_save ms \<longleftrightarrow>
     (\<forall>m\<in>set ms. \<forall>m'. evict_message m = Some m' \<longrightarrow> estimate_message_tokens m' \<le> estimate_message_tokens m)"

lemma evictions_save_Cons:
  "evictions_save (m # ms) \<longleftrightarrow>
     (\<forall>m'. evict_message m = Some m' \<longrightarrow> estimate_message_tokens m' \<le> estimate_message_tokens m) \<and> evictions_save ms"
  by (auto simp: evictions_save_def)

lemma saving_evict_at:
  assumes "\<forall>m'. evict_message m = Some m' \<longrightarrow> estimate_message_tokens m' \<le> estimate_message_tokens m"
  shows "0 \<le> saving m (evict_at ttl s m)"
    "s \<le> s' \<Longrightarrow> saving m (evict_at ttl s m) \<le> saving m (evict_at ttl s' m)"
  using assms by (auto simp: saving_def evict_at_def split: option.splits)

lemma recovered_nonneg: "evictions_save ms \<Longrightarrow> 0 \<le> recovered_tokens ms (evict_fwd ttl ms)"
  by (induction ms) (auto simp: evictions_save_Cons intro!: add_nonneg_nonneg saving_evict_at(1))

lemma recovered_append_mono:
  "evictions_save (ms @ later) \<Longrightarrow>
   recovered_tokens ms (evict_fwd ttl ms) \<le> recovered_tokens (ms @ later) (evict_fwd ttl (ms @ later))"
proof (induction ms)
  case Nil
  then show ?case by (simp add: recovered_nonneg)
next
  case (Cons m ms)
  then show ?case
    by (auto simp: evictions_save_Cons intro!: add_mono saving_evict_at(2))
qed

lemma break_append:
  "evict_fwd ttl ms \<noteq> ms \<Longrightarrow>
   break_tokens (ms @ later) (evict_fwd ttl (ms @ later)) = break_tokens ms (evict_fwd ttl ms)
   \<and> evict_fwd ttl (ms @ later) \<noteq> ms @ later"
proof (induction ms)
  case (Cons m ms)
  show ?case
  proof (cases "evict_message m")
    case None
    with Cons show ?thesis by (auto simp: evict_at_def)
  next
    case (Some m')
    show ?thesis
    proof (cases "int (assistants ms) \<le> ttl")
      case True
      with Some Cons.prems show ?thesis by (simp add: evict_fwd_not_stale evict_at_def)
    next
      case False
      with Some evict_message_Some(4) [OF Some] show ?thesis by (simp add: evict_at_def)
    qed
  qed
qed simp

lemma plan_evicted_iff:
  "ep_evicted (plan_image_eviction opts ms) \<longleftrightarrow>
     (let ttl = ttl_turns opts; view = evict_fwd ttl ms; r = recovered_tokens ms view in
      0 < ttl \<and> view \<noteq> ms \<and> 0 < r \<and>
      of_nat (break_tokens ms view) \<le> payback_horizon opts * of_int r)"
proof (cases "0 < ttl_turns opts \<and> evict_fwd (ttl_turns opts) ms \<noteq> ms")
  case False
  then show ?thesis
    by (auto simp: plan_image_eviction_def evict_stale_images_eq Let_def)
next
  case True
  define r where "r = recovered_tokens ms (evict_fwd (ttl_turns opts) ms)"
  define b where "b = break_tokens ms (evict_fwd (ttl_turns opts) ms)"
  have "\<not> (of_nat b / of_int r > h) \<longleftrightarrow> of_nat b \<le> h * of_int r" if "0 < r" for h :: rat
    using that by (simp add: not_less pos_divide_le_eq)
  then show ?thesis
    using True unfolding plan_image_eviction_def evict_stale_images_eq Let_def
    by (auto simp: r_def [symmetric] b_def [symmetric] split: option.splits)
qed

section \<open>Properties\<close>

text \<open>
  Eviction replaces exactly the stale images: with a positive \<open>ttlTurns\<close>, message \<open>i\<close> is
  rewritten if and only if it is a user message or tool result with an image and more than
  \<open>ttlTurns\<close> assistant messages follow it; afterwards it holds no image, and keeps its role, call id
  and flags. Every other message, and the number of messages, is untouched; with \<open>ttlTurns\<close> at most
  zero nothing changes.
\<close>

theorem evicts_exactly_the_stale_images:
  fixes opts ms
  defines "view \<equiv> fst (evict_stale_images opts ms)"
  shows "length view = length ms
    \<and> (\<forall>i. i < length ms \<longrightarrow>
        (if 0 < ttl_turns opts \<and> 0 < count_message_images (ms ! i)
            \<and> ttl_turns opts < int (assistants (drop (Suc i) ms))
         then Some (view ! i) = evict_message (ms ! i) \<and> count_message_images (view ! i) = 0
            \<and> skeleton (view ! i) = skeleton (ms ! i)
         else view ! i = ms ! i))"
proof (intro conjI allI impI)
  show "length view = length ms" unfolding view_def by (rule ttl.same_length)
  fix i assume i: "i < length ms"
  show "if 0 < ttl_turns opts \<and> 0 < count_message_images (ms ! i)
            \<and> ttl_turns opts < int (assistants (drop (Suc i) ms))
         then Some (view ! i) = evict_message (ms ! i) \<and> count_message_images (view ! i) = 0
            \<and> skeleton (view ! i) = skeleton (ms ! i)
         else view ! i = ms ! i"
    using i evict_message_None [of "ms ! i"]
    by (auto simp: view_def evict_stale_images_eq evict_fwd_nth evict_at_def evict_message_Some
        split: option.split)
qed

theorem evicts_exactly_the_stale_images_witness:
  "fst (evict_stale_images \<lparr>ttl_turns = 1, ttl_payback = None\<rparr>
      [user_msg [ImagePart (js ''AA'') (js ''image/png'')], assistant_msg [] Stop, assistant_msg [] Stop]) ! 0
     = user_msg [TextPart (js ''[image evicted: image/png]'') None]"
  using evicts_exactly_the_stale_images [of "\<lparr>ttl_turns = 1, ttl_payback = None\<rparr>"
      "[user_msg [ImagePart (js ''AA'') (js ''image/png'')], assistant_msg [] Stop, assistant_msg [] Stop]"]
  by (auto simp: sample_defs count_images_def evict_parts_def image_eviction_placeholder_def
      dest!: spec [of _ 0])

text \<open>
  The gate prices the eviction: the plan evicts if and only if something is stale, the saving is
  positive, and \<open>breakTokens\<close> is at most the payback horizon times the saving. An approved plan
  hands out the evicted view and counts the images that left it; a deferred plan hands out the
  transcript itself.
\<close>

theorem plan_evicts_iff_it_pays_back:
  fixes opts ms
  defines "plan \<equiv> plan_image_eviction opts ms"
    and "view \<equiv> fst (evict_stale_images opts ms)"
  shows "(ep_evicted plan = (view \<noteq> ms \<and> 0 < recovered_tokens ms view
       \<and> of_nat (break_tokens ms view) \<le> payback_horizon opts * of_int (recovered_tokens ms view)))
    \<and> (if ep_evicted plan
       then ep_messages plan = view
         \<and> ep_evicted_images plan = int (count_resident_images ms) - int (count_resident_images view)
         \<and> ep_break plan = break_tokens ms view \<and> ep_recovered plan = recovered_tokens ms view
       else ep_messages plan = ms \<and> ep_evicted_images plan = 0)"
proof
  show "ep_evicted plan = (view \<noteq> ms \<and> 0 < recovered_tokens ms view
       \<and> of_nat (break_tokens ms view) \<le> payback_horizon opts * of_int (recovered_tokens ms view))"
    by (auto simp: plan_def view_def plan_evicted_iff evict_stale_images_eq Let_def)
  show "if ep_evicted plan
       then ep_messages plan = view
         \<and> ep_evicted_images plan = int (count_resident_images ms) - int (count_resident_images view)
         \<and> ep_break plan = break_tokens ms view \<and> ep_recovered plan = recovered_tokens ms view
       else ep_messages plan = ms \<and> ep_evicted_images plan = 0"
    by (auto simp: plan_def view_def plan_image_eviction_def evict_stale_images_eq Let_def split: option.splits)
qed

text \<open>
  An approved eviction sticks: when the transcript only grows and no placeholder outgrows the
  image it replaces, a plan that evicts on \<open>ms\<close> still evicts on \<open>ms\<close> followed by any later
  messages, with the same \<open>breakTokens\<close> and at least the same saving, so the evicted prefix sent to
  the provider does not flip back.
\<close>

theorem eviction_sticks:
  assumes "ep_evicted (plan_image_eviction opts ms)" "evictions_save (ms @ later)"
    and "0 \<le> payback_horizon opts"
  shows "ep_evicted (plan_image_eviction opts (ms @ later))
    \<and> ep_break (plan_image_eviction opts (ms @ later)) = ep_break (plan_image_eviction opts ms)
    \<and> ep_recovered (plan_image_eviction opts ms) \<le> ep_recovered (plan_image_eviction opts (ms @ later))"
proof -
  let ?t = "ttl_turns opts"
  let ?h = "payback_horizon opts"
  let ?r = "recovered_tokens ms (evict_fwd ?t ms)"
  let ?r' = "recovered_tokens (ms @ later) (evict_fwd ?t (ms @ later))"
  from assms(1) have t: "0 < ?t" "evict_fwd ?t ms \<noteq> ms" "0 < ?r"
    and b: "of_nat (break_tokens ms (evict_fwd ?t ms)) \<le> ?h * of_int ?r"
    by (simp_all add: plan_evicted_iff Let_def)
  from recovered_append_mono [OF assms(2)] have r: "?r \<le> ?r'" .
  note same = break_append [OF t(2), of later]
  from r assms(3) have "?h * of_int ?r \<le> ?h * of_int ?r'" by (simp add: mult_left_mono)
  with t b r same have e: "ep_evicted (plan_image_eviction opts (ms @ later))"
    by (simp add: plan_evicted_iff Let_def)
  have "ep_break (plan_image_eviction opts ns) = break_tokens ns (evict_fwd ?t ns)
      \<and> ep_recovered (plan_image_eviction opts ns) = recovered_tokens ns (evict_fwd ?t ns)"
    if "ep_evicted (plan_image_eviction opts ns)" for ns
    using that
    by (auto simp: plan_image_eviction_def evict_stale_images_eq Let_def split: option.splits if_splits)
  from this [OF assms(1)] this [OF e] e r same show ?thesis by simp
qed

theorem eviction_sticks_witness:
  "ep_evicted (plan_image_eviction \<lparr>ttl_turns = 1, ttl_payback = None\<rparr>
     ([user_msg [ImagePart (js ''AA'') (js ''image/png'')], assistant_msg [] Stop, assistant_msg [] Stop]
       @ [user_msg [TextPart (js ''go on'') None]]))"
proof -
  let ?o = "\<lparr>ttl_turns = 1, ttl_payback = None\<rparr>"
  let ?ms = "[user_msg [ImagePart (js ''AA'') (js ''image/png'')], assistant_msg [] Stop, assistant_msg [] Stop]"
  have e: "ep_evicted (plan_image_eviction ?o ?ms)" by code_simp
  have s: "evictions_save (?ms @ [user_msg [TextPart (js ''go on'') None]])"
    by (simp add: evictions_save_def sample_defs count_images_def evict_parts_def
        image_eviction_placeholder_def estimate_message_tokens_def ceil_quarter_def image_token_cost_def)
  show ?thesis using eviction_sticks [OF e s] by (simp add: payback_horizon_def image_ttl_payback_turns_def)
qed

text \<open>
  The flat image cost is charged twice on tool results: the estimate of a tool result already
  counts 1200 tokens (4800 characters) per image, and \<open>estimateMessageTokens\<close> adds another 1200, so a
  result made of \<open>k\<close> images is priced at \<open>2400 * k\<close> tokens while a user message with the same images
  is priced at \<open>1200 * k\<close>. The comment on \<open>IMAGE_TOKEN_COST\<close> says the text estimator ignores images.
\<close>

theorem tool_result_images_counted_twice:
  assumes "list_all is_image ps"
  shows "estimate_message_tokens (tool_msg i n ps e) = 2400 * length ps
    \<and> estimate_message_tokens (user_msg ps) = 1200 * length ps"
proof -
  have "count_images ps = length ps"
    using assms by (induction ps) (simp_all add: count_images_def)
  moreover have "sum_list (map part_chars ps) = 4800 * length ps"
    using assms by (induction ps) (auto elim: is_image.elims)
  moreover have "sum_list (map text_chars ps) = 0"
    using assms by (induction ps) (auto elim: is_image.elims)
  ultimately show ?thesis
    by (simp add: sample_defs estimate_message_tokens_def ceil_quarter_def image_token_cost_def)
qed

theorem tool_result_images_counted_twice_witness:
  "estimate_message_tokens (tool_msg [] [] [ImagePart [65] []] False) = 2400
   \<and> estimate_message_tokens (user_msg [ImagePart [65] []]) = 1200"
  using tool_result_images_counted_twice [of "[ImagePart [65] []]" "[]" "[]" False] by simp

text \<open>
  The price of the break is what stands before the first stale image: \<open>breakTokens\<close> is the
  estimate of the prefix \<open>pre\<close>, which a prefix cache keeps, and does not depend on \<open>post\<close>, which the
  edit forces to be written again. In particular an image in the first message is always evicted,
  however long the transcript behind it.
\<close>

theorem break_price_ignores_what_follows:
  assumes "\<forall>n\<in>set pre. count_message_images n = 0" "0 < count_message_images m"
    and "0 < ttl_turns opts" "ttl_turns opts < int (assistants post)"
  shows "ep_break (plan_image_eviction opts (pre @ m # post)) = sum_list (map estimate_message_tokens pre)"
proof -
  obtain m' where m': "evict_message m = Some m'"
    using assms(2) evict_message_None [of m] by (cases "evict_message m") auto
  have "break_tokens (pre @ m # post) (evict_fwd (ttl_turns opts) (pre @ m # post)) = sum_list (map estimate_message_tokens pre)
      \<and> evict_fwd (ttl_turns opts) (pre @ m # post) \<noteq> pre @ m # post"
    using assms(1)
  proof (induction pre)
    case Nil
    from m' assms(4) evict_message_Some(4) [OF m'] show ?case by (simp add: evict_at_def)
  next
    case (Cons n pre)
    then have "evict_message n = None" by (simp add: evict_message_None)
    with Cons show ?case by (simp add: evict_at_def)
  qed
  with assms(3) show ?thesis
    by (auto simp: plan_image_eviction_def evict_stale_images_eq Let_def split: option.splits)
qed

theorem break_price_ignores_what_follows_witness:
  "ep_break (plan_image_eviction \<lparr>ttl_turns = 1, ttl_payback = None\<rparr>
     ([] @ user_msg [ImagePart (js ''AA'') (js ''image/png'')]
        # [assistant_msg [] Stop, assistant_msg [TextBlock (replicate 40000 65) None] Stop])) = 0"
  using break_price_ignores_what_follows [of "[]" "user_msg [ImagePart (js ''AA'') (js ''image/png'')]"
      "\<lparr>ttl_turns = 1, ttl_payback = None\<rparr>"
      "[assistant_msg [] Stop, assistant_msg [TextBlock (replicate 40000 65) None] Stop]"]
  by (simp add: sample_defs count_images_def)

end
