(* ===== verification/Jev.thy ===== *)
theory Jev
  imports Messages
begin

text \<open>
  The Jev control-flow classifier's contract (packages/agent/src/jev.ts): the error categories, the
  deterministic gate on a raw decision, and the two adapters that turn a classifier into a stop
  predicate and into a pre-turn router. A classifier is an argument: a function from the loop state
  to an attempt, since the adapters catch what it throws. Confidences are JavaScript numbers over
  the reals, so that NaN and the infinities the gate tests for are values.
\<close>

datatype jev_action = ExecuteTool | Delegate | StopRun | Uncertain

record jev_decision =
  jd_action :: jev_action
  jd_tool :: "jstring option"
  jd_confidence :: "real jsnum"
  jd_entropy :: "real jsnum option"
  jd_top :: "real jsnum option"

datatype jev_error_category = Transient | Deterministic | NoneCategory

record jev_state =
  js_goal :: "jstring option"
  js_turn :: nat
  js_last_tool :: "jstring option"
  js_last_error :: "jstring option"
  js_last_result :: "jstring option"
  js_last_text :: "jstring option"
  js_category :: "jev_error_category option"
  js_failures :: nat

type_synonym jev_classifier = "jev_state \<Rightarrow> jev_decision option attempt"

section \<open>Error categories\<close>

text \<open>
  The two patterns are alternations of literals, searched ignoring case (\<open>/iu\<close>). Case folding in
  Unicode mode also identifies the long s (U+017F) with s and the Kelvin sign (U+212A) with k, and
  counts both as word characters. \<open>occurs_word\<close> is a literal between word boundaries.
\<close>

definition fold_unit :: "code_unit \<Rightarrow> code_unit" where
  "fold_unit u =
     (if 65 \<le> u \<and> u \<le> 90 then u + 32 else if u = 0x17F then 115 else if u = 0x212A then 107 else u)"

definition word_unit :: "code_unit \<Rightarrow> bool" where
  "word_unit u \<longleftrightarrow> 48 \<le> u \<and> u \<le> 57 \<or> 97 \<le> fold_unit u \<and> fold_unit u \<le> 122 \<or> u = 95"

fun occurs :: "jstring \<Rightarrow> jstring \<Rightarrow> bool" where
  "occurs p [] = (p = [])"
| "occurs p (u # us) = (take (length p) (u # us) = p \<or> occurs p us)"

fun occurs_word :: "jstring \<Rightarrow> bool \<Rightarrow> jstring \<Rightarrow> bool" where
  "occurs_word p before [] = False"
| "occurs_word p before (u # us) =
     (\<not> before \<and> take (length p) (u # us) = p
        \<and> (case drop (length p) (u # us) of [] \<Rightarrow> True | v # rest \<Rightarrow> \<not> word_unit v)
      \<or> occurs_word p (word_unit u) us)"

definition transient_literals :: "jstring list" where
  "transient_literals = map js
     [''etimedout'', ''econnreset'', ''econnrefused'', ''eai_again'', ''enetunreach'', ''epipe'',
      ''socket hang up'', ''rate limit'', ''too many requests'', ''timed out'', ''timeout'',
      ''temporarily unavailable'', ''resource busy'', ''try again'', ''lock wait'']"

definition transient_words :: "jstring list" where
  "transient_words = map js [''429'', ''500'', ''502'', ''503'', ''504'']"

definition deterministic_literals :: "jstring list" where
  "deterministic_literals = map js
     [''syntaxerror'', ''nameerror'', ''typeerror'', ''referenceerror'', ''valueerror'',
      ''indentationerror'', ''importerror'', ''modulenotfounderror'', ''command not found'',
      ''no such file'', ''enoent'', ''permission denied'', ''already exists'']"

definition deterministic_words :: "jstring list" where
  "deterministic_words = map js [''404'']"

definition matches_any :: "jstring list \<Rightarrow> jstring list \<Rightarrow> jstring \<Rightarrow> bool" where
  "matches_any lits ws s =
     (let t = map fold_unit s in
      list_ex (\<lambda>p. occurs p t) lits \<or> list_ex (\<lambda>p. occurs_word p False t) ws)"

definition classify_jev_error :: "jstring option \<Rightarrow> jev_error_category" where
  "classify_jev_error e =
     (case e of
        None \<Rightarrow> NoneCategory
      | Some s \<Rightarrow>
          if s = [] then NoneCategory
          else if matches_any transient_literals transient_words s then Transient
          else if matches_any deterministic_literals deterministic_words s then Deterministic
          else NoneCategory)"

section \<open>The gate\<close>

definition default_jev_min_confidence :: real where
  "default_jev_min_confidence = 85 / 100"

record jev_gate_options =
  go_min_confidence :: real
  go_allowed :: "jstring list"
  go_min_probability :: "real option"
  go_max_entropy :: "real option"

definition meets_entropy_bar :: "jev_decision \<Rightarrow> jev_gate_options \<Rightarrow> bool" where
  "meets_entropy_bar d opts =
     (case (go_min_probability opts, go_max_entropy opts) of
        (Some min_p, Some max_e) \<Rightarrow>
          (case jd_entropy d of
             Some (Fin e) \<Rightarrow>
               (case (case jd_top d of Some t \<Rightarrow> t | None \<Rightarrow> jd_confidence d) of
                  Fin t \<Rightarrow> min_p \<le> t \<and> e \<le> max_e
                | _ \<Rightarrow> False)
           | _ \<Rightarrow> False)
      | _ \<Rightarrow> False)"

definition evaluate_jev_decision :: "jev_decision option \<Rightarrow> jev_gate_options \<Rightarrow> jev_decision option" where
  "evaluate_jev_decision decision opts =
     (case decision of
        None \<Rightarrow> None
      | Some d \<Rightarrow>
          if jd_action d = Uncertain then None
          else
            (case jd_confidence d of
               Fin c \<Rightarrow>
                 if c < go_min_confidence opts \<and> \<not> meets_entropy_bar d opts then None
                 else if jd_action d = ExecuteTool then
                   (case jd_tool d of
                      Some t \<Rightarrow> if t = [] \<or> t \<notin> set (go_allowed opts) then None else Some d
                    | None \<Rightarrow> None)
                 else Some d
             | _ \<Rightarrow> None))"

text \<open>\<open>createJevStopGate\<close>: the returned predicate, applied to the loop state.\<close>

definition jev_stop_gate :: "jev_classifier \<Rightarrow> jev_gate_options \<Rightarrow> jev_state \<Rightarrow> bool" where
  "jev_stop_gate decider opts st =
     (case decider st of
        Threw \<Rightarrow> False
      | Got d \<Rightarrow> (case evaluate_jev_decision d opts of Some e \<Rightarrow> jd_action e = StopRun | None \<Rightarrow> False))"

text \<open>A reflex: the tool to run and its arguments (\<open>PreTurnReflex\<close> of types.ts).\<close>

record pre_turn_reflex =
  rx_tool :: jstring
  rx_args :: "json option"

definition bare_state :: "nat \<Rightarrow> jev_state" where
  "bare_state i = \<lparr>js_goal = None, js_turn = i, js_last_tool = None, js_last_error = None,
     js_last_result = None, js_last_text = None, js_category = None, js_failures = 0\<rparr>"

definition zero_arg_reflex_router ::
  "jev_classifier \<Rightarrow> jev_gate_options \<Rightarrow> nat \<Rightarrow> pre_turn_reflex option" where
  "zero_arg_reflex_router classifier opts turn =
     (case classifier (bare_state turn) of
        Threw \<Rightarrow> None
      | Got raw \<Rightarrow>
          (case evaluate_jev_decision raw opts of
             None \<Rightarrow> None
           | Some d \<Rightarrow>
               if jd_action d \<noteq> ExecuteTool then None
               else (case jd_tool d of
                       Some t \<Rightarrow> if t = [] then None else Some \<lparr>rx_tool = t, rx_args = Some (JObj [])\<rparr>
                     | None \<Rightarrow> None)))"

section \<open>What the gate lets through\<close>

definition decisive :: "jev_decision \<Rightarrow> jev_gate_options \<Rightarrow> bool" where
  "decisive d opts \<longleftrightarrow> (\<exists>c. jd_confidence d = Fin c \<and> (go_min_confidence opts \<le> c \<or> meets_entropy_bar d opts))"

lemma evaluate_iff:
  "evaluate_jev_decision dec opts = Some e \<longleftrightarrow>
     dec = Some e \<and> jd_action e \<noteq> Uncertain \<and> decisive e opts
     \<and> (jd_action e = ExecuteTool \<longrightarrow> (\<exists>t. jd_tool e = Some t \<and> t \<noteq> [] \<and> t \<in> set (go_allowed opts)))"
  by (auto simp: evaluate_jev_decision_def decisive_def split: option.splits jsnum.splits if_splits)

lemma entropy_bar_strict: "go_max_entropy opts = None \<Longrightarrow> \<not> meets_entropy_bar d opts"
  by (simp add: meets_entropy_bar_def split: option.splits)

lemma meets_entropy_barD:
  "meets_entropy_bar d opts \<Longrightarrow> \<exists>p e t x. go_min_probability opts = Some p \<and> go_max_entropy opts = Some e
     \<and> jd_entropy d = Some (Fin x) \<and> x \<le> e \<and> p \<le> t
     \<and> (case jd_top d of Some q \<Rightarrow> q = Fin t | None \<Rightarrow> jd_confidence d = Fin t)"
  by (auto simp: meets_entropy_bar_def split: option.splits jsnum.splits)

section \<open>Properties\<close>

text \<open>
  The gate accepts a decision unchanged or rejects it, and accepts exactly the decisive ones:
  not UNCERTAIN, of finite confidence at or above the floor or else concentrated (finite entropy
  under the ceiling and top probability over its floor), and naming an allow-listed tool when they
  execute one.
\<close>

theorem gate_accepts_exactly_decisive_decisions:
  "evaluate_jev_decision dec opts =
     (case dec of
        None \<Rightarrow> None
      | Some d \<Rightarrow>
          if jd_action d \<noteq> Uncertain \<and> decisive d opts
             \<and> (if jd_action d = ExecuteTool then \<exists>t. jd_tool d = Some t \<and> t \<noteq> [] \<and> t \<in> set (go_allowed opts) else True)
          then Some d else None)"
proof (cases dec)
  case None
  then show ?thesis by (simp add: evaluate_jev_decision_def)
next
  case (Some d)
  show ?thesis
  proof (cases "evaluate_jev_decision dec opts")
    case None
    then have "\<not> (jd_action d \<noteq> Uncertain \<and> decisive d opts
       \<and> (jd_action d = ExecuteTool \<longrightarrow> (\<exists>t. jd_tool d = Some t \<and> t \<noteq> [] \<and> t \<in> set (go_allowed opts))))"
      using evaluate_iff [of dec opts d] Some by auto
    with None Some show ?thesis by auto
  next
    case (Some e)
    with evaluate_iff [of dec opts e] \<open>dec = Some d\<close> show ?thesis by auto
  qed
qed

text \<open>
  A stop gate without the entropy path ends a run only on a decision to stop whose confidence
  reaches the floor; a classifier that throws, has no opinion, answers anything else or reports a
  number that is not finite lets the run continue.
\<close>

theorem stop_gate_needs_a_confident_stop:
  assumes "go_max_entropy opts = None"
  shows "jev_stop_gate decider opts st \<longleftrightarrow>
    (\<exists>d c. decider st = Got (Some d) \<and> jd_action d = StopRun \<and> jd_confidence d = Fin c
        \<and> go_min_confidence opts \<le> c)"
proof (cases "decider st")
  case Threw
  then show ?thesis by (simp add: jev_stop_gate_def)
next
  case (Got dec)
  have acc: "evaluate_jev_decision dec opts = Some e \<and> jd_action e = StopRun \<longleftrightarrow>
      dec = Some e \<and> jd_action e = StopRun \<and> (\<exists>c. jd_confidence e = Fin c \<and> go_min_confidence opts \<le> c)" for e
    using evaluate_iff [of dec opts e] by (auto simp: decisive_def entropy_bar_strict [OF assms])
  have "jev_stop_gate decider opts st \<longleftrightarrow> (\<exists>e. evaluate_jev_decision dec opts = Some e \<and> jd_action e = StopRun)"
    using Got by (simp add: jev_stop_gate_def split: option.split)
  with Got show ?thesis by (simp add: acc)
qed

theorem stop_gate_needs_a_confident_stop_witness:
  "\<not> jev_stop_gate (\<lambda>st. Threw)
     \<lparr>go_min_confidence = 1 / 2, go_allowed = [], go_min_probability = None, go_max_entropy = None\<rparr> (bare_state 0)"
  using stop_gate_needs_a_confident_stop [of
      "\<lparr>go_min_confidence = 1 / 2, go_allowed = [], go_min_probability = None, go_max_entropy = None\<rparr>"
      "\<lambda>st. Threw" "bare_state 0"]
  by simp

end
