(* ===== verification/Janitor.thy ===== *)
theory Janitor
  imports Tokens Jev
begin

text \<open>
  The phase-transition context janitor (coding-agent/src/core/context-janitor.ts) and the session's
  use of it (\<open>_applyContextJanitor\<close> in agent-session.ts). \<open>replacements\<close> is the list of the
  entries of the source's Map, in insertion order; a previous prune turn of \<open>-Infinity\<close> is \<open>None\<close>.
\<close>

record janitor_options =
  jo_min_tokens :: int
  jo_min_turns :: int
  jo_turn :: int
  jo_last_prune :: "int option"
  jo_min_failures :: "int option"
  jo_active_window :: "int option"
  jo_dump_bytes :: "int option"

record janitor_plan =
  jp_messages :: transcript
  jp_changed :: bool
  jp_trajectories :: nat
  jp_dumps :: nat
  jp_compressed :: nat
  jp_before :: int
  jp_after :: int

definition default_min_failures :: int where "default_min_failures = 2"
definition default_active_window :: int where "default_active_window = 6"
definition default_dump_bytes :: int where "default_dump_bytes = 8192"

section \<open>Reading messages\<close>

fun unique_in_order :: "jstring list \<Rightarrow> jstring list \<Rightarrow> jstring list" where
  "unique_in_order seen [] = []"
| "unique_in_order seen (v # vs) =
     (if v \<in> set seen then unique_in_order seen vs else v # unique_in_order (v # seen) vs)"

definition join_text :: "part list \<Rightarrow> jstring" where
  "join_text ps = join_with [newline] (List.map_filter text_of_part ps)"

fun text_of_content :: "content \<Rightarrow> jstring" where
  "text_of_content (Plain s) = s"
| "text_of_content (Parts ps) = join_text ps"

fun text_of :: "message \<Rightarrow> jstring" where
  "text_of (User m) = text_of_content (um_content m)"
| "text_of (Custom m) = text_of_content (cm_content m)"
| "text_of (ToolResult m) = join_text (tr_content m)"
| "text_of (Assistant m) =
     join_with [newline] (List.map_filter (\<lambda>b. case b of TextBlock t _ \<Rightarrow> Some t | _ \<Rightarrow> None) (am_content m))"
| "text_of _ = []"

fun is_failed_tool_result :: "message \<Rightarrow> bool" where
  "is_failed_tool_result (ToolResult m) = tr_error m"
| "is_failed_tool_result _ = False"

fun is_successful_tool_result :: "message \<Rightarrow> bool" where
  "is_successful_tool_result (ToolResult m) = (\<not> tr_error m)"
| "is_successful_tool_result _ = False"

fun is_assistant_tool_call :: "message \<Rightarrow> bool" where
  "is_assistant_tool_call (Assistant m) = (tool_calls (am_content m) \<noteq> [])"
| "is_assistant_tool_call _ = False"

fun result_tool :: "message \<Rightarrow> jstring" where
  "result_tool (ToolResult m) = tr_tool m"
| "result_tool _ = js ''tool''"

text \<open>The loop of \<open>protectedStartIndex\<close>; the first argument is the messages left, last one first.\<close>

fun protected_rev :: "message list \<Rightarrow> int \<Rightarrow> int \<Rightarrow> nat" where
  "protected_rev [] seen w = 0"
| "protected_rev (m # ms) seen w =
     (if is_assistant m then (if seen + 1 \<ge> w then length ms else protected_rev ms (seen + 1) w)
      else protected_rev ms seen w)"

definition protected_start_index :: "transcript \<Rightarrow> int \<Rightarrow> nat" where
  "protected_start_index ms w = (if w \<le> 0 then length ms else protected_rev (rev ms) 0 w)"

section \<open>Tombstones\<close>

definition category_name :: "jev_error_category \<Rightarrow> jstring" where
  "category_name c =
     (case c of Transient \<Rightarrow> js ''TRANSIENT'' | Deterministic \<Rightarrow> js ''DETERMINISTIC'' | NoneCategory \<Rightarrow> js ''NONE'')"

record failed_attempt =
  fa_index :: nat
  fa_tool :: jstring
  fa_category :: jstring

definition trajectory_tombstone :: "failed_attempt list \<Rightarrow> jstring \<Rightarrow> jstring" where
  "trajectory_tombstone fs success_tool =
     (let tools = unique_in_order [] (map fa_tool fs);
          categories = unique_in_order [] (filter (\<lambda>c. c \<noteq> js ''NONE'') (map fa_category fs));
          category_text = (if categories \<noteq> [] then js '' ('' @ join_with (js '', '') categories @ js '')'' else []);
          plural = (if length fs = 1 then js ''attempt'' else js ''attempts'')
      in js ''[Historical execution compressed: '' @ dec_nat (length fs) @ js '' failed ''
         @ join_with (js ''/'') tools @ js '' '' @ plural @ category_text
         @ js '' superseded by a successful '' @ success_tool @ js '' call; prior outputs omitted.]'')"

definition attempt_tombstone :: "jstring \<Rightarrow> jstring" where
  "attempt_tombstone tool = js ''[compressed: failed '' @ tool @ js '' attempt]''"

fun replace_tool_result_content :: "jstring \<Rightarrow> message \<Rightarrow> message" where
  "replace_tool_result_content t (ToolResult m) = ToolResult (m\<lparr>tr_content := [TextPart t None]\<rparr>)"
| "replace_tool_result_content t m = m"

definition message_text_bytes :: "message \<Rightarrow> nat" where
  "message_text_bytes m = utf8_bytes (text_of m)"

definition call_signature :: "jstring \<Rightarrow> json \<Rightarrow> jstring" where
  "call_signature name args =
     name @ js '':'' @ json_stringify (case args of JNull \<Rightarrow> JObj [] | v \<Rightarrow> v)"

fun message_signatures :: "message \<Rightarrow> (jstring \<rightharpoonup> jstring) \<Rightarrow> (jstring \<rightharpoonup> jstring)" where
  "message_signatures (Assistant m) sg =
     fold (\<lambda>c sg. sg(call_id c \<mapsto> call_signature (call_name c) (call_args c))) (tool_calls (am_content m)) sg"
| "message_signatures _ sg = sg"

definition call_signatures_by_id :: "transcript \<Rightarrow> (jstring \<rightharpoonup> jstring)" where
  "call_signatures_by_id ms = fold message_signatures ms (\<lambda>_. None)"

definition success_dump_tombstone :: "jstring \<Rightarrow> nat \<Rightarrow> jstring" where
  "success_dump_tombstone tool bytes =
     js ''[Historical execution compressed: superseded successful '' @ tool @ js '' output ('' @ dec_nat bytes
     @ js '' bytes); a later identical call succeeded, prior output omitted.]''"

section \<open>Failed trajectories\<close>

type_synonym replacements = "(nat \<times> jstring) list"

record run_state =
  rs_started :: bool
  rs_failures :: "failed_attempt list"
  rs_count :: nat
  rs_repl :: replacements

definition run_replacements :: "failed_attempt list \<Rightarrow> jstring \<Rightarrow> replacements \<Rightarrow> replacements" where
  "run_replacements fs success_tool r =
     (case fs of
        [] \<Rightarrow> r
      | f # rest \<Rightarrow>
          fold (\<lambda>g. put_field (fa_index g) (attempt_tombstone (fa_tool g))) rest
            (put_field (fa_index f) (trajectory_tombstone fs success_tool) r))"

definition close_run :: "transcript \<Rightarrow> int \<Rightarrow> nat \<Rightarrow> run_state \<Rightarrow> run_state" where
  "close_run ms min_failures run_end s =
     (let reset = s\<lparr>rs_started := False, rs_failures := []\<rparr> in
      if rs_started s \<and> int (length (rs_failures s)) \<ge> min_failures then
        (case List.find is_successful_tool_result (drop run_end ms) of
           Some m \<Rightarrow> reset\<lparr>rs_count := rs_count s + 1,
                          rs_repl := run_replacements (rs_failures s) (result_tool m) (rs_repl s)\<rparr>
         | None \<Rightarrow> reset)
      else reset)"

definition open_run :: "nat \<Rightarrow> message \<Rightarrow> run_state \<Rightarrow> run_state" where
  "open_run i m s =
     s\<lparr>rs_started := True,
       rs_failures := rs_failures s @
         (if is_failed_tool_result m
          then [\<lparr>fa_index = i, fa_tool = result_tool m,
                 fa_category = category_name (classify_jev_error (Some (text_of m)))\<rparr>]
          else [])\<rparr>"

fun run_loop :: "transcript \<Rightarrow> int \<Rightarrow> nat \<Rightarrow> transcript \<Rightarrow> run_state \<Rightarrow> run_state" where
  "run_loop all mf i [] s = close_run all mf i s"
| "run_loop all mf i (m # ms) s =
     (if is_assistant_tool_call m \<or> is_failed_tool_result m
      then run_loop all mf (Suc i) ms (open_run i m s)
      else run_loop all mf (Suc i) ms (close_run all mf i s))"

section \<open>Superseded dumps\<close>

fun result_id :: "message \<Rightarrow> jstring" where
  "result_id (ToolResult m) = tr_call_id m"
| "result_id _ = []"

definition superseded :: "transcript \<Rightarrow> (jstring \<rightharpoonup> jstring) \<Rightarrow> nat \<Rightarrow> jstring \<Rightarrow> bool" where
  "superseded ms sg i signature =
     list_ex (\<lambda>m. is_successful_tool_result m \<and> sg (result_id m) = Some signature) (drop (Suc i) ms)"

definition dump_step ::
  "transcript \<Rightarrow> (jstring \<rightharpoonup> jstring) \<Rightarrow> int \<Rightarrow> nat \<Rightarrow> message \<Rightarrow> replacements \<times> nat \<Rightarrow> replacements \<times> nat" where
  "dump_step all sg min_bytes i m acc =
     (let (r, n) = acc in
      if \<not> is_successful_tool_result m \<or> map_of r i \<noteq> None then (r, n)
      else if int (message_text_bytes m) < min_bytes then (r, n)
      else case sg (result_id m) of
        None \<Rightarrow> (r, n)
      | Some signature \<Rightarrow>
          if signature = [] \<or> \<not> superseded all sg i signature then (r, n)
          else (put_field i (success_dump_tombstone (result_tool m) (message_text_bytes m)) r, n + 1))"

fun dump_loop ::
  "transcript \<Rightarrow> (jstring \<rightharpoonup> jstring) \<Rightarrow> int \<Rightarrow> nat \<Rightarrow> transcript \<Rightarrow> replacements \<times> nat \<Rightarrow> replacements \<times> nat" where
  "dump_loop all sg mb i [] acc = acc"
| "dump_loop all sg mb i (m # ms) acc = dump_loop all sg mb (Suc i) ms (dump_step all sg mb i m acc)"

section \<open>The plan\<close>

definition opt_default :: "'a option \<Rightarrow> 'a \<Rightarrow> 'a" where
  "opt_default v d = (case v of Some x \<Rightarrow> x | None \<Rightarrow> d)"

definition empty_plan :: "transcript \<Rightarrow> int \<Rightarrow> janitor_plan" where
  "empty_plan ms before =
     \<lparr>jp_messages = ms, jp_changed = False, jp_trajectories = 0, jp_dumps = 0, jp_compressed = 0,
      jp_before = before, jp_after = 0\<rparr>"

definition apply_replacement :: "nat \<times> jstring \<Rightarrow> transcript \<Rightarrow> transcript" where
  "apply_replacement r ms = ms[fst r := replace_tool_result_content (snd r) (ms ! fst r)]"

definition apply_replacements :: "replacements \<Rightarrow> transcript \<Rightarrow> transcript" where
  "apply_replacements rs ms = fold apply_replacement rs ms"

definition janitor_boundary :: "transcript \<Rightarrow> janitor_options \<Rightarrow> nat" where
  "janitor_boundary ms opts = protected_start_index ms (opt_default (jo_active_window opts) default_active_window)"

definition failed_runs :: "transcript \<Rightarrow> janitor_options \<Rightarrow> run_state" where
  "failed_runs ms opts =
     run_loop ms (opt_default (jo_min_failures opts) default_min_failures) 0
       (take (janitor_boundary ms opts) ms)
       \<lparr>rs_started = False, rs_failures = [], rs_count = 0, rs_repl = []\<rparr>"

definition all_replacements :: "transcript \<Rightarrow> janitor_options \<Rightarrow> replacements \<times> nat" where
  "all_replacements ms opts =
     (let mb = opt_default (jo_dump_bytes opts) default_dump_bytes in
      if mb > 0
      then dump_loop ms (call_signatures_by_id ms) mb 0 (take (janitor_boundary ms opts) ms)
             (rs_repl (failed_runs ms opts), 0)
      else (rs_repl (failed_runs ms opts), 0))"

definition turn_gap_open :: "janitor_options \<Rightarrow> bool" where
  "turn_gap_open opts \<longleftrightarrow>
     (case jo_last_prune opts of None \<Rightarrow> True | Some t \<Rightarrow> \<not> jo_turn opts - t < jo_min_turns opts)"

definition plan_context_janitor :: "transcript \<Rightarrow> janitor_options \<Rightarrow> janitor_plan" where
  "plan_context_janitor ms opts =
     (if \<not> turn_gap_open opts then empty_plan ms 0
      else
        let before = ce_tokens (estimate_context_tokens ms) in
        if before < jo_min_tokens opts then empty_plan ms 0
        else
          let (r, dumps) = all_replacements ms opts in
          if r = [] then empty_plan ms before
          else
            let out = apply_replacements r ms in
            \<lparr>jp_messages = out, jp_changed = True, jp_trajectories = rs_count (failed_runs ms opts),
             jp_dumps = dumps, jp_compressed = length r, jp_before = before,
             jp_after = ce_tokens (estimate_context_tokens out)\<rparr>)"

section \<open>The session's use of it\<close>

record janitor_config =
  jc_min_tokens :: int
  jc_min_turns :: int
  jc_dump_bytes :: int

text \<open>The turn clock and the persisted watermark of the session.\<close>

record janitor_clock =
  jk_turn :: int
  jk_last_prune :: "int option"

definition session_options :: "janitor_config \<Rightarrow> janitor_clock \<Rightarrow> janitor_options" where
  "session_options cfg k =
     \<lparr>jo_min_tokens = jc_min_tokens cfg, jo_min_turns = jc_min_turns cfg, jo_turn = jk_turn k,
      jo_last_prune = jk_last_prune k, jo_min_failures = None, jo_active_window = None,
      jo_dump_bytes = Some (jc_dump_bytes cfg)\<rparr>"

definition apply_context_janitor :: "janitor_config \<Rightarrow> janitor_clock \<Rightarrow> transcript \<Rightarrow> janitor_clock \<times> transcript" where
  "apply_context_janitor cfg k ms =
     (let k' = k\<lparr>jk_turn := jk_turn k + 1\<rparr>;
          plan = plan_context_janitor ms (session_options cfg k')
      in if \<not> jp_changed plan then (k', ms)
         else (k'\<lparr>jk_last_prune := Some (jk_turn k')\<rparr>, jp_messages plan))"

section \<open>Applying replacements\<close>

lemma replace_skeleton [simp]: "skeleton (replace_tool_result_content t m) = skeleton m"
  by (cases m) simp_all

lemma replace_other [simp]: "\<not> is_tool_result m \<Longrightarrow> replace_tool_result_content t m = m"
  by (cases m) simp_all

lemma replace_keeps_kind [simp]: "is_tool_result (replace_tool_result_content t m) = is_tool_result m"
  by (cases m) simp_all

lemma apply_replacement_length [simp]: "length (apply_replacement r ms) = length ms"
  by (simp add: apply_replacement_def)

lemma apply_replacements_length [simp]: "length (apply_replacements rs ms) = length ms"
  by (induction rs arbitrary: ms) (simp_all add: apply_replacements_def)

lemma apply_replacement_skeleton [simp]: "map skeleton (apply_replacement r ms) = map skeleton ms"
  by (cases "fst r < length ms")
    (simp_all add: apply_replacement_def map_update list_update_beyond, metis list_update_id nth_map)

lemma apply_replacements_skeleton: "map skeleton (apply_replacements rs ms) = map skeleton ms"
  by (induction rs arbitrary: ms) (simp_all add: apply_replacements_def)

lemma apply_replacements_other:
  "i \<notin> fst ` set rs \<Longrightarrow> apply_replacements rs ms ! i = ms ! i"
  by (induction rs arbitrary: ms) (auto simp: apply_replacements_def apply_replacement_def)

lemma apply_replacement_non_results:
  "filter (\<lambda>m. \<not> is_tool_result m) (apply_replacement r ms) = filter (\<lambda>m. \<not> is_tool_result m) ms"
proof (cases "fst r < length ms")
  case True
  from id_take_nth_drop [OF True]
  have ms: "ms = take (fst r) ms @ ms ! fst r # drop (Suc (fst r)) ms" .
  have "apply_replacement r ms =
      take (fst r) ms @ replace_tool_result_content (snd r) (ms ! fst r) # drop (Suc (fst r)) ms"
    unfolding apply_replacement_def by (rule upd_conv_take_nth_drop [OF True])
  then show ?thesis
    by (subst (2) ms) (cases "is_tool_result (ms ! fst r)"; simp)
qed (simp add: apply_replacement_def list_update_beyond)

lemma apply_replacements_non_results:
  "filter (\<lambda>m. \<not> is_tool_result m) (apply_replacements rs ms) = filter (\<lambda>m. \<not> is_tool_result m) ms"
  by (induction rs arbitrary: ms) (simp_all add: apply_replacements_def apply_replacement_non_results)

lemma apply_replacements_drop:
  assumes "\<And>i. i \<in> fst ` set rs \<Longrightarrow> i < b"
  shows "drop b (apply_replacements rs ms) = drop b ms"
  using assms by (intro nth_equalityI) (auto intro!: apply_replacements_other)

section \<open>What may be replaced\<close>

definition replaced :: "replacements \<Rightarrow> nat set" where
  "replaced r = fst ` set r"

lemma replaced_simps [simp]:
  "replaced [] = {}"
  "replaced (put_field k v r) = insert k (replaced r)"
  by (simp_all add: replaced_def)

definition success_after :: "transcript \<Rightarrow> nat \<Rightarrow> bool" where
  "success_after ms i \<longleftrightarrow> (\<exists>j>i. j < length ms \<and> is_successful_tool_result (ms ! j))"

definition replaceable :: "transcript \<Rightarrow> nat \<Rightarrow> nat \<Rightarrow> bool" where
  "replaceable ms b i \<longleftrightarrow> i < b \<and> is_tool_result (ms ! i) \<and> success_after ms i"

definition run_ok :: "transcript \<Rightarrow> nat \<Rightarrow> nat \<Rightarrow> run_state \<Rightarrow> bool" where
  "run_ok ms b i s \<longleftrightarrow>
     (\<forall>f\<in>set (rs_failures s). fa_index f < i \<and> fa_index f < b \<and> is_failed_tool_result (ms ! fa_index f))
     \<and> (\<forall>k\<in>replaced (rs_repl s). replaceable ms b k)"

lemma failed_is_result: "is_failed_tool_result m \<Longrightarrow> is_tool_result m"
  by (cases m) simp_all

lemma successful_is_result: "is_successful_tool_result m \<Longrightarrow> is_tool_result m"
  by (cases m) simp_all

lemma keys_fold_put:
  "replaced (fold (\<lambda>g. put_field (key g) (val g)) gs r) = key ` set gs \<union> replaced r"
  by (induction gs arbitrary: r) auto

lemma keys_run_replacements:
  "replaced (run_replacements fs t r) = fa_index ` set fs \<union> replaced r"
  by (cases fs) (simp_all add: run_replacements_def keys_fold_put)

lemma success_in_drop:
  assumes "m \<in> set (drop n ms)" "is_successful_tool_result m" "i < n"
  shows "success_after ms i"
proof -
  from assms(1) obtain k where "k < length ms - n" "ms ! (n + k) = m"
    by (auto simp: in_set_conv_nth)
  with assms(2,3) show ?thesis unfolding success_after_def by (intro exI [of _ "n + k"]) auto
qed

lemma close_run_ok:
  assumes "run_ok ms b i s"
  shows "run_ok ms b i (close_run ms mf i s)"
proof (cases "List.find is_successful_tool_result (drop i ms)")
  case None
  with assms show ?thesis by (auto simp: run_ok_def close_run_def Let_def)
next
  case (Some m)
  from find_SomeD [OF Some] have "success_after ms (fa_index f)" if "f \<in> set (rs_failures s)" for f
    using assms that by (auto simp: run_ok_def intro: success_in_drop)
  with assms Some show ?thesis
    by (auto simp: run_ok_def close_run_def Let_def keys_run_replacements replaceable_def failed_is_result)
qed

lemma open_run_ok:
  assumes "run_ok ms b i s" "i < b"
  shows "run_ok ms b (Suc i) (open_run i (ms ! i) s)"
  using assms by (auto simp: run_ok_def open_run_def less_SucI)

lemma run_loop_ok:
  "run_ok all b i s \<Longrightarrow> ms = drop i (take b all) \<Longrightarrow> b \<le> length all \<Longrightarrow>
     \<forall>k\<in>replaced (rs_repl (run_loop all mf i ms s)). replaceable all b k"
proof (induction all mf i ms s rule: run_loop.induct)
  case (1 all mf i s)
  from close_run_ok [OF 1(1), of mf] show ?case by (simp add: run_ok_def)
next
  case (2 all mf i m ms s)
  from drop_eq_ConsD [OF 2(4) [symmetric]]
  have i: "i < b" and m: "m = all ! i" "ms = drop (Suc i) (take b all)" by simp_all
  have next_ok: "run_ok all b (Suc i) t" if "run_ok all b i t" for t
    using that by (auto simp: run_ok_def less_SucI)
  show ?case
  proof (cases "is_assistant_tool_call m \<or> is_failed_tool_result m")
    case True
    with 2(1) [OF True _ m(2) 2(5)] open_run_ok [OF 2(3) i] m(1) show ?thesis by simp
  next
    case False
    with 2(2) [OF False _ m(2) 2(5)] next_ok [OF close_run_ok [OF 2(3)]] show ?thesis by simp
  qed
qed

lemma dump_step_ok:
  assumes "\<forall>k\<in>replaced (fst acc). replaceable ms b k" "i < b"
  shows "\<forall>k\<in>replaced (fst (dump_step ms sg mb i (ms ! i) acc)). replaceable ms b k"
  using assms
  by (auto simp: dump_step_def Let_def superseded_def list_ex_iff replaceable_def successful_is_result
      intro: success_in_drop split: option.split prod.split)

lemma dump_loop_ok:
  "\<forall>k\<in>replaced (fst acc). replaceable all b k \<Longrightarrow> ms = drop i (take b all) \<Longrightarrow> b \<le> length all \<Longrightarrow>
     \<forall>k\<in>replaced (fst (dump_loop all sg mb i ms acc)). replaceable all b k"
proof (induction all sg mb i ms acc rule: dump_loop.induct)
  case (2 all sg mb i m ms acc)
  from drop_eq_ConsD [OF 2(3) [symmetric]]
  have i: "i < b" and m: "m = all ! i" "ms = drop (Suc i) (take b all)" by simp_all
  from 2(1) [OF _ m(2) 2(4)] dump_step_ok [OF 2(2) i, of sg mb] m(1) show ?case by simp
qed simp

section \<open>The protected tail\<close>

lemma protected_rev_le: "protected_rev rs seen w \<le> length rs"
  by (induction rs arbitrary: seen) (auto intro: le_SucI)

lemma protected_rev_window:
  "seen < w \<Longrightarrow> length (filter is_assistant (drop (protected_rev rs seen w) (rev rs)))
     = min (nat (w - seen)) (length (filter is_assistant rs))"
proof (induction rs arbitrary: seen)
  case (Cons m rs)
  show ?case
  proof (cases "is_assistant m")
    case False
    with Cons protected_rev_le [of rs seen w] show ?thesis by simp
  next
    case True
    show ?thesis
    proof (cases "seen + 1 \<ge> w")
      case True
      with Cons.prems have "nat (w - seen) = 1" by simp
      with True \<open>is_assistant m\<close> show ?thesis by simp
    next
      case False
      with Cons.IH [of "seen + 1"] protected_rev_le [of rs "seen + 1" w] \<open>is_assistant m\<close>
      show ?thesis by (simp add: min_def) linarith
    qed
  qed
qed simp

lemma protected_window:
  "length (filter is_assistant (drop (protected_start_index ms w) ms))
     = min (nat w) (length (filter is_assistant ms))"
  using protected_rev_window [of 0 w "rev ms"]
  by (auto simp: protected_start_index_def rev_filter [symmetric])

lemma protected_start_le: "protected_start_index ms w \<le> length ms"
  using protected_rev_le [of "rev ms" 0 w] by (simp add: protected_start_index_def)

lemma all_replacements_ok:
  "\<forall>k\<in>replaced (fst (all_replacements ms opts)). replaceable ms (janitor_boundary ms opts) k"
proof -
  have b: "janitor_boundary ms opts \<le> length ms"
    by (simp add: janitor_boundary_def protected_start_le)
  have "\<forall>k\<in>replaced (rs_repl (failed_runs ms opts)). replaceable ms (janitor_boundary ms opts) k"
    unfolding failed_runs_def by (rule run_loop_ok) (use b in \<open>simp_all add: run_ok_def\<close>)
  then show ?thesis
    unfolding all_replacements_def Let_def
    using dump_loop_ok [where i = 0 and ms = "take (janitor_boundary ms opts) ms" and b = "janitor_boundary ms opts"
        and acc = "(rs_repl (failed_runs ms opts), 0)", OF _ _ b]
    by simp
qed

text \<open>A plan is the passthrough or the replacements applied.\<close>

lemma plan_cases:
  "jp_messages (plan_context_janitor ms opts) = ms \<and> \<not> jp_changed (plan_context_janitor ms opts)
   \<or> jp_messages (plan_context_janitor ms opts) = apply_replacements (fst (all_replacements ms opts)) ms
     \<and> jp_changed (plan_context_janitor ms opts) \<and> turn_gap_open opts
     \<and> jo_min_tokens opts \<le> ce_tokens (estimate_context_tokens ms)
     \<and> jp_before (plan_context_janitor ms opts) = ce_tokens (estimate_context_tokens ms)
     \<and> jp_after (plan_context_janitor ms opts) = ce_tokens (estimate_context_tokens (jp_messages (plan_context_janitor ms opts)))
     \<and> fst (all_replacements ms opts) \<noteq> []"
  by (auto simp: plan_context_janitor_def empty_plan_def Let_def split: prod.split)

lemma plan_skeleton: "map skeleton (jp_messages (plan_context_janitor ms opts)) = map skeleton ms"
  using plan_cases [of ms opts] by (auto simp: apply_replacements_skeleton)

lemma plan_tail:
  "drop (janitor_boundary ms opts) (jp_messages (plan_context_janitor ms opts)) = drop (janitor_boundary ms opts) ms"
proof -
  have "drop (janitor_boundary ms opts) (apply_replacements (fst (all_replacements ms opts)) ms)
      = drop (janitor_boundary ms opts) ms"
    by (rule apply_replacements_drop) (use all_replacements_ok [of ms opts] in \<open>auto simp: replaced_def replaceable_def\<close>)
  with plan_cases [of ms opts] show ?thesis by auto
qed

interpretation janitor: transcript_transform "\<lambda>ms. jp_messages (plan_context_janitor ms opts)" for opts
  by unfold_locales (rule plan_skeleton)

interpretation janitor_view: transcript_transform "\<lambda>ms. snd (apply_context_janitor cfg k ms)" for cfg k
  by unfold_locales (simp add: apply_context_janitor_def Let_def plan_skeleton)

text \<open>The views a session sends, one provider request after the other.\<close>

fun janitor_views :: "janitor_config \<Rightarrow> janitor_clock \<Rightarrow> transcript list \<Rightarrow> transcript list" where
  "janitor_views cfg k [] = []"
| "janitor_views cfg k (ms # mss) =
     snd (apply_context_janitor cfg k ms) # janitor_views cfg (fst (apply_context_janitor cfg k ms)) mss"

lemma closed_gap_view:
  assumes "jk_last_prune k = Some t" "jk_turn k + 1 - t < jc_min_turns cfg"
  shows "apply_context_janitor cfg k ms = (k\<lparr>jk_turn := jk_turn k + 1\<rparr>, ms)"
  using assms
  by (simp add: apply_context_janitor_def Let_def plan_context_janitor_def empty_plan_def turn_gap_open_def
      session_options_def)

lemma views_pass_through:
  "jk_last_prune k = Some t \<Longrightarrow> jk_turn k + int (length mss) < t + jc_min_turns cfg \<Longrightarrow> janitor_views cfg k mss = mss"
proof (induction mss arbitrary: k)
  case (Cons ms mss)
  have v: "apply_context_janitor cfg k ms = (k\<lparr>jk_turn := jk_turn k + 1\<rparr>, ms)"
    by (rule closed_gap_view [OF Cons.prems(1)]) (use Cons.prems(2) in simp)
  have "janitor_views cfg (k\<lparr>jk_turn := jk_turn k + 1\<rparr>) mss = mss"
    by (rule Cons.IH) (use Cons.prems in simp_all)
  with v show ?case by simp
qed simp

section \<open>Properties\<close>



text \<open>
  A prune does not last: the view after the one that pruned is the transcript it is given,
  unpruned, whenever the configured gap is more than one turn, so the compressed outputs return to
  the provider and the cached prefix breaks a second time.
\<close>

theorem prune_is_undone_in_the_next_view:
  assumes "apply_context_janitor cfg k ms = (k', view)" "view \<noteq> ms" "1 < jc_min_turns cfg"
  shows "snd (apply_context_janitor cfg k' (ms @ new)) = ms @ new"
proof -
  have "jk_last_prune k' = Some (jk_turn k')"
    using assms(1,2) by (auto simp: apply_context_janitor_def Let_def split: if_splits)
  then have "\<not> turn_gap_open (session_options cfg (k'\<lparr>jk_turn := jk_turn k' + 1\<rparr>))"
    using assms(3) by (simp add: turn_gap_open_def session_options_def)
  then show ?thesis by (simp add: apply_context_janitor_def Let_def plan_context_janitor_def empty_plan_def)
qed

text \<open>
  A resumed session starts its turn clock at 0 beside a watermark of the previous process: no
  view is pruned for as many turns as the watermark plus the gap, however large the context.
\<close>

theorem resumed_session_waits_for_the_old_clock:
  assumes "int (length views) < t + jc_min_turns cfg"
  shows "janitor_views cfg \<lparr>jk_turn = 0, jk_last_prune = Some t\<rparr> views = views"
  by (rule views_pass_through) (use assms in simp_all)

text \<open>
  The reported saving is zero: when an assistant message of the protected tail carries usage,
  the token estimate after a prune equals the estimate before it.
\<close>

theorem reported_saving_is_zero:
  assumes "jp_changed (plan_context_janitor ms opts)"
    "list_ex (\<lambda>m. get_assistant_usage m \<noteq> None) (drop (janitor_boundary ms opts) ms)"
  shows "jp_after (plan_context_janitor ms opts) = jp_before (plan_context_janitor ms opts)"
proof -
  let ?b = "janitor_boundary ms opts" and ?out = "jp_messages (plan_context_janitor ms opts)"
  from assms(2) obtain n where "n \<in> set (drop ?b ms)" "get_assistant_usage n \<noteq> None"
    by (auto simp: list_ex_iff)
  then obtain pre m post where s: "drop ?b ms = pre @ m # post" "get_assistant_usage m \<noteq> None"
    "\<forall>x\<in>set post. \<not> get_assistant_usage x \<noteq> None"
    using split_list_last_propE [of "drop ?b ms" "\<lambda>x. get_assistant_usage x \<noteq> None"] by blast
  then obtain u where u: "get_assistant_usage m = Some u" by auto
  have est: "ce_tokens (estimate_context_tokens (xs @ pre @ m # post))
      = calculate_context_tokens u + int (estimate_sum post)" for xs
    using estimate_context_split [OF u, of post "xs @ pre"] s(3) by simp
  have "ms = take ?b ms @ pre @ m # post" using s(1) by (metis append_take_drop_id)
  moreover have "?out = take ?b ?out @ pre @ m # post"
    using s(1) plan_tail [of ms opts] by (metis append_take_drop_id)
  ultimately have "ce_tokens (estimate_context_tokens ?out) = ce_tokens (estimate_context_tokens ms)"
    using est by metis
  with plan_cases [of ms opts] assms(1) show ?thesis by auto
qed

section \<open>A concrete prune\<close>

definition sample_run :: transcript where
  "sample_run =
     [assistant_msg [call_block (js ''a'') (js ''sh'') JNull] ToolUse, tool_msg (js ''a'') (js ''sh'') [] True,
      assistant_msg [call_block (js ''b'') (js ''sh'') JNull] ToolUse, tool_msg (js ''b'') (js ''sh'') [] True,
      assistant_msg [call_block (js ''c'') (js ''sh'') JNull] ToolUse, tool_msg (js ''c'') (js ''sh'') [] False]
     @ replicate 5 (assistant_msg [] Stop)"

definition sample_config :: janitor_config where
  "sample_config = \<lparr>jc_min_tokens = 0, jc_min_turns = 15, jc_dump_bytes = 8192\<rparr>"

definition sample_clock :: janitor_clock where
  "sample_clock = \<lparr>jk_turn = 0, jk_last_prune = None\<rparr>"

definition sample_options :: janitor_options where
  "sample_options = session_options sample_config \<lparr>jk_turn = 1, jk_last_prune = None\<rparr>"

lemma sample_boundary: "janitor_boundary sample_run sample_options = 4"
  by code_simp

lemma sample_plan_changed: "jp_changed (plan_context_janitor sample_run sample_options)"
  by code_simp

lemma sample_plan_second:
  "map_option text_of (Some (jp_messages (plan_context_janitor sample_run sample_options) ! 3)) =
     Some (js ''[compressed: failed sh attempt]'')"
  by code_simp

lemma sample_plan_third: "text_of (sample_run ! 3) = []"
  by code_simp

lemma sample_usage:
  "list_ex (\<lambda>m. get_assistant_usage m \<noteq> None) (drop (janitor_boundary sample_run sample_options) sample_run)"
  unfolding sample_boundary by (simp add: sample_run_def sample_defs)

lemma sample_changes: "jp_messages (plan_context_janitor sample_run sample_options) ! 3 \<noteq> sample_run ! 3"
proof
  assume "jp_messages (plan_context_janitor sample_run sample_options) ! 3 = sample_run ! 3"
  with sample_plan_second sample_plan_third show False by simp
qed

lemma sample_view:
  "apply_context_janitor sample_config sample_clock sample_run =
     (\<lparr>jk_turn = 1, jk_last_prune = Some 1\<rparr>, jp_messages (plan_context_janitor sample_run sample_options))"
  using sample_plan_changed
  by (simp add: apply_context_janitor_def Let_def sample_options_def sample_clock_def)

lemmas sample_prune = sample_boundary sample_plan_changed sample_usage sample_changes sample_view


theorem prune_is_undone_in_the_next_view_witness:
  "snd (apply_context_janitor sample_config sample_clock sample_run) \<noteq> sample_run
   \<and> snd (apply_context_janitor sample_config (fst (apply_context_janitor sample_config sample_clock sample_run))
        (sample_run @ [assistant_msg [] Stop])) = sample_run @ [assistant_msg [] Stop]"
proof -
  have ne: "jp_messages (plan_context_janitor sample_run sample_options) \<noteq> sample_run"
    using sample_changes by metis
  have "1 < jc_min_turns sample_config" by (simp add: sample_config_def)
  from prune_is_undone_in_the_next_view [OF sample_view ne this] ne show ?thesis by (simp add: sample_view)
qed

theorem resumed_session_waits_for_the_old_clock_witness:
  "janitor_views sample_config \<lparr>jk_turn = 0, jk_last_prune = Some 100\<rparr> (replicate 114 sample_run)
     = replicate 114 sample_run"
  by (rule resumed_session_waits_for_the_old_clock) (simp add: sample_config_def)

theorem reported_saving_is_zero_witness:
  "jp_after (plan_context_janitor sample_run sample_options) = jp_before (plan_context_janitor sample_run sample_options)"
  by (rule reported_saving_is_zero [OF sample_plan_changed sample_usage])

end
