(* ===== verification/Budget.thy ===== *)
theory Budget
  imports OutputCap ImageTtl Janitor
begin

text \<open>
  Resolution of the context budget from settings and the environment
  (coding-agent/src/core/context-budget.ts). The environment is a function from names to values; a
  setting is an exact number. Warnings are not modelled.
\<close>

type_synonym process_env = "jstring \<Rightarrow> jstring option"

definition parse_boolean :: "jstring option \<Rightarrow> bool option" where
  "parse_boolean v =
     (case v of
        None \<Rightarrow> None
      | Some s \<Rightarrow>
          if js_lower (js_trim s) \<in> {js ''1'', js ''true'', js ''yes'', js ''on''} then Some True
          else if js_lower (js_trim s) \<in> {js ''0'', js ''false'', js ''no'', js ''off''} then Some False
          else None)"

definition parse_number :: "jstring option \<Rightarrow> rat option" where
  "parse_number v =
     (case v of
        None \<Rightarrow> None
      | Some s \<Rightarrow>
          if js_trim s = [] then None
          else (case js_number s of Fin q \<Rightarrow> Some q | _ \<Rightarrow> None))"

text \<open>
  The common shape of the three resolvers: the value of the environment when it is set and valid,
  else the setting when it is present and valid, else the fallback.
\<close>

definition resolve_number :: "(rat \<Rightarrow> bool) \<Rightarrow> jstring \<Rightarrow> process_env \<Rightarrow> rat option \<Rightarrow> rat \<Rightarrow> rat" where
  "resolve_number valid name env setting fallback =
     (let from_setting =
        (case setting of
           Some v \<Rightarrow> if valid v then v else fallback
         | None \<Rightarrow> fallback)
      in case env name of
           None \<Rightarrow> from_setting
         | Some raw \<Rightarrow>
             (case parse_number (Some raw) of
                None \<Rightarrow> from_setting
              | Some p \<Rightarrow> if valid p then p else from_setting))"

definition resolve_positive_int :: "jstring \<Rightarrow> process_env \<Rightarrow> rat option \<Rightarrow> rat \<Rightarrow> rat" where
  "resolve_positive_int = resolve_number (\<lambda>q. is_integer q \<and> q > 0)"

definition resolve_non_negative_int :: "jstring \<Rightarrow> process_env \<Rightarrow> rat option \<Rightarrow> rat \<Rightarrow> rat" where
  "resolve_non_negative_int = resolve_number (\<lambda>q. is_integer q \<and> q \<ge> 0)"

definition resolve_ratio :: "jstring \<Rightarrow> process_env \<Rightarrow> rat option \<Rightarrow> rat \<Rightarrow> rat" where
  "resolve_ratio = resolve_number (\<lambda>q. 0 \<le> q \<and> q \<le> 1)"

record cap_settings =
  cs_enabled :: "bool option"
  cs_max_lines :: "rat option"
  cs_max_bytes :: "rat option"
  cs_head_ratio :: "rat option"

record image_settings =
  is_enabled :: "bool option"
  is_ttl_turns :: "rat option"
  is_payback_turns :: "rat option"

record janitor_settings =
  jset_enabled :: "bool option"
  jset_min_tokens :: "rat option"
  jset_min_turns :: "rat option"
  jset_dump_bytes :: "rat option"

record context_budget_settings =
  bs_cap :: "cap_settings option"
  bs_image :: "image_settings option"
  bs_janitor :: "janitor_settings option"

record resolved_context_budget =
  rb_cap_enabled :: bool
  rb_cap :: cap_options
  rb_image_enabled :: bool
  rb_image :: ttl_options
  rb_janitor_enabled :: bool
  rb_janitor :: janitor_config

definition flag :: "jstring \<Rightarrow> process_env \<Rightarrow> bool option \<Rightarrow> bool" where
  "flag name env setting =
     (case parse_boolean (env name) of
        Some b \<Rightarrow> b
      | None \<Rightarrow> (case setting of Some b \<Rightarrow> b | None \<Rightarrow> False))"

definition resolve_cap :: "cap_settings option \<Rightarrow> process_env \<Rightarrow> cap_options" where
  "resolve_cap s env =
     \<lparr>max_lines = nat \<lfloor>resolve_positive_int (js ''PRIME_AGENT_TOOL_OUTPUT_MAX_LINES'') env
                     (Option.bind s cs_max_lines) 200\<rfloor>,
      max_bytes = nat \<lfloor>resolve_positive_int (js ''PRIME_AGENT_TOOL_OUTPUT_MAX_BYTES'') env
                     (Option.bind s cs_max_bytes) 16384\<rfloor>,
      head_ratio = resolve_ratio (js ''PRIME_AGENT_TOOL_OUTPUT_HEAD_RATIO'') env
                     (Option.bind s cs_head_ratio) (6 / 10)\<rparr>"

definition resolve_image :: "image_settings option \<Rightarrow> process_env \<Rightarrow> ttl_options" where
  "resolve_image s env =
     \<lparr>ttl_turns = \<lfloor>resolve_non_negative_int (js ''PRIME_AGENT_IMAGE_TTL_TURNS'') env
                   (Option.bind s is_ttl_turns) 2\<rfloor>,
      ttl_payback = Some (resolve_positive_int (js ''PRIME_AGENT_IMAGE_TTL_PAYBACK_TURNS'') env
                   (Option.bind s is_payback_turns) 2)\<rparr>"

definition resolve_janitor :: "janitor_settings option \<Rightarrow> process_env \<Rightarrow> janitor_config" where
  "resolve_janitor s env =
     \<lparr>jc_min_tokens = \<lfloor>resolve_positive_int (js ''PRIME_AGENT_CONTEXT_JANITOR_TOKENS'') env
                   (Option.bind s jset_min_tokens) 40000\<rfloor>,
      jc_min_turns = \<lfloor>resolve_positive_int (js ''PRIME_AGENT_CONTEXT_JANITOR_TURNS'') env
                   (Option.bind s jset_min_turns) 15\<rfloor>,
      jc_dump_bytes = \<lfloor>resolve_non_negative_int (js ''PRIME_AGENT_CONTEXT_JANITOR_SUCCESS_BYTES'') env
                   (Option.bind s jset_dump_bytes) 8192\<rfloor>\<rparr>"

definition resolve_context_budget :: "context_budget_settings \<Rightarrow> process_env \<Rightarrow> resolved_context_budget" where
  "resolve_context_budget s env =
     \<lparr>rb_cap_enabled = flag (js ''PRIME_AGENT_TOOL_OUTPUT_CAP'') env (Option.bind (bs_cap s) cs_enabled),
      rb_cap = resolve_cap (bs_cap s) env,
      rb_image_enabled = flag (js ''PRIME_AGENT_IMAGE_TTL'') env (Option.bind (bs_image s) is_enabled),
      rb_image = resolve_image (bs_image s) env,
      rb_janitor_enabled = flag (js ''PRIME_AGENT_CONTEXT_JANITOR'') env (Option.bind (bs_janitor s) jset_enabled),
      rb_janitor = resolve_janitor (bs_janitor s) env\<rparr>"

section \<open>Resolved values are valid\<close>

locale number_resolver =
  fixes valid :: "rat \<Rightarrow> bool" and resolve :: "jstring \<Rightarrow> process_env \<Rightarrow> rat option \<Rightarrow> rat \<Rightarrow> rat"
  assumes resolves: "resolve = resolve_number valid"
begin

lemma resolved_valid: "valid fallback \<Longrightarrow> valid (resolve name env setting fallback)"
  by (auto simp: resolves resolve_number_def Let_def split: option.split)

lemma env_first: "env name = Some raw \<Longrightarrow> parse_number (Some raw) = Some q \<Longrightarrow> valid q \<Longrightarrow>
    resolve name env setting fallback = q"
  by (simp add: resolves resolve_number_def Let_def)

lemma bad_env_falls_to_setting:
  assumes "\<And>q. parse_number (env name) = Some q \<Longrightarrow> \<not> valid q" "valid v"
  shows "resolve name env (Some v) fallback = v"
  using assms by (auto simp: resolves resolve_number_def Let_def split: option.split)

lemma bad_values_fall_back:
  assumes "\<And>q. parse_number (env name) = Some q \<Longrightarrow> \<not> valid q" "\<And>v. setting = Some v \<Longrightarrow> \<not> valid v"
  shows "resolve name env setting fallback = fallback"
  using assms by (auto simp: resolves resolve_number_def Let_def split: option.split)

end

interpretation positive_int: number_resolver "\<lambda>q. is_integer q \<and> q > 0" resolve_positive_int
  by unfold_locales (simp add: resolve_positive_int_def)

interpretation non_negative_int: number_resolver "\<lambda>q. is_integer q \<and> q \<ge> 0" resolve_non_negative_int
  by unfold_locales (simp add: resolve_non_negative_int_def)

interpretation ratio: number_resolver "\<lambda>q. 0 \<le> q \<and> q \<le> 1" resolve_ratio
  by unfold_locales (simp add: resolve_ratio_def)

lemma is_integer_numeral [simp]: "is_integer (numeral n)"
  using is_integer_of_int [of "numeral n"] by simp

lemma positive_int_ge_1:
  assumes "is_integer fallback \<and> fallback > 0"
  shows "1 \<le> \<lfloor>resolve_positive_int name env setting fallback\<rfloor>"
  using positive_int.resolved_valid [OF assms, of name env setting] by (metis floor_of_int is_integer_def of_int_0_less_iff zless_imp_add1_zle add_0)

section \<open>Properties\<close>

text \<open>
  The budget is well formed whatever the settings and the environment hold: at least one line,
  one byte, one turn of gap and one token of floor, a head ratio between 0 and 1, non-negative
  image ages and dump sizes, a positive payback horizon.
\<close>

theorem resolved_budget_is_valid:
  "1 \<le> max_lines (rb_cap (resolve_context_budget s env))
   \<and> 1 \<le> max_bytes (rb_cap (resolve_context_budget s env))
   \<and> 0 \<le> head_ratio (rb_cap (resolve_context_budget s env)) \<and> head_ratio (rb_cap (resolve_context_budget s env)) \<le> 1
   \<and> 0 \<le> ttl_turns (rb_image (resolve_context_budget s env))
   \<and> 1 \<le> payback_horizon (rb_image (resolve_context_budget s env))
   \<and> 1 \<le> jc_min_tokens (rb_janitor (resolve_context_budget s env))
   \<and> 1 \<le> jc_min_turns (rb_janitor (resolve_context_budget s env))
   \<and> 0 \<le> jc_dump_bytes (rb_janitor (resolve_context_budget s env))"
proof -
  have pos: "1 \<le> \<lfloor>resolve_positive_int name env st (numeral n)\<rfloor>" for name st n
    by (rule positive_int_ge_1) simp
  have nn: "0 \<le> \<lfloor>resolve_non_negative_int name env st (numeral n)\<rfloor>" for name st n
    using non_negative_int.resolved_valid [of "numeral n" name env st] by simp
  have r: "0 \<le> resolve_ratio name env st (6 / 10) \<and> resolve_ratio name env st (6 / 10) \<le> 1" for name st
    by (rule ratio.resolved_valid) simp
  have p: "1 \<le> resolve_positive_int name env st 2" for name st
    using pos [of name st "num.Bit0 num.One"] by (simp add: le_floor_iff)
  show ?thesis
    using pos nn r p
    by (simp add: resolve_context_budget_def resolve_cap_def resolve_image_def resolve_janitor_def
        payback_horizon_def le_nat_iff nat_le_iff Suc_le_eq)
qed

text \<open>
  An invalid value of the environment is replaced by the setting, not by the default: the
  janitor's turn gap is the valid setting whenever the variable does not hold a positive integer.
\<close>

theorem invalid_environment_falls_to_setting:
  assumes "bs_janitor s = Some j" "jset_min_turns j = Some (of_int n)" "0 < n"
    "\<not> (\<exists>q. parse_number (env (js ''PRIME_AGENT_CONTEXT_JANITOR_TURNS'')) = Some q \<and> is_integer q \<and> 0 < q)"
  shows "jc_min_turns (rb_janitor (resolve_context_budget s env)) = n"
proof -
  have "resolve_positive_int (js ''PRIME_AGENT_CONTEXT_JANITOR_TURNS'') env (Some (of_int n)) 15 = of_int n"
    by (rule positive_int.bad_env_falls_to_setting) (use assms(3,4) in auto)
  with assms(1,2) show ?thesis by (simp add: resolve_context_budget_def resolve_janitor_def)
qed

theorem invalid_environment_falls_to_setting_witness:
  "jc_min_turns (rb_janitor (resolve_context_budget
     \<lparr>bs_cap = None, bs_image = None,
      bs_janitor = Some \<lparr>jset_enabled = None, jset_min_tokens = None, jset_min_turns = Some (of_int 7), jset_dump_bytes = None\<rparr>\<rparr>
     (\<lambda>n. Some (js ''-3'')))) = 7"
proof -
  have t: "js_trim (js ''-3'') = js ''-3''" by code_simp
  have d: "unsigned_decimal [51] = Some 3" by code_simp
  have f: "finite_number (- 3) = Fin (- 3)" by (simp add: finite_number_def number_bound_def)
  have "js_number (js ''-3'') = Fin (- 3)" by (simp add: js_number_def t [simplified] Let_def d f)
  then have "\<not> (\<exists>q. parse_number (Some (js ''-3'')) = Some q \<and> is_integer q \<and> 0 < q)"
    by (auto simp: parse_number_def split: if_splits)
  then show ?thesis
    using invalid_environment_falls_to_setting [where n = 7 and env = "\<lambda>n. Some (js ''-3'')" and
        j = "\<lparr>jset_enabled = None, jset_min_tokens = None, jset_min_turns = Some (of_int 7), jset_dump_bytes = None\<rparr>"
        and s = "\<lparr>bs_cap = None, bs_image = None, bs_janitor = Some \<lparr>jset_enabled = None, jset_min_tokens = None,
          jset_min_turns = Some (of_int 7), jset_dump_bytes = None\<rparr>\<rparr>"]
    by simp
qed

end
