(* ===== verification/ContextStats.thy ===== *)
theory ContextStats
  imports Tokens
begin

text \<open>
  Per-turn context statistics (coding-agent/src/core/context-stats.ts): the accumulator's state and
  operations, the bounded history, and the log line. An image contributes the decoded length of its
  base64 data.
\<close>

record context_stats =
  st_turn :: int
  st_input :: int
  st_output :: int
  st_cache_read :: int
  st_cache_write :: int
  st_result_bytes :: nat
  st_image_bytes :: nat
  st_context :: int
  st_capped :: nat
  st_evicted :: int
  st_janitor :: nat

section \<open>Sizes\<close>

definition ends_with :: "jstring \<Rightarrow> jstring \<Rightarrow> bool" where
  "ends_with s suffix \<longleftrightarrow> length suffix \<le> length s \<and> drop (length s - length suffix) s = suffix"

definition estimate_base64_bytes :: "jstring \<Rightarrow> nat" where
  "estimate_base64_bytes d =
     (if d = [] then 0
      else
        let padding = (if ends_with d [61, 61] then 2 else if ends_with d [61] then 1 else 0)
        in nat (max 0 (int (length d * 3 div 4) - padding)))"

definition part_size :: "part \<Rightarrow> nat" where
  "part_size p = (case p of TextPart t _ \<Rightarrow> utf8_bytes t | ImagePart d _ \<Rightarrow> estimate_base64_bytes d)"

definition content_byte_size :: "part list \<Rightarrow> nat \<times> nat" where
  "content_byte_size ps = (sum_list (map part_size ps), sum_list (map part_size (filter is_image ps)))"

section \<open>The accumulator\<close>

record accumulator =
  ac_result_bytes :: nat
  ac_image_bytes :: nat
  ac_capped :: nat
  ac_evicted :: int
  ac_janitor :: nat

definition fresh_accumulator :: accumulator where
  "fresh_accumulator = \<lparr>ac_result_bytes = 0, ac_image_bytes = 0, ac_capped = 0, ac_evicted = 0, ac_janitor = 0\<rparr>"

definition observe_tool_result :: "part list \<Rightarrow> bool \<Rightarrow> accumulator \<Rightarrow> accumulator" where
  "observe_tool_result content capped a =
     (let size = content_byte_size content in
      a\<lparr>ac_result_bytes := ac_result_bytes a + fst size, ac_image_bytes := ac_image_bytes a + snd size,
        ac_capped := (if capped then ac_capped a + 1 else ac_capped a)\<rparr>)"

definition observe_eviction :: "int \<Rightarrow> accumulator \<Rightarrow> accumulator" where
  "observe_eviction n a = a\<lparr>ac_evicted := ac_evicted a + n\<rparr>"

definition observe_janitor :: "nat \<Rightarrow> accumulator \<Rightarrow> accumulator" where
  "observe_janitor n a = a\<lparr>ac_janitor := ac_janitor a + n\<rparr>"

definition snapshot :: "int \<Rightarrow> usage \<Rightarrow> transcript \<Rightarrow> accumulator \<Rightarrow> context_stats" where
  "snapshot turn u ms a =
     \<lparr>st_turn = turn, st_input = usage_input u, st_output = usage_output u,
      st_cache_read = usage_cache_read u, st_cache_write = usage_cache_write u,
      st_result_bytes = ac_result_bytes a, st_image_bytes = ac_image_bytes a,
      st_context = ce_tokens (estimate_context_tokens ms), st_capped = ac_capped a,
      st_evicted = ac_evicted a, st_janitor = ac_janitor a\<rparr>"

definition reset_accumulator :: "accumulator \<Rightarrow> accumulator" where
  "reset_accumulator a = fresh_accumulator"

section \<open>The history\<close>

definition context_stats_history_limit :: nat where
  "context_stats_history_limit = 8"

definition history_push :: "nat \<Rightarrow> 'a \<Rightarrow> 'a list \<Rightarrow> 'a list" where
  "history_push limit x es =
     (let es' = es @ [x] in if length es' > limit then drop (length es' - limit) es' else es')"

section \<open>The log line\<close>

definition named_field :: "string \<Rightarrow> jstring \<Rightarrow> jstring" where
  "named_field n v = js n @ 61 # v"

definition format_context_stats_line :: "context_stats \<Rightarrow> jstring" where
  "format_context_stats_line s =
     join_with [32]
       [named_field ''turn'' (dec_int (st_turn s)),
        named_field ''input'' (dec_int (st_input s)),
        named_field ''output'' (dec_int (st_output s)),
        named_field ''cacheRead'' (dec_int (st_cache_read s)),
        named_field ''cacheWrite'' (dec_int (st_cache_write s)),
        named_field ''toolResultBytes'' (dec_nat (st_result_bytes s)),
        named_field ''imageBytes'' (dec_nat (st_image_bytes s)),
        named_field ''estContext'' (dec_int (st_context s)),
        named_field ''capped'' (dec_nat (st_capped s)),
        named_field ''evicted'' (dec_int (st_evicted s)),
        named_field ''janitor'' (dec_nat (st_janitor s))]"

section \<open>What the accumulator and the history keep\<close>

lemma content_byte_size_append:
  "content_byte_size (ps @ qs) =
     (fst (content_byte_size ps) + fst (content_byte_size qs), snd (content_byte_size ps) + snd (content_byte_size qs))"
  by (simp add: content_byte_size_def)

lemma image_bytes_le: "snd (content_byte_size ps) \<le> fst (content_byte_size ps)"
  by (induction ps) (auto simp: content_byte_size_def)

lemma ends_with_append: "ends_with (xs @ ys) ys"
  by (simp add: ends_with_def)

text \<open>Observations add up; between two resets the order of the calls does not matter.\<close>

lemma observe_twice:
  "observe_tool_result qs False (observe_tool_result ps False a) = observe_tool_result (ps @ qs) False a"
  by (simp add: observe_tool_result_def Let_def content_byte_size_append)

lemma observe_commute:
  "observe_tool_result ps c (observe_eviction n a) = observe_eviction n (observe_tool_result ps c a)"
  "observe_tool_result ps c (observe_janitor j a) = observe_janitor j (observe_tool_result ps c a)"
  by (simp_all add: observe_tool_result_def observe_eviction_def observe_janitor_def Let_def)

section \<open>Properties\<close>

text \<open>
  The bounded history holds exactly the last \<open>limit\<close> pushed snapshots, oldest first, after any
  number of pushes.
\<close>

theorem history_is_the_last_pushes:
  "fold (history_push limit) xs [] = drop (length xs - limit) xs"
proof (induction xs rule: rev_induct)
  case (snoc x xs)
  then show ?case
    by (cases "limit \<le> length xs") (simp_all add: history_push_def Let_def Suc_diff_le)
qed simp

end
