(* ===== verification/SessionContext.thy ===== *)
theory SessionContext
  imports Budget ContextStats
begin

text \<open>
  How the agent session composes the budget (coding-agent/src/core/agent-session.ts): the
  \<open>transformContext\<close> hook it installs over the agent's own one, which plans image eviction, then runs
  the janitor, and counts what each did; and the cap applied to a finished tool call.
\<close>

record session_context =
  sx_clock :: janitor_clock
  sx_stats :: accumulator

definition evict_images_hook :: "resolved_context_budget \<Rightarrow> session_context \<Rightarrow> transcript \<Rightarrow> session_context \<times> transcript" where
  "evict_images_hook budget st ms =
     (if rb_image_enabled budget then
        let plan = plan_image_eviction (rb_image budget) ms in
        if ep_evicted plan
        then (st\<lparr>sx_stats := observe_eviction (ep_evicted_images plan) (sx_stats st)\<rparr>, ep_messages plan)
        else (st, ms)
      else (st, ms))"

definition janitor_hook :: "resolved_context_budget \<Rightarrow> session_context \<Rightarrow> transcript \<Rightarrow> session_context \<times> transcript" where
  "janitor_hook budget st ms =
     (if rb_janitor_enabled budget then
        let k = (sx_clock st)\<lparr>jk_turn := jk_turn (sx_clock st) + 1\<rparr>;
            plan = plan_context_janitor ms (session_options (rb_janitor budget) k);
            (k', view) = apply_context_janitor (rb_janitor budget) (sx_clock st) ms
        in (st\<lparr>sx_clock := k',
               sx_stats := (if jp_changed plan then observe_janitor (jp_compressed plan) (sx_stats st) else sx_stats st)\<rparr>,
            view)
      else (st, ms))"

definition transform_context ::
  "(transcript \<Rightarrow> transcript) \<Rightarrow> resolved_context_budget \<Rightarrow> session_context \<Rightarrow> transcript
   \<Rightarrow> session_context \<times> transcript" where
  "transform_context inner budget st ms =
     (case evict_images_hook budget st (inner ms) of (st', next) \<Rightarrow> janitor_hook budget st' next)"

text \<open>
  The end of \<open>afterToolCall\<close>. The scratch directory is absent for a session that keeps no artifacts;
  \<open>overridden\<close> tells whether an extension replaced the result. The second component is the content
  the hook returns, when it returns one.
\<close>

definition cap_hook ::
  "resolved_context_budget \<Rightarrow> jstring option \<Rightarrow> (jstring \<Rightarrow> jstring \<Rightarrow> jstring option) \<Rightarrow> jstring option \<Rightarrow> bool
   \<Rightarrow> part list \<Rightarrow> accumulator \<Rightarrow> accumulator \<times> part list option" where
  "cap_hook budget scratch_dir write existing overridden content a =
     (let keep = (if overridden then Some content else None) in
      if rb_cap_enabled budget then
        (case scratch_dir of
           None \<Rightarrow> (a, keep)
         | Some dir \<Rightarrow>
             let capped = cap_tool_output content existing (rb_cap budget) (write dir);
                 a' = observe_tool_result (co_content capped) (co_capped capped) a
             in if co_capped capped then (a', Some (co_content capped)) else (a', keep))
      else (observe_tool_result content False a, keep))"

section \<open>The hook as a transcript transform\<close>

lemma evict_hook_view:
  "snd (evict_images_hook budget st ms) =
     (if rb_image_enabled budget \<and> ep_evicted (plan_image_eviction (rb_image budget) ms)
      then ep_messages (plan_image_eviction (rb_image budget) ms) else ms)"
  by (simp add: evict_images_hook_def Let_def)

lemma janitor_hook_view:
  "snd (janitor_hook budget st ms) =
     (if rb_janitor_enabled budget then snd (apply_context_janitor (rb_janitor budget) (sx_clock st) ms) else ms)"
  by (simp add: janitor_hook_def Let_def split: prod.split)

interpretation evict_hook: transcript_transform "\<lambda>ms. snd (evict_images_hook budget st ms)" for budget st
  by unfold_locales (simp add: evict_hook_view ttl_plan.keeps_skeleton)

interpretation janitor_stage: transcript_transform "\<lambda>ms. snd (janitor_hook budget st ms)" for budget st
  by unfold_locales (simp add: janitor_hook_view janitor_view.keeps_skeleton)

lemma transform_view:
  "snd (transform_context inner budget st ms) =
     snd (janitor_hook budget (fst (evict_images_hook budget st (inner ms)))
           (snd (evict_images_hook budget st (inner ms))))"
  by (simp add: transform_context_def split_beta)

interpretation session_view: transcript_transform "\<lambda>ms. snd (transform_context (\<lambda>xs. xs) budget st ms)" for budget st
  by unfold_locales (simp add: transform_view janitor_stage.keeps_skeleton evict_hook.keeps_skeleton)

lemma transform_of_inner:
  "snd (transform_context inner budget st ms) = snd (transform_context (\<lambda>xs. xs) budget st (inner ms))"
  by (simp add: transform_view)

section \<open>Properties\<close>


text \<open>
  The cap keeps every image of a tool result, whatever it does to the text, and counts a result
  as capped exactly when the cap is on, the session has a scratch directory, the text exceeds the
  limits and its full copy could be stored.
\<close>

theorem cap_hook_keeps_images_and_counts:
  "filter is_image (case snd (cap_hook budget dir write existing overridden content a) of
       Some c \<Rightarrow> c | None \<Rightarrow> content) = filter is_image content
   \<and> ac_capped (fst (cap_hook budget dir write existing overridden content a)) =
      ac_capped a +
        (case dir of
           None \<Rightarrow> 0
         | Some d \<Rightarrow>
             if rb_cap_enabled budget \<and> exceeds_output_cap (joined_text content) (rb_cap budget)
                \<and> (existing \<noteq> None \<or> write d (joined_text content) \<noteq> None) then 1 else 0)"
  by (auto simp: cap_hook_def Let_def cap_keeps_images cap_capped_iff observe_tool_result_def split: option.split)

end
