(* ===== verification/JevHost.thy ===== *)
theory JevHost
  imports Jev
begin

text \<open>
  The host side of Jev: the OpenRouter decisions client (coding-agent/src/core/jev-openrouter.ts),
  the pre-turn router and the stop gate (jev-router.ts), and the spawn admission gate
  (jev-spawn-gate.ts). The network is an argument: \<open>fetch\<close> maps a request to a response or throws
  (a time-out aborts it, which throws); so is the environment, a function from names to values.
  A request is kept as a record, before \<open>JSON.stringify\<close>. Objects parsed from JSON are association
  lists with distinct keys.
\<close>

type_synonym environment = "jstring \<Rightarrow> jstring option"

section \<open>Reading an answer\<close>

definition stop_choice :: jstring where "stop_choice = js ''stop''"
definition uncertain_choice :: jstring where "uncertain_choice = js ''uncertain''"

fun to_number :: "json option \<Rightarrow> real option" where
  "to_number (Some (JNum t)) = (case js_number t of Fin q \<Rightarrow> Some (of_rat q) | _ \<Rightarrow> None)"
| "to_number _ = None"

fun max_of :: "real list \<Rightarrow> real option" where
  "max_of [] = None"
| "max_of (v # vs) = Some (fold max vs v)"

type_synonym fields = "(jstring \<times> json) list"

definition numbers :: "fields \<Rightarrow> real list" where
  "numbers ps = List.map_filter (\<lambda>(k, v). to_number (Some v)) ps"

definition max_probability :: "fields \<Rightarrow> real option" where
  "max_probability ps = max_of (numbers ps)"

definition entropy_of :: "real list \<Rightarrow> real" where
  "entropy_of vs = - sum_list (map (\<lambda>v. v / sum_list vs * log 2 (v / sum_list vs)) vs)"

definition shannon_entropy :: "fields \<Rightarrow> real option" where
  "shannon_entropy ps =
     (let vs = filter (\<lambda>v. 0 < v) (numbers ps) in
      if vs = [] then None else if sum_list vs \<le> 0 then None else Some (entropy_of vs))"

record jev_choice_answer =
  ca_choice :: jstring
  ca_confidence :: "real option"
  ca_probabilities :: "fields option"

fun as_record :: "json option \<Rightarrow> fields option" where
  "as_record (Some (JObj es)) = Some es"
| "as_record _ = None"

definition parse_jev_choice_answer :: "json \<Rightarrow> jev_choice_answer option" where
  "parse_jev_choice_answer payload =
     (case as_record (Some payload) of None \<Rightarrow> None | Some p \<Rightarrow>
      (case as_record (map_of p (js ''answers'')) of None \<Rightarrow> None | Some as \<Rightarrow>
       (case as_record (map_of as (js ''action'')) of None \<Rightarrow> None | Some a \<Rightarrow>
        (if map_of a (js ''type'') \<noteq> Some (JStr (js ''choice'')) then None
         else case map_of a (js ''choice'') of
           Some (JStr c) \<Rightarrow>
             Some \<lparr>ca_choice = c, ca_confidence = to_number (map_of a (js ''confidence'')),
                   ca_probabilities = as_record (map_of a (js ''probabilities''))\<rparr>
         | _ \<Rightarrow> None))))"

definition answer_confidence :: "jev_choice_answer \<Rightarrow> real option" where
  "answer_confidence a =
     (case ca_confidence a of
        Some c \<Rightarrow> Some c
      | None \<Rightarrow> (case ca_probabilities a of Some ps \<Rightarrow> max_probability ps | None \<Rightarrow> None))"

definition with_entropy :: "jev_choice_answer \<Rightarrow> jev_action \<Rightarrow> jstring option \<Rightarrow> real \<Rightarrow> jev_decision" where
  "with_entropy a act tool c =
     \<lparr>jd_action = act, jd_tool = tool, jd_confidence = Fin c,
      jd_entropy = map_option Fin (Option.bind (ca_probabilities a) shannon_entropy),
      jd_top = map_option Fin (Option.bind (ca_probabilities a) max_probability)\<rparr>"

definition to_jev_decision :: "jev_choice_answer \<Rightarrow> jstring list \<Rightarrow> jev_decision option" where
  "to_jev_decision a tools =
     (case answer_confidence a of
        None \<Rightarrow> None
      | Some c \<Rightarrow>
          if ca_choice a = uncertain_choice then Some (with_entropy a Uncertain None c)
          else if ca_choice a = stop_choice then Some (with_entropy a StopRun None c)
          else if ca_choice a \<in> set tools then Some (with_entropy a ExecuteTool (Some (ca_choice a)) c)
          else None)"

section \<open>The decisions client\<close>

type_synonym criteria = "(jstring \<times> jstring) list"

definition override :: "criteria option \<Rightarrow> jstring \<Rightarrow> jstring \<Rightarrow> jstring" where
  "override os k d = (case Option.bind os (\<lambda>es. map_of es k) of Some v \<Rightarrow> v | None \<Rightarrow> d)"

definition build_criteria :: "jstring list \<Rightarrow> criteria option \<Rightarrow> bool \<Rightarrow> criteria" where
  "build_criteria tools os include_uncertain =
     (let run = (\<lambda>t. js ''Run the '' @ [34] @ t @ [34] @ js '' tool'');
          c1 = fold (\<lambda>t c. put_field t (override os t (run t)) c) tools [];
          c2 = put_field stop_choice (override os stop_choice (js ''The task is complete; stop'')) c1
      in if include_uncertain
         then put_field uncertain_choice
                (override os uncertain_choice (js ''Not enough information to decide'')) c2
         else c2)"

record jev_request =
  rq_authorization :: jstring
  rq_model :: jstring
  rq_state :: jev_state
  rq_instructions :: jstring
  rq_criteria :: criteria
  rq_timeout :: int

text \<open>A response: its \<open>ok\<close> flag and its body, whose parsing may throw.\<close>

type_synonym jev_fetch = "jev_request \<Rightarrow> (bool \<times> json attempt) attempt"

record open_router_options =
  oo_api_key :: "jstring option"
  oo_resolver :: "jstring option attempt option"
  oo_model :: "jstring option"
  oo_timeout :: "int option"
  oo_fetch :: jev_fetch
  oo_tools :: "jstring list"
  oo_instructions :: "jstring option"
  oo_criteria :: "criteria option"
  oo_uncertain :: "bool option"

definition openrouter_jev_api_key_env :: jstring where
  "openrouter_jev_api_key_env = js ''OPENROUTER_API_KEY''"
definition openrouter_jev_model_env :: jstring where
  "openrouter_jev_model_env = js ''PRIME_AGENT_JEV_MODEL''"
definition default_openrouter_jev_model :: jstring where
  "default_openrouter_jev_model = js ''~typesafe/jev-latest''"
definition default_request_timeout_ms :: int where
  "default_request_timeout_ms = 5000"
definition default_instructions :: jstring where
  "default_instructions = js ''Choose the single best next action for this agent loop state. Use errorCategory to judge whether repeating the last call can help. Prefer unsure when the state does not clearly determine one action.''"

text \<open>\<open>a ?? b\<close> on optional values.\<close>

definition coalesce :: "'a option \<Rightarrow> 'a option \<Rightarrow> 'a option" where
  "coalesce a b = (case a of Some x \<Rightarrow> Some x | None \<Rightarrow> b)"

definition env_api_key :: "open_router_options \<Rightarrow> environment \<Rightarrow> jstring option" where
  "env_api_key opts env = coalesce (oo_api_key opts) (map_option js_trim (env openrouter_jev_api_key_env))"

definition jev_model :: "open_router_options \<Rightarrow> environment \<Rightarrow> jstring" where
  "jev_model opts env =
     (case coalesce (oo_model opts) (map_option js_trim (env openrouter_jev_model_env)) of
        Some m \<Rightarrow> if m = [] then default_openrouter_jev_model else m
      | None \<Rightarrow> default_openrouter_jev_model)"

text \<open>The key a request is signed with; the outer \<open>attempt\<close> is a resolver that throws.\<close>

definition request_key :: "open_router_options \<Rightarrow> environment \<Rightarrow> jstring option attempt" where
  "request_key opts env =
     (case env_api_key opts env of
        Some k \<Rightarrow> Got (Some k)
      | None \<Rightarrow>
          (case oo_resolver opts of
             None \<Rightarrow> Got None
           | Some Threw \<Rightarrow> Threw
           | Some (Got r) \<Rightarrow> Got (map_option js_trim r)))"

definition jev_request_for :: "open_router_options \<Rightarrow> environment \<Rightarrow> jstring \<Rightarrow> jev_state \<Rightarrow> jev_request" where
  "jev_request_for opts env key st =
     \<lparr>rq_authorization = js ''Bearer '' @ key, rq_model = jev_model opts env, rq_state = st,
      rq_instructions = (case oo_instructions opts of Some i \<Rightarrow> i | None \<Rightarrow> default_instructions),
      rq_criteria = build_criteria (oo_tools opts) (oo_criteria opts)
        (case oo_uncertain opts of Some b \<Rightarrow> b | None \<Rightarrow> True),
      rq_timeout = (case oo_timeout opts of Some t \<Rightarrow> t | None \<Rightarrow> default_request_timeout_ms)\<rparr>"

definition open_router_classifier :: "open_router_options \<Rightarrow> environment \<Rightarrow> jev_classifier" where
  "open_router_classifier opts env st =
     (if (env_api_key opts env = None \<or> env_api_key opts env = Some []) \<and> oo_resolver opts = None
      then Got None
      else case request_key opts env of
        Threw \<Rightarrow> Got None
      | Got None \<Rightarrow> Got None
      | Got (Some key) \<Rightarrow>
          if key = [] then Got None
          else case oo_fetch opts (jev_request_for opts env key st) of
            Threw \<Rightarrow> Got None
          | Got (ok, body) \<Rightarrow>
              if \<not> ok then Got None
              else case body of
                Threw \<Rightarrow> Got None
              | Got payload \<Rightarrow>
                  Got (Option.bind (parse_jev_choice_answer payload) (\<lambda>a. to_jev_decision a (oo_tools opts))))"

section \<open>The pre-turn router and the stop gate\<close>

definition jev_retry_choice :: jstring where "jev_retry_choice = js ''retry_last''"
definition jev_continue_choice :: jstring where "jev_continue_choice = js ''continue''"
definition jev_min_probability :: real where "jev_min_probability = 7 / 10"
definition jev_max_entropy :: real where "jev_max_entropy = 6 / 10"

definition truthy_flag :: "jstring option \<Rightarrow> bool" where
  "truthy_flag v =
     (case v of
        None \<Rightarrow> False
      | Some s \<Rightarrow> js_lower (js_trim s) \<in> {js ''1'', js ''true'', js ''yes''})"

definition is_jev_router_enabled :: "environment \<Rightarrow> bool" where
  "is_jev_router_enabled env = truthy_flag (env (js ''PRIME_AGENT_JEV_ENABLED''))"

definition is_jev_stop_enabled :: "environment \<Rightarrow> bool" where
  "is_jev_stop_enabled env =
     (is_jev_router_enabled env \<and> truthy_flag (env (js ''PRIME_AGENT_JEV_STOP'')))"

definition configured_tools :: "environment \<Rightarrow> jstring list" where
  "configured_tools env =
     filter (\<lambda>n. n \<noteq> [])
       (map js_trim (split_on 44 (case env (js ''PRIME_AGENT_JEV_TOOLS'') of Some v \<Rightarrow> v | None \<Rightarrow> [])))"

definition part_text :: "part \<Rightarrow> jstring" where
  "part_text p = (case text_of_part p of Some t \<Rightarrow> t | None \<Rightarrow> [])"

definition nonempty_text :: "part list \<Rightarrow> jstring" where
  "nonempty_text ps = join_with [newline] (filter (\<lambda>t. t \<noteq> []) (map part_text ps))"

fun user_text :: "content \<Rightarrow> jstring" where
  "user_text (Plain s) = s"
| "user_text (Parts ps) = nonempty_text ps"

fun first_user_text :: "transcript \<Rightarrow> jstring option" where
  "first_user_text [] = None"
| "first_user_text (User m # ms) =
     (if js_trim (user_text (um_content m)) \<noteq> [] then Some (take 500 (js_trim (user_text (um_content m))))
      else first_user_text ms)"
| "first_user_text (m # ms) = first_user_text ms"

text \<open>The local variables of the loop over the transcript.\<close>

record jev_scan =
  sc_tool :: "jstring option"
  sc_error :: "jstring option"
  sc_result :: "jstring option"
  sc_text :: "jstring option"
  sc_failures :: nat

definition assistant_text :: "block list \<Rightarrow> jstring" where
  "assistant_text bs =
     js_trim (join_with [newline] (List.map_filter (\<lambda>b. case b of TextBlock t _ \<Rightarrow> Some t | _ \<Rightarrow> None) bs))"

definition first_call :: "block list \<Rightarrow> tool_call option" where
  "first_call bs = (case tool_calls bs of [] \<Rightarrow> None | c # _ \<Rightarrow> Some c)"

fun scan_message :: "message \<Rightarrow> jev_scan \<Rightarrow> jev_scan" where
  "scan_message (Assistant m) s =
     s\<lparr>sc_tool := (case first_call (am_content m) of Some c \<Rightarrow> Some (call_name c) | None \<Rightarrow> sc_tool s),
       sc_text := (if assistant_text (am_content m) \<noteq> [] then Some (take 1000 (assistant_text (am_content m)))
                   else sc_text s)\<rparr>"
| "scan_message (ToolResult m) s =
     (let text = js_trim (nonempty_text (tr_content m)) in
      s\<lparr>sc_tool := Some (tr_tool m),
        sc_result := (if text \<noteq> [] then Some (take 2000 text) else sc_result s),
        sc_failures := (if tr_error m then sc_failures s + 1 else 0),
        sc_error := (if tr_error m then (if text \<noteq> [] then Some (take 2000 text) else sc_error s) else None)\<rparr>)"
| "scan_message _ s = s"

definition scan_start :: jev_scan where
  "scan_start = \<lparr>sc_tool = None, sc_error = None, sc_result = None, sc_text = None, sc_failures = 0\<rparr>"

definition nonblank :: "jstring option \<Rightarrow> jstring option" where
  "nonblank v = (if v = Some [] then None else v)"

definition build_jev_state :: "transcript \<Rightarrow> nat \<Rightarrow> jev_state" where
  "build_jev_state ms turn =
     (let s = fold scan_message ms scan_start in
      \<lparr>js_goal = nonblank (first_user_text ms), js_turn = turn, js_last_tool = nonblank (sc_tool s),
       js_last_error = nonblank (sc_error s), js_last_result = nonblank (sc_result s),
       js_last_text = nonblank (sc_text s), js_category = Some (classify_jev_error (sc_error s)),
       js_failures = sc_failures s\<rparr>)"

fun last_call_rev :: "message list \<Rightarrow> pre_turn_reflex option" where
  "last_call_rev [] = None"
| "last_call_rev (Assistant m # ms) =
     (case first_call (am_content m) of
        Some c \<Rightarrow> Some \<lparr>rx_tool = call_name c, rx_args = Some (call_args c)\<rparr>
      | None \<Rightarrow> last_call_rev ms)"
| "last_call_rev (m # ms) = last_call_rev ms"

definition derive_last_tool_call :: "transcript \<Rightarrow> pre_turn_reflex option" where
  "derive_last_tool_call ms = last_call_rev (rev ms)"

record jev_router_options =
  ro_tools :: "jstring list option"
  ro_classifier :: "jev_classifier option"
  ro_api_key :: "jstring option"
  ro_resolver :: "jstring option attempt option"
  ro_model :: "jstring option"
  ro_min_confidence :: "real option"
  ro_min_probability :: "real option"
  ro_max_entropy :: "real option"

definition jev_instructions :: jstring where
  "jev_instructions = js ''Choose the single best next action from this agent loop state. Weigh errorCategory: TRANSIENT failures (timeouts, rate limits, connection resets) may succeed when repeated, while DETERMINISTIC failures (syntax, name, and type errors, missing files) fail again unchanged. Prefer uncertain when no action clearly helps.''"

definition jev_criteria :: criteria where
  "jev_criteria =
     [(jev_retry_choice, js ''Re-run the previous tool call; useful only when the failure was transient (errorCategory TRANSIENT)''),
      (js ''stop'', js ''The task is complete; stop''),
      (js ''uncertain'', js ''No action clearly helps; let the model handle this turn'')]"

definition jev_stop_instructions :: jstring where
  "jev_stop_instructions = js ''Decide whether this agent run should stop or continue after the turn just completed. Weigh the goal against lastToolResult and lastAssistantText. Choose continue whenever the goal is not yet satisfied or more work remains.''"

definition jev_stop_criteria :: criteria where
  "jev_stop_criteria =
     [(js ''stop'', js ''The objective is satisfied and the run should end''),
      (jev_continue_choice, js ''More work is needed; continue the run'')]"

text \<open>The options every host classifier is created with; \<open>fetch\<close> is the default one.\<close>

definition classifier_options ::
  "jev_fetch \<Rightarrow> jstring option \<Rightarrow> jstring option attempt option \<Rightarrow> jstring option
   \<Rightarrow> jstring list \<Rightarrow> jstring \<Rightarrow> criteria \<Rightarrow> bool option \<Rightarrow> open_router_options" where
  "classifier_options fetch key resolver model tools instructions crit uncertain =
     \<lparr>oo_api_key = nonblank key, oo_resolver = resolver, oo_model = nonblank model, oo_timeout = None,
      oo_fetch = fetch, oo_tools = tools, oo_instructions = Some instructions, oo_criteria = Some crit,
      oo_uncertain = uncertain\<rparr>"

definition router_choices :: "jev_router_options \<Rightarrow> environment \<Rightarrow> jstring list" where
  "router_choices opts env =
     jev_retry_choice # (case ro_tools opts of Some ts \<Rightarrow> ts | None \<Rightarrow> configured_tools env)"

definition router_classifier :: "jev_fetch \<Rightarrow> jev_router_options \<Rightarrow> environment \<Rightarrow> environment \<Rightarrow> jev_classifier" where
  "router_classifier fetch opts env process_env =
     (case ro_classifier opts of
        Some c \<Rightarrow> c
      | None \<Rightarrow> open_router_classifier
          (classifier_options fetch (ro_api_key opts) (ro_resolver opts) (ro_model opts)
             (router_choices opts env) jev_instructions jev_criteria None) process_env)"

definition or_default :: "'a option \<Rightarrow> 'a \<Rightarrow> 'a" where
  "or_default v d = (case v of Some x \<Rightarrow> x | None \<Rightarrow> d)"

definition router_gate :: "jev_router_options \<Rightarrow> environment \<Rightarrow> jev_gate_options" where
  "router_gate opts env =
     \<lparr>go_min_confidence = or_default (ro_min_confidence opts) default_jev_min_confidence,
      go_allowed = router_choices opts env,
      go_min_probability = Some (or_default (ro_min_probability opts) jev_min_probability),
      go_max_entropy = Some (or_default (ro_max_entropy opts) jev_max_entropy)\<rparr>"

text \<open>\<open>createJevPreTurnRouter\<close>: the returned router, applied to the transcript and the turn index.\<close>

definition jev_pre_turn_router ::
  "jev_classifier \<Rightarrow> jev_router_options \<Rightarrow> environment \<Rightarrow> transcript \<Rightarrow> nat \<Rightarrow> pre_turn_reflex option" where
  "jev_pre_turn_router classifier opts env ms turn =
     (case classifier (build_jev_state ms turn) of
        Threw \<Rightarrow> None
      | Got decision \<Rightarrow>
          (case evaluate_jev_decision decision (router_gate opts env) of
             None \<Rightarrow> None
           | Some d \<Rightarrow>
               if jd_action d \<noteq> ExecuteTool then None
               else (case jd_tool d of
                       None \<Rightarrow> None
                     | Some t \<Rightarrow>
                         if t = [] then None
                         else if t = jev_retry_choice then derive_last_tool_call ms
                         else Some \<lparr>rx_tool = t, rx_args = Some (JObj [])\<rparr>)))"

definition host_stop_gate ::
  "jev_fetch \<Rightarrow> jev_router_options \<Rightarrow> environment \<Rightarrow> jev_state \<Rightarrow> bool" where
  "host_stop_gate fetch opts process_env =
     jev_stop_gate
       (case ro_classifier opts of
          Some c \<Rightarrow> c
        | None \<Rightarrow> open_router_classifier
            (classifier_options fetch (ro_api_key opts) (ro_resolver opts) (ro_model opts)
               [jev_continue_choice] jev_stop_instructions jev_stop_criteria (Some False)) process_env)
       \<lparr>go_min_confidence = or_default (ro_min_confidence opts) default_jev_min_confidence,
        go_allowed = [], go_min_probability = None, go_max_entropy = None\<rparr>"

section \<open>The spawn admission gate\<close>

datatype jev_spawn_verdict = VDelegate | VInline | VRedundant | VUnknown

definition jev_delegate_choice :: jstring where "jev_delegate_choice = js ''DELEGATE_SANDBOX''"
definition jev_inline_choice :: jstring where "jev_inline_choice = js ''EXECUTE_INLINE''"
definition jev_reject_choice :: jstring where "jev_reject_choice = js ''REJECT_REDUNDANT''"

definition jev_spawn_choices :: "jstring list" where
  "jev_spawn_choices = [jev_delegate_choice, jev_inline_choice, jev_reject_choice]"

definition is_jev_spawn_gate_enabled :: "environment \<Rightarrow> bool" where
  "is_jev_spawn_gate_enabled env = truthy_flag (env (js ''PRIME_AGENT_JEV_SPAWN_GATE''))"

definition verdict_for_decision :: "jev_decision option \<Rightarrow> jev_spawn_verdict" where
  "verdict_for_decision decision =
     (case decision of
        None \<Rightarrow> VUnknown
      | Some d \<Rightarrow>
          if jd_action d \<noteq> ExecuteTool then VUnknown
          else if jd_tool d = Some jev_delegate_choice then VDelegate
          else if jd_tool d = Some jev_inline_choice then VInline
          else if jd_tool d = Some jev_reject_choice then VRedundant
          else VUnknown)"

text \<open>The message of the error thrown, if any.\<close>

definition assert_delegation_allowed :: "jev_spawn_verdict \<Rightarrow> jstring option" where
  "assert_delegation_allowed v =
     (case v of
        VInline \<Rightarrow> Some (js ''DELEGATION_REJECTED: Task can be completed inline using local tools.'')
      | VRedundant \<Rightarrow> Some (js ''DELEGATION_REJECTED: Task is redundant; resolve it inline.'')
      | _ \<Rightarrow> None)"

definition spawn_state :: "jstring option \<Rightarrow> jstring \<Rightarrow> jev_state" where
  "spawn_state goal task =
     (bare_state 0)\<lparr>js_goal := nonblank goal, js_last_tool := Some (js ''rlm.spawn''),
       js_last_text := Some (js ''Prospective subtask: '' @ task)\<rparr>"

definition spawn_gate_options :: "real option \<Rightarrow> jev_gate_options" where
  "spawn_gate_options min_confidence =
     \<lparr>go_min_confidence = or_default min_confidence default_jev_min_confidence,
      go_allowed = jev_spawn_choices, go_min_probability = Some jev_min_probability,
      go_max_entropy = Some jev_max_entropy\<rparr>"

definition jev_spawn_gate ::
  "jev_classifier \<Rightarrow> real option \<Rightarrow> jstring option \<Rightarrow> jstring \<Rightarrow> jev_spawn_verdict" where
  "jev_spawn_gate classifier min_confidence goal task =
     (case classifier (spawn_state goal task) of
        Threw \<Rightarrow> VUnknown
      | Got decision \<Rightarrow>
          verdict_for_decision (evaluate_jev_decision decision (spawn_gate_options min_confidence)))"

definition spawn_instructions :: jstring where
  "spawn_instructions = js ''Decide whether this prospective rlm.spawn subtask needs its own isolated sandbox, or whether the parent can resolve it inline with a simple read/grep/bash. Prefer DELEGATE_SANDBOX when the subtask needs isolated state, its own long-running execution, or independent verification. Choose EXECUTE_INLINE for trivial local work. Choose REJECT_REDUNDANT when the work is already done or adds no independent value.''"

definition spawn_criteria :: criteria where
  "spawn_criteria =
     [(jev_delegate_choice, js ''The subtask needs an isolated sandbox, independent state, or long-running execution''),
      (jev_inline_choice, js ''The subtask is trivial local work the parent can run directly''),
      (jev_reject_choice, js ''The subtask is redundant with work already done or adds no value'')]"

definition spawn_classifier ::
  "jev_fetch \<Rightarrow> jstring option \<Rightarrow> jstring option attempt option \<Rightarrow> jstring option \<Rightarrow> environment \<Rightarrow> jev_classifier" where
  "spawn_classifier fetch key resolver model process_env =
     open_router_classifier
       (classifier_options fetch key resolver model jev_spawn_choices spawn_instructions spawn_criteria None)
       process_env"

section \<open>Entropy\<close>

lemma entropy_term_nonpos:
  fixes p :: real
  assumes "0 < p" "p \<le> 1"
  shows "p * log 2 p \<le> 0"
  using assms by (intro mult_nonneg_nonpos) simp_all

lemma entropy_of_nonneg:
  assumes "\<And>v. v \<in> set vs \<Longrightarrow> 0 < v"
  shows "0 \<le> entropy_of vs"
proof -
  have "sum_list (map (\<lambda>v. v / sum_list vs * log 2 (v / sum_list vs)) vs) \<le> 0"
  proof (rule sum_list_nonpos)
    fix x
    assume "x \<in> set (map (\<lambda>v. v / sum_list vs * log 2 (v / sum_list vs)) vs)"
    then obtain v where v: "v \<in> set vs" "x = v / sum_list vs * log 2 (v / sum_list vs)" by auto
    have "v \<le> sum_list vs"
      using v(1) assms by (intro member_le_sum_list) (auto intro: less_imp_le)
    with assms [OF v(1)] have "0 < v / sum_list vs" "v / sum_list vs \<le> 1" by (simp_all add: field_simps)
    then show "x \<le> 0" unfolding v(2) by (rule entropy_term_nonpos)
  qed
  then show ?thesis by (simp add: entropy_of_def)
qed

lemma shannon_entropy_nonneg: "shannon_entropy ps = Some e \<Longrightarrow> 0 \<le> e"
  by (auto simp: shannon_entropy_def Let_def split: if_splits intro!: entropy_of_nonneg)

lemma with_entropy_fields [simp]:
  "jd_action (with_entropy a act tool c) = act"
  "jd_tool (with_entropy a act tool c) = tool"
  "jd_confidence (with_entropy a act tool c) = Fin c"
  by (simp_all add: with_entropy_def)

lemma with_entropy_entropy:
  "jd_entropy (with_entropy a act tool c) = Some e \<Longrightarrow> \<exists>x. e = Fin x \<and> 0 \<le> x"
  by (auto simp: with_entropy_def split: bind_splits dest: shannon_entropy_nonneg)

definition sound_decision :: "jstring list \<Rightarrow> jev_decision \<Rightarrow> bool" where
  "sound_decision tools d \<longleftrightarrow>
     (\<exists>c. jd_confidence d = Fin c)
     \<and> (case jd_tool d of
          None \<Rightarrow> jd_action d = StopRun \<or> jd_action d = Uncertain
        | Some t \<Rightarrow> jd_action d = ExecuteTool \<and> t \<in> set tools)
     \<and> (case jd_entropy d of None \<Rightarrow> True | Some e \<Rightarrow> (\<exists>x. e = Fin x \<and> 0 \<le> x))"

lemma to_jev_decision_sound: "to_jev_decision a tools = Some d \<Longrightarrow> sound_decision tools d"
  by (auto simp: to_jev_decision_def sound_decision_def dest: with_entropy_entropy
      split: option.splits if_splits)

section \<open>The scanned state\<close>

definition tool_results :: "transcript \<Rightarrow> tool_result list" where
  "tool_results ms = List.map_filter (\<lambda>m. case m of ToolResult r \<Rightarrow> Some r | _ \<Rightarrow> None) ms"

lemma tool_results_simps [simp]:
  "tool_results [] = []"
  "tool_results (ToolResult r # ms) = r # tool_results ms"
  "\<not> is_tool_result m \<Longrightarrow> tool_results (m # ms) = tool_results ms"
  by (auto simp: tool_results_def List.map_filter_def split: message.splits)

lemma tool_results_append [simp]: "tool_results (ms @ ns) = tool_results ms @ tool_results ns"
  by (simp add: tool_results_def List.map_filter_def)

lemma takeWhile_rev_all: "list_all P xs \<Longrightarrow> takeWhile P (rev xs) = rev xs"
  by (simp add: list_all_iff takeWhile_eq_all_conv)

lemma scan_failures:
  "sc_failures (fold scan_message ms s) =
     (if list_all tr_error (tool_results ms) then sc_failures s + length (tool_results ms)
      else length (takeWhile tr_error (rev (tool_results ms))))"
proof (induction ms rule: rev_induct)
  case (snoc m ms)
  then show ?case
    by (cases m) (auto simp: Let_def takeWhile_rev_all)
qed simp

lemma scan_error: "0 < sc_failures (fold scan_message ms scan_start) \<or> sc_error (fold scan_message ms scan_start) = None"
proof (induction ms rule: rev_induct)
  case (snoc m ms)
  then show ?case by (cases m) (auto simp: Let_def)
qed (simp add: scan_start_def)

lemma trailing_failures:
  "js_failures (build_jev_state ms turn) = length (takeWhile tr_error (rev (tool_results ms)))"
proof (cases "list_all tr_error (tool_results ms)")
  case True
  then show ?thesis
    by (simp add: build_jev_state_def Let_def scan_failures scan_start_def takeWhile_rev_all)
next
  case False
  then show ?thesis by (simp add: build_jev_state_def Let_def scan_failures)
qed

lemma last_call_rev_Some:
  "last_call_rev ms = Some r \<Longrightarrow>
     \<exists>m c. Assistant m \<in> set ms \<and> c \<in> set (tool_calls (am_content m)) \<and> rx_tool r = call_name c
       \<and> rx_args r = Some (call_args c)"
proof (induction ms rule: last_call_rev.induct)
  case (2 m ms)
  then show ?case
    by (cases "tool_calls (am_content m)") (fastforce simp: first_call_def)+
qed auto

lemma last_call_rev_results [simp]: "last_call_rev (map ToolResult rs @ ms) = last_call_rev ms"
  by (induction rs) simp_all

section \<open>Properties\<close>

text \<open>
  The spawn gate rejects a delegation exactly when the classifier answered with a decision to
  run the inline or the redundant choice, of finite confidence, that reaches the confidence floor or
  passes the concentrated-entropy bar; anything else, errors included, permits the spawn.
\<close>

theorem spawn_gate_rejects_iff_decisive:
  "assert_delegation_allowed (jev_spawn_gate classifier mc goal task) \<noteq> None \<longleftrightarrow>
     (\<exists>d x. classifier (spawn_state goal task) = Got (Some d) \<and> jd_action d = ExecuteTool
        \<and> jd_tool d \<in> {Some jev_inline_choice, Some jev_reject_choice} \<and> jd_confidence d = Fin x
        \<and> (or_default mc default_jev_min_confidence \<le> x \<or> meets_entropy_bar d (spawn_gate_options mc)))"
proof (cases "classifier (spawn_state goal task)")
  case Threw
  then show ?thesis by (simp add: jev_spawn_gate_def assert_delegation_allowed_def)
next
  case (Got dec)
  let ?o = "spawn_gate_options mc"
  have rej: "assert_delegation_allowed (verdict_for_decision v) \<noteq> None \<longleftrightarrow>
      (\<exists>d. v = Some d \<and> jd_action d = ExecuteTool \<and> jd_tool d \<in> {Some jev_inline_choice, Some jev_reject_choice})" for v
    by (auto simp: assert_delegation_allowed_def verdict_for_decision_def jev_delegate_choice_def
        jev_inline_choice_def jev_reject_choice_def split: option.splits)
  have choices: "t \<noteq> [] \<and> t \<in> set (go_allowed ?o)" if "t = jev_inline_choice \<or> t = jev_reject_choice" for t
    using that by (auto simp: spawn_gate_options_def jev_spawn_choices_def jev_inline_choice_def jev_reject_choice_def)
  have "assert_delegation_allowed (jev_spawn_gate classifier mc goal task) \<noteq> None \<longleftrightarrow>
      (\<exists>d. dec = Some d \<and> decisive d ?o \<and> jd_action d = ExecuteTool
         \<and> jd_tool d \<in> {Some jev_inline_choice, Some jev_reject_choice})"
    using choices unfolding jev_spawn_gate_def Got attempt.case rej evaluate_iff by auto
  also have "\<dots> \<longleftrightarrow> (\<exists>d x. dec = Some d \<and> jd_action d = ExecuteTool
        \<and> jd_tool d \<in> {Some jev_inline_choice, Some jev_reject_choice} \<and> jd_confidence d = Fin x
        \<and> (or_default mc default_jev_min_confidence \<le> x \<or> meets_entropy_bar d ?o))"
    by (auto simp: decisive_def spawn_gate_options_def)
  finally show ?thesis by (simp add: Got)
qed

text \<open>
  Every reflex of the pre-turn router is derivable: it re-runs a tool call some assistant
  message of the transcript made, with that call's own arguments, or it runs a configured tool with
  no arguments. The router never makes up arguments.
\<close>

theorem router_reflexes_are_derivable:
  assumes "jev_pre_turn_router classifier opts env ms turn = Some r"
  shows "(\<exists>m c. Assistant m \<in> set ms \<and> c \<in> set (tool_calls (am_content m)) \<and> rx_tool r = call_name c
            \<and> rx_args r = Some (call_args c))
    \<or> rx_tool r \<in> set (or_default (ro_tools opts) (configured_tools env)) \<and> rx_args r = Some (JObj [])"
proof -
  from assms obtain dec where c: "classifier (build_jev_state ms turn) = Got dec"
    by (auto simp: jev_pre_turn_router_def split: attempt.splits)
  from assms c obtain d where d: "evaluate_jev_decision dec (router_gate opts env) = Some d"
    by (auto simp: jev_pre_turn_router_def split: option.splits)
  from assms c d have x: "jd_action d = ExecuteTool"
    by (auto simp: jev_pre_turn_router_def split: if_splits)
  with d obtain t where t: "jd_tool d = Some t" "t \<noteq> []" "t \<in> set (router_choices opts env)"
    by (auto simp: evaluate_iff router_gate_def)
  have r: "(if t = jev_retry_choice then derive_last_tool_call ms else Some \<lparr>rx_tool = t, rx_args = Some (JObj [])\<rparr>) = Some r"
    using assms c d x t by (simp add: jev_pre_turn_router_def)
  show ?thesis
  proof (cases "t = jev_retry_choice")
    case True
    with r show ?thesis by (auto simp: derive_last_tool_call_def dest!: last_call_rev_Some)
  next
    case False
    with r t(3) show ?thesis by (auto simp: router_choices_def or_default_def split: option.splits)
  qed
qed

theorem router_reflexes_are_derivable_witness:
  "jev_pre_turn_router (\<lambda>st. Got (Some \<lparr>jd_action = ExecuteTool, jd_tool = Some jev_retry_choice,
       jd_confidence = Fin 1, jd_entropy = None, jd_top = None\<rparr>))
     \<lparr>ro_tools = Some [], ro_classifier = None, ro_api_key = None, ro_resolver = None, ro_model = None,
      ro_min_confidence = None, ro_min_probability = None, ro_max_entropy = None\<rparr> (\<lambda>n. None)
     [assistant_msg [call_block (js ''a'') (js ''read'') JNull] ToolUse] 1
     = Some \<lparr>rx_tool = js ''read'', rx_args = Some JNull\<rparr>
   \<and> (\<exists>m c. Assistant m \<in> set [assistant_msg [call_block (js ''a'') (js ''read'') JNull] ToolUse]
        \<and> c \<in> set (tool_calls (am_content m)) \<and> call_name c = js ''read'')"
    (is "jev_pre_turn_router ?c ?o ?e ?ms 1 = Some ?r \<and> _")
proof -
  have r: "jev_pre_turn_router ?c ?o ?e ?ms 1 = Some ?r"
    by (simp add: jev_pre_turn_router_def evaluate_jev_decision_def router_gate_def router_choices_def
        or_default_def default_jev_min_confidence_def jev_retry_choice_def derive_last_tool_call_def
        first_call_def sample_defs)
  from router_reflexes_are_derivable [OF r]
  have "\<exists>m c. Assistant m \<in> set ?ms \<and> c \<in> set (tool_calls (am_content m)) \<and> call_name c = js ''read''"
    unfolding or_default_def by (simp del: js_Cons js_Nil) metis
  with r show ?thesis by blast
qed

text \<open>
  The failure count the classifier sees is the number of failed tool results at the end of the
  transcript, whatever messages stand between them, and a transcript
  that does not end in a failed result carries neither error text nor an error category.
\<close>

theorem failures_counted_from_the_end:
  "js_failures (build_jev_state ms turn) = length (takeWhile tr_error (rev (tool_results ms)))
   \<and> (0 < js_failures (build_jev_state ms turn)
      \<or> js_last_error (build_jev_state ms turn) = None
        \<and> js_category (build_jev_state ms turn) = Some NoneCategory)"
proof (rule conjI [OF trailing_failures])
  show "0 < js_failures (build_jev_state ms turn)
      \<or> js_last_error (build_jev_state ms turn) = None
        \<and> js_category (build_jev_state ms turn) = Some NoneCategory"
    using scan_error [of ms] by (auto simp: build_jev_state_def Let_def nonblank_def classify_jev_error_def)
qed

text \<open>
  After a message with several calls the router re-runs the first of them, while the state the
  classifier judged names the tool of the last result: the two differ in a parallel batch.
\<close>

theorem retry_reruns_the_first_call:
  assumes "tool_calls (am_content m) = c # cs"
  shows "derive_last_tool_call (ms @ Assistant m # map ToolResult (rs @ [r]))
           = Some \<lparr>rx_tool = call_name c, rx_args = Some (call_args c)\<rparr>
    \<and> js_last_tool (build_jev_state (ms @ Assistant m # map ToolResult (rs @ [r])) turn) = nonblank (Some (tr_tool r))"
proof -
  have "last_call_rev (ToolResult r # map ToolResult (rev rs) @ Assistant m # rev ms) =
      Some \<lparr>rx_tool = call_name c, rx_args = Some (call_args c)\<rparr>"
    using assms by (simp add: first_call_def)
  then have "derive_last_tool_call (ms @ Assistant m # map ToolResult (rs @ [r])) =
      Some \<lparr>rx_tool = call_name c, rx_args = Some (call_args c)\<rparr>"
    by (simp add: derive_last_tool_call_def rev_map)
  then show ?thesis by (simp add: build_jev_state_def Let_def)
qed

theorem retry_reruns_the_first_call_witness:
  "let m = \<lparr>am_content = [call_block (js ''a'') (js ''read'') JNull, call_block (js ''b'') (js ''bash'') JNull],
              am_api = [], am_provider = [], am_model = [], am_response_model = None, am_response_id = None,
              am_diagnostics = None, am_usage = empty_usage, am_stop = ToolUse, am_stop_raw = None,
              am_error = None, am_time = 0\<rparr>;
       r = (\<lambda>i n e. \<lparr>tr_call_id = i, tr_tool = n, tr_content = [], tr_details = None, tr_error = e, tr_time = 0\<rparr>);
       ms = [] @ Assistant m # map ToolResult ([r (js ''a'') (js ''read'') False] @ [r (js ''b'') (js ''bash'') True])
   in map_option rx_tool (derive_last_tool_call ms) = Some (js ''read'')
      \<and> js_last_tool (build_jev_state ms 1) = Some (js ''bash'') \<and> js_failures (build_jev_state ms 1) = 1"
  unfolding Let_def
  by (subst retry_reruns_the_first_call [where c = "\<lparr>call_id = js ''a'', call_name = js ''read'', call_args = JNull, thought_signature = None\<rparr>"
        and cs = "[\<lparr>call_id = js ''b'', call_name = js ''bash'', call_args = JNull, thought_signature = None\<rparr>]", THEN conjunct1],
      simp add: call_block_def)
    (simp add: call_block_def build_jev_state_def Let_def scan_start_def nonblank_def)

text \<open>
  The decisions client fails safe: whatever the network, the environment and the resolver do,
  it returns no opinion or a decision of finite confidence that stops, is uncertain, or runs one of
  the tools it was given, with a non-negative entropy; it never throws and never delegates.
\<close>

theorem classifier_fails_safe:
  "open_router_classifier opts env st = Got None
   \<or> (\<exists>d. open_router_classifier opts env st = Got (Some d) \<and> sound_decision (oo_tools opts) d)"
  by (auto simp: open_router_classifier_def to_jev_decision_sound
      split: attempt.split option.split bind_split prod.split)

text \<open>
  A blank API key in the environment shadows the stored credential: the resolver is never
  asked and the classifier has no opinion.
\<close>

theorem blank_key_shadows_stored_credential:
  assumes "oo_api_key opts = None" "env openrouter_jev_api_key_env = Some k" "js_trim k = []"
  shows "open_router_classifier opts env st = Got None"
  using assms by (simp add: open_router_classifier_def env_api_key_def request_key_def coalesce_def)

theorem blank_key_shadows_stored_credential_witness:
  "open_router_classifier
     \<lparr>oo_api_key = None, oo_resolver = Some (Got (Some (js ''stored''))), oo_model = None, oo_timeout = None,
      oo_fetch = (\<lambda>rq. Threw), oo_tools = [], oo_instructions = None, oo_criteria = None, oo_uncertain = None\<rparr>
     (\<lambda>n. Some (js '' '')) (bare_state 0) = Got None"
  using blank_key_shadows_stored_credential [of
      "\<lparr>oo_api_key = None, oo_resolver = Some (Got (Some (js ''stored''))), oo_model = None, oo_timeout = None,
      oo_fetch = (\<lambda>rq. Threw), oo_tools = [], oo_instructions = None, oo_criteria = None, oo_uncertain = None\<rparr>"
      "\<lambda>n. Some (js '' '')" "js '' ''" "bare_state 0"]
  by (simp add: js_trim_def js_space_def)

end
