(* ===== verification/Deadline.thy ===== *)
theory Deadline
  imports JsValues
begin

text \<open>
  The idle deadline of RLM child runs (coding-agent/src/core/rlm-child-deadline.ts): the timeout read
  from the environment, the methods of \<open>RlmChildIdleDeadline\<close>, and the runs of one object among
  activity, disposal, the passing of time and the timer. The timer is Node's: a delay outside
  1 .. 2^31-1 ms counts as 1 ms, and a timer fires at its due time or later. \<open>sy_last\<close> is a history
  variable, the last activity that was accepted.
\<close>

definition rlm_child_idle_timeout_env :: jstring where
  "rlm_child_idle_timeout_env = js ''PRIME_AGENT_RLM_CHILD_IDLE_TIMEOUT_MS''"

definition resolve_rlm_child_idle_timeout_ms :: "(jstring \<Rightarrow> jstring option) \<Rightarrow> int" where
  "resolve_rlm_child_idle_timeout_ms env =
     (case env rlm_child_idle_timeout_env of
        None \<Rightarrow> 0
      | Some raw \<Rightarrow>
          if js_trim raw = [] then 0
          else (case js_number raw of
                  Fin q \<Rightarrow> if \<not> is_integer q \<or> q < 0 then 0 else \<lfloor>q\<rfloor>
                | _ \<Rightarrow> 0))"

section \<open>The object\<close>

record deadline =
  dl_timer :: "int option"
  dl_disposed :: bool
  dl_fired :: bool

definition new_deadline :: deadline where
  "new_deadline = \<lparr>dl_timer = None, dl_disposed = False, dl_fired = False\<rparr>"

definition node_delay :: "int \<Rightarrow> int" where
  "node_delay t = (if t < 1 \<or> 2147483647 < t then 1 else t)"

definition clear_timer :: "deadline \<Rightarrow> deadline" where
  "clear_timer d = (case dl_timer d of None \<Rightarrow> d | Some t \<Rightarrow> d\<lparr>dl_timer := None\<rparr>)"

text \<open>An activity: absent, or an object whose \<open>kind\<close> may be absent.\<close>

type_synonym activity = "jstring option option"

definition executing :: "activity \<Rightarrow> bool" where
  "executing a \<longleftrightarrow> a = Some (Some (js ''executing''))"

definition kick :: "int \<Rightarrow> int \<Rightarrow> activity \<Rightarrow> deadline \<Rightarrow> deadline" where
  "kick timeout now a d =
     (if dl_disposed d then d
      else
        let d' = clear_timer d in
        if executing a then d' else d'\<lparr>dl_timer := Some (now + node_delay timeout)\<rparr>)"

definition dispose :: "deadline \<Rightarrow> deadline" where
  "dispose d = clear_timer (d\<lparr>dl_disposed := True\<rparr>)"

definition timer_handler :: "deadline \<Rightarrow> deadline" where
  "timer_handler d = d\<lparr>dl_timer := None, dl_disposed := True, dl_fired := True\<rparr>"

section \<open>Runs\<close>

datatype deadline_event = Kick activity | Dispose | Tick int | Fire

record deadline_system =
  sy_now :: int
  sy_deadline :: deadline
  sy_calls :: "int list"
  sy_last :: "(int \<times> activity) option"

definition deadline_start :: deadline_system where
  "deadline_start = \<lparr>sy_now = 0, sy_deadline = new_deadline, sy_calls = [], sy_last = None\<rparr>"

inductive deadline_step :: "int \<Rightarrow> deadline_system \<Rightarrow> deadline_event \<Rightarrow> deadline_system \<Rightarrow> bool" where
  step_kick: "deadline_step timeout s (Kick a)
     (s\<lparr>sy_deadline := kick timeout (sy_now s) a (sy_deadline s),
        sy_last := (if dl_disposed (sy_deadline s) then sy_last s else Some (sy_now s, a))\<rparr>)"
| step_dispose: "deadline_step timeout s Dispose (s\<lparr>sy_deadline := dispose (sy_deadline s)\<rparr>)"
| step_tick: "0 < n \<Longrightarrow> deadline_step timeout s (Tick n) (s\<lparr>sy_now := sy_now s + n\<rparr>)"
| step_fire: "dl_timer (sy_deadline s) = Some due \<Longrightarrow> due \<le> sy_now s \<Longrightarrow>
     deadline_step timeout s Fire
       (s\<lparr>sy_deadline := timer_handler (sy_deadline s), sy_calls := sy_calls s @ [sy_now s]\<rparr>)"

inductive_cases step_kickE [elim]: "deadline_step timeout s (Kick a) s'"
inductive_cases step_disposeE [elim]: "deadline_step timeout s Dispose s'"
inductive_cases step_tickE [elim]: "deadline_step timeout s (Tick n) s'"
inductive_cases step_fireE [elim]: "deadline_step timeout s Fire s'"

inductive deadline_run :: "int \<Rightarrow> deadline_system \<Rightarrow> deadline_event list \<Rightarrow> deadline_system \<Rightarrow> bool" where
  run_nil: "deadline_run timeout s [] s"
| run_cons: "deadline_step timeout s e t \<Longrightarrow> deadline_run timeout t es u \<Longrightarrow> deadline_run timeout s (e # es) u"

inductive_simps run_nil_iff [simp]: "deadline_run timeout s [] s'"
inductive_simps run_cons_iff: "deadline_run timeout s (e # es) s'"

section \<open>The invariant\<close>

text \<open>
  A fired deadline is disposed and called back once; a disposed one has no timer; an armed timer was
  set by the last activity, which was not an execution.
\<close>

definition deadline_inv :: "int \<Rightarrow> deadline_system \<Rightarrow> bool" where
  "deadline_inv timeout s \<longleftrightarrow>
     length (sy_calls s) = (if dl_fired (sy_deadline s) then 1 else 0)
     \<and> (dl_fired (sy_deadline s) \<longrightarrow> dl_disposed (sy_deadline s))
     \<and> (dl_disposed (sy_deadline s) \<longrightarrow> dl_timer (sy_deadline s) = None)
     \<and> (\<forall>due. dl_timer (sy_deadline s) = Some due \<longrightarrow>
          (\<exists>t a. sy_last s = Some (t, a) \<and> \<not> executing a \<and> due = t + node_delay timeout))
     \<and> (\<forall>c\<in>set (sy_calls s). \<exists>t a. sy_last s = Some (t, a) \<and> \<not> executing a \<and> t + node_delay timeout \<le> c)"

lemma deadline_inv_start: "deadline_inv timeout deadline_start"
  by (simp add: deadline_inv_def deadline_start_def new_deadline_def)

lemma clear_timer_fields [simp]:
  "dl_timer (clear_timer d) = None" "dl_disposed (clear_timer d) = dl_disposed d" "dl_fired (clear_timer d) = dl_fired d"
  by (simp_all add: clear_timer_def split: option.split)

lemma deadline_inv_step:
  assumes "deadline_step timeout s e s'" "deadline_inv timeout s"
  shows "deadline_inv timeout s'"
  using assms
proof cases
  case (step_kick a)
  then show ?thesis
    using assms(2) by (cases "dl_disposed (sy_deadline s)") (auto simp: deadline_inv_def kick_def Let_def)
next
  case (step_fire due)
  then show ?thesis
    using assms(2) by (fastforce simp: deadline_inv_def timer_handler_def split: if_splits)
qed (use assms(2) in \<open>auto simp: deadline_inv_def dispose_def\<close>)

lemma deadline_inv_run: "deadline_run timeout s es s' \<Longrightarrow> deadline_inv timeout s \<Longrightarrow> deadline_inv timeout s'"
  by (induction rule: deadline_run.induct) (auto dest: deadline_inv_step)

lemma disposed_step:
  "deadline_step timeout s e s' \<Longrightarrow> deadline_inv timeout s \<Longrightarrow> dl_disposed (sy_deadline s) \<Longrightarrow>
     sy_calls s' = sy_calls s \<and> dl_disposed (sy_deadline s')"
  by (cases rule: deadline_step.cases)
    (auto simp: deadline_inv_def kick_def dispose_def timer_handler_def)

lemma disposed_run:
  "deadline_run timeout s es s' \<Longrightarrow> deadline_inv timeout s \<Longrightarrow> dl_disposed (sy_deadline s) \<Longrightarrow>
     sy_calls s' = sy_calls s"
proof (induction rule: deadline_run.induct)
  case (run_cons timeout s e t es u)
  from disposed_step [OF run_cons(1,4,5)] deadline_inv_step [OF run_cons(1,4)] run_cons.IH
  show ?case by simp
qed simp

lemma deadline_run_append:
  "deadline_run timeout s (es @ fs) u \<longleftrightarrow> (\<exists>t. deadline_run timeout s es t \<and> deadline_run timeout t fs u)"
  by (induction es arbitrary: s) (auto simp: run_cons_iff)

section \<open>A run beyond the timer's range\<close>

lemma long_timer_run:
  assumes "2147483647 < timeout" "\<not> executing a"
  shows "\<exists>s. deadline_run timeout deadline_start [Kick a, Tick 1, Fire] s \<and> sy_calls s = [1]"
proof -
  let ?d = "\<lparr>dl_timer = Some 1, dl_disposed = False, dl_fired = False\<rparr>"
  let ?k = "\<lparr>sy_now = 0, sy_deadline = ?d, sy_calls = [], sy_last = Some (0, a)\<rparr>"
  have k: "deadline_step timeout deadline_start (Kick a) ?k"
    using deadline_step.step_kick [of timeout deadline_start a] assms
    by (simp add: deadline_start_def kick_def new_deadline_def clear_timer_def node_delay_def Let_def)
  have t: "deadline_step timeout ?k (Tick 1) (?k\<lparr>sy_now := 1\<rparr>)"
    using deadline_step.step_tick [of 1 timeout ?k] by simp
  have f: "deadline_step timeout (?k\<lparr>sy_now := 1\<rparr>) Fire
      (?k\<lparr>sy_now := 1, sy_deadline := timer_handler ?d, sy_calls := [1]\<rparr>)"
    using deadline_step.step_fire [of "?k\<lparr>sy_now := 1\<rparr>" 1 timeout] by simp
  from k t f have "deadline_run timeout deadline_start [Kick a, Tick 1, Fire]
      (?k\<lparr>sy_now := 1, sy_deadline := timer_handler ?d, sy_calls := [1]\<rparr>)"
    by (blast intro: deadline_run.intros)
  then show ?thesis by (rule exI [of _ "?k\<lparr>sy_now := 1, sy_deadline := timer_handler ?d, sy_calls := [1]\<rparr>", OF conjI]) simp
qed

section \<open>Properties\<close>


text \<open>
  Once disposed, the deadline never calls back, whatever activity, time or timers follow.
\<close>

theorem disposed_deadline_is_silent:
  assumes "deadline_run timeout deadline_start (es @ Dispose # fs) s"
  shows "\<exists>t. deadline_run timeout deadline_start es t \<and> sy_calls s = sy_calls t"
proof -
  from assms obtain t u where t: "deadline_run timeout deadline_start es t" "deadline_step timeout t Dispose u"
    "deadline_run timeout u fs s"
    by (auto simp: deadline_run_append run_cons_iff)
  from t(2) have u: "dl_disposed (sy_deadline u)" "sy_calls u = sy_calls t" by (auto simp: dispose_def)
  have "deadline_inv timeout u"
    by (rule deadline_inv_step [OF t(2) deadline_inv_run [OF t(1) deadline_inv_start]])
  from disposed_run [OF t(3) this u(1)] u(2) t(1) show ?thesis by auto
qed

text \<open>
  A deadline above 2^31-1 ms, about 25 days, fires one millisecond after the first activity:
  the value is accepted from the environment but is beyond what the timer can wait.
\<close>

theorem long_deadline_fires_at_once:
  assumes "2147483647 < timeout" "\<not> executing a"
  shows "\<exists>s. deadline_run timeout deadline_start [Kick a, Tick 1, Fire] s \<and> sy_calls s = [1]"
  by (rule long_timer_run [OF assms])

theorem long_deadline_fires_at_once_witness:
  "\<exists>s. deadline_run 3000000000 deadline_start [Kick None, Tick 1, Fire] s \<and> sy_calls s = [1]"
  by (rule long_deadline_fires_at_once) (simp_all add: executing_def)

text \<open>A run that fires, for the other two.\<close>

lemma sample_deadline_run:
  "deadline_run 3000000000 deadline_start ([Kick None, Tick 1] @ Dispose # [Tick 5])
     \<lparr>sy_now = 6, sy_deadline = \<lparr>dl_timer = None, dl_disposed = True, dl_fired = False\<rparr>, sy_calls = [],
      sy_last = Some (0, None)\<rparr>"
proof -
  let ?k = "\<lparr>sy_now = 0, sy_deadline = \<lparr>dl_timer = Some 1, dl_disposed = False, dl_fired = False\<rparr>,
     sy_calls = [], sy_last = Some (0, None)\<rparr>"
  have "deadline_step 3000000000 deadline_start (Kick None) ?k"
    using deadline_step.step_kick [of 3000000000 deadline_start None]
    by (simp add: deadline_start_def kick_def new_deadline_def clear_timer_def node_delay_def executing_def Let_def)
  moreover have "deadline_step 3000000000 ?k (Tick 1) (?k\<lparr>sy_now := 1\<rparr>)"
    using deadline_step.step_tick [of 1 3000000000 ?k] by simp
  moreover have "deadline_step 3000000000 (?k\<lparr>sy_now := 1\<rparr>) Dispose
     \<lparr>sy_now = 1, sy_deadline = \<lparr>dl_timer = None, dl_disposed = True, dl_fired = False\<rparr>, sy_calls = [],
      sy_last = Some (0, None)\<rparr>" (is "deadline_step _ _ _ ?e")
    using deadline_step.step_dispose [of 3000000000 "?k\<lparr>sy_now := 1\<rparr>"] by (simp add: dispose_def clear_timer_def)
  moreover have "deadline_step 3000000000 ?e (Tick 5) (?e\<lparr>sy_now := 6\<rparr>)"
    using deadline_step.step_tick [of 5 3000000000 ?e] by simp
  ultimately show ?thesis by (auto intro!: deadline_run.intros)
qed


theorem disposed_deadline_is_silent_witness:
  "\<exists>t. deadline_run 3000000000 deadline_start [Kick None, Tick 1] t \<and> [] = sy_calls t"
  using disposed_deadline_is_silent [OF sample_deadline_run] by simp

end
