(* ===== verification/LlmText.thy ===== *)
theory LlmText
  imports Messages "HOL-Library.List_Lexorder"
begin

text \<open>
  How messages become the text of a prompt: \<open>convertToLlm\<close> and the rendering of bash output
  (coding-agent/src/core/messages.ts), and the serialization of a conversation for the summarizer with
  its file lists (compaction/utils.ts). A Set of paths is a list without repetitions, in insertion
  order; \<open>sort\<close> on strings compares code units, which is the lexicographic order of the lists.
\<close>

definition lines_of :: "jstring list \<Rightarrow> jstring" where
  "lines_of ls = join_with [newline] ls"

section \<open>Bash output\<close>

definition backtick :: code_unit where "backtick = 96"

fun longest_run :: "code_unit \<Rightarrow> nat \<Rightarrow> nat \<Rightarrow> jstring \<Rightarrow> nat" where
  "longest_run c cur best [] = max cur best"
| "longest_run c cur best (u # us) =
     (if u = c then longest_run c (Suc cur) best us else longest_run c 0 (max cur best) us)"

definition fence_for :: "jstring \<Rightarrow> jstring" where
  "fence_for output = replicate (max 3 (longest_run backtick 0 0 output + 1)) backtick"

definition bash_output_to_text :: "bash_execution \<Rightarrow> jstring" where
  "bash_output_to_text m =
     (let body =
        (if be_output m \<noteq> []
         then fence_for (be_output m) @ newline # be_output m @ newline # fence_for (be_output m)
         else js ''(no output)'');
          status =
        (if be_cancelled m then newline # newline # js ''(command cancelled)''
         else (case be_exit_code m of
                 Some c \<Rightarrow> if c \<noteq> 0 then newline # newline # js ''Command exited with code '' @ dec_int c else []
               | None \<Rightarrow> []));
          note =
        (if be_truncated m
         then (case be_full_output m of
                 Some p \<Rightarrow>
                   if p \<noteq> [] then newline # newline # js ''[Output truncated. Full output: '' @ p @ js '']''
                   else newline # newline # js ''[Output truncated.]''
               | None \<Rightarrow> newline # newline # js ''[Output truncated.]'')
         else [])
      in body @ status @ note)"

definition bash_execution_to_text :: "bash_execution \<Rightarrow> jstring" where
  "bash_execution_to_text m =
     js ''Ran '' @ backtick # be_command m @ backtick # newline # bash_output_to_text m"

section \<open>Conversion for the provider\<close>

definition compaction_summary_prefix :: jstring where
  "compaction_summary_prefix =
     lines_of [js ''[compaction-summary]'', [],
       js ''The conversation history before this point was compacted into the following summary:'', [],
       js ''<summary>'', []]"

definition compaction_summary_suffix :: jstring where
  "compaction_summary_suffix = newline # js ''</summary>''"

definition branch_summary_prefix :: jstring where
  "branch_summary_prefix =
     lines_of [js ''[branch-summary]'', [],
       js ''The following is a summary of a branch that this conversation came back from:'', [],
       js ''<summary>'', []]"

definition branch_summary_suffix :: jstring where
  "branch_summary_suffix = js ''</summary>''"

definition harness_digest_prefix :: jstring where
  "harness_digest_prefix =
     lines_of [js ''[harness-digest]'', [], js ''The persistent memories produced across this session so far:'', [],
       js ''<harness_state>'', []]"

definition harness_digest_suffix :: jstring where
  "harness_digest_suffix = newline # js ''</harness_state>''"

definition hidden_custom_types :: "jstring list" where
  "hidden_custom_types =
     [js ''session_slash_command'', js ''session_slash_command_result'', js ''compaction_outcome'',
      js ''mcp_connection_outcome'', js ''refinement_outcome'']"

definition user_text_message :: "jstring \<Rightarrow> int \<Rightarrow> message" where
  "user_text_message t time = User \<lparr>um_content = Parts [TextPart t None], um_time = time\<rparr>"

fun llm_message :: "message \<Rightarrow> message option" where
  "llm_message (BashExecution m) =
     (if be_exclude m then None else Some (user_text_message (bash_execution_to_text m) (be_time m)))"
| "llm_message (Custom m) =
     (if cm_type m \<in> set hidden_custom_types then None
      else Some (User \<lparr>um_content =
                         (case cm_content m of Plain t \<Rightarrow> Parts [TextPart t None] | Parts ps \<Rightarrow> Parts ps),
                       um_time = cm_time m\<rparr>))"
| "llm_message (BranchSummary m) =
     Some (user_text_message (branch_summary_prefix @ bs_summary m @ branch_summary_suffix) (bs_time m))"
| "llm_message (CompactionSummary m) =
     (let digest = (case cs_digest m of
                      Some d \<Rightarrow> if d \<noteq> [] then harness_digest_prefix @ d @ harness_digest_suffix @ [newline, newline] else []
                    | None \<Rightarrow> [])
      in Some (user_text_message
           (digest @ compaction_summary_prefix @ cs_summary m @ compaction_summary_suffix) (cs_time m)))"
| "llm_message m = Some m"

definition convert_to_llm :: "message list \<Rightarrow> message list" where
  "convert_to_llm ms = List.map_filter llm_message ms"

section \<open>File operations\<close>

record file_operations =
  fo_read :: "jstring list"
  fo_written :: "jstring list"
  fo_edited :: "jstring list"

definition create_file_ops :: file_operations where
  "create_file_ops = \<lparr>fo_read = [], fo_written = [], fo_edited = []\<rparr>"

definition add_once :: "'a \<Rightarrow> 'a list \<Rightarrow> 'a list" where
  "add_once x xs = (if x \<in> set xs then xs else xs @ [x])"

definition add_edited :: "jstring \<Rightarrow> file_operations \<Rightarrow> file_operations" where
  "add_edited p f = (if p = [] then f else f\<lparr>fo_edited := add_once p (fo_edited f)\<rparr>)"

definition text_field :: "jstring \<Rightarrow> json \<Rightarrow> jstring" where
  "text_field k v =
     (case v of
        JObj es \<Rightarrow> (case map_of es k of Some (JStr s) \<Rightarrow> s | _ \<Rightarrow> [])
      | _ \<Rightarrow> [])"

definition call_file_ops :: "tool_call \<Rightarrow> file_operations \<Rightarrow> file_operations" where
  "call_file_ops c f =
     (if call_name c = js ''edit'' then add_edited (text_field (js ''path'') (call_args c)) f else f)"

definition result_diffs :: "json option \<Rightarrow> json list" where
  "result_diffs details =
     (case details of
        Some (JObj es) \<Rightarrow> (case map_of es (js ''diffs'') of Some (JArr ds) \<Rightarrow> ds | _ \<Rightarrow> [])
      | _ \<Rightarrow> [])"

definition extract_file_ops_from_tool_result :: "tool_result \<Rightarrow> file_operations \<Rightarrow> file_operations" where
  "extract_file_ops_from_tool_result m f =
     (if tr_tool m \<noteq> js ''ipython'' then f
      else fold (\<lambda>d. add_edited (text_field (js ''path'') d)) (result_diffs (tr_details m)) f)"

fun extract_file_ops_from_message :: "message \<Rightarrow> file_operations \<Rightarrow> file_operations" where
  "extract_file_ops_from_message (ToolResult m) f = extract_file_ops_from_tool_result m f"
| "extract_file_ops_from_message (Assistant m) f = fold call_file_ops (tool_calls (am_content m)) f"
| "extract_file_ops_from_message _ f = f"

definition file_list_max_entries :: nat where
  "file_list_max_entries = 200"

definition compute_file_lists :: "file_operations \<Rightarrow> jstring list \<times> jstring list" where
  "compute_file_lists f =
     (let modified = remdups (fo_edited f @ fo_written f) in
      (take file_list_max_entries (sort (filter (\<lambda>p. p \<notin> set modified) (fo_read f))),
       take file_list_max_entries (sort modified)))"

definition tagged :: "jstring \<Rightarrow> jstring list \<Rightarrow> jstring" where
  "tagged tag ps =
     js ''<'' @ tag @ js ''>'' @ newline # join_with [newline] ps @ newline # js ''</'' @ tag @ js ''>''"

definition format_file_operations :: "jstring list \<Rightarrow> jstring list \<Rightarrow> jstring" where
  "format_file_operations read_files modified_files =
     (let sections = (if read_files \<noteq> [] then [tagged (js ''read-files'') read_files] else [])
                     @ (if modified_files \<noteq> [] then [tagged (js ''modified-files'') modified_files] else [])
      in if sections = [] then [] else newline # newline # join_with [newline, newline] sections)"

section \<open>Serialization\<close>

definition tool_result_max_chars :: int where "tool_result_max_chars = 2000"
definition tool_result_tail_chars :: nat where "tool_result_tail_chars = 500"

text \<open>\<open>s.slice(0, n)\<close>: a negative end counts from the end of the string.\<close>

definition slice_to :: "int \<Rightarrow> jstring \<Rightarrow> jstring" where
  "slice_to n s = (if 0 \<le> n then take (nat n) s else take (length s - nat (- n)) s)"

definition elision_marker :: "jstring \<Rightarrow> jstring \<Rightarrow> jstring" where
  "elision_marker elided head_chars =
     js ''[... '' @ elided @ js '' characters truncated; first '' @ head_chars @ js '' and last ''
       @ dec_nat tool_result_tail_chars @ js '' kept ...]''"

definition truncate_for_summary :: "jstring \<Rightarrow> int \<Rightarrow> jstring" where
  "truncate_for_summary t max_chars =
     (if int (length t) \<le> max_chars then t
      else
        let marker_max = int (length (elision_marker (dec_nat (length t)) (dec_int max_chars)));
            head_chars = max_chars - int tool_result_tail_chars - marker_max - 4;
            elided = int (length t) - head_chars - int tool_result_tail_chars
        in slice_to head_chars t @ newline # newline
           # elision_marker (dec_int elided) (dec_int head_chars) @ newline # newline
           # drop (length t - tool_result_tail_chars) t)"

definition plain_text :: "part list \<Rightarrow> jstring" where
  "plain_text ps = concat (List.map_filter text_of_part ps)"

definition content_text :: "content \<Rightarrow> jstring" where
  "content_text c = (case c of Plain s \<Rightarrow> s | Parts ps \<Rightarrow> plain_text ps)"

definition render_args :: "json \<Rightarrow> jstring" where
  "render_args v =
     (case v of
        JObj es \<Rightarrow> join_with (js '', '') (map (\<lambda>(k, x). k @ js ''='' @ json_stringify x) es)
      | _ \<Rightarrow> [])"

text \<open>The local state: the parts so far, the index of each call id, and the count of calls.\<close>

record serializer =
  sz_parts :: "jstring list"
  sz_index :: "jstring \<rightharpoonup> nat"
  sz_count :: nat

definition push :: "jstring \<Rightarrow> serializer \<Rightarrow> serializer" where
  "push p z = z\<lparr>sz_parts := sz_parts z @ [p]\<rparr>"

fun serialize_calls :: "tool_call list \<Rightarrow> serializer \<Rightarrow> jstring list \<times> serializer" where
  "serialize_calls [] z = ([], z)"
| "serialize_calls (c # cs) z =
     (let n = sz_count z + 1;
          z' = z\<lparr>sz_count := n, sz_index := (sz_index z)(call_id c \<mapsto> n)\<rparr>;
          (rest, z'') = serialize_calls cs z'
      in ((js ''#'' @ dec_nat n @ js '' '' @ call_name c @ js ''('' @ render_args (call_args c) @ js '')'') # rest, z''))"

fun serialize_message :: "message \<Rightarrow> serializer \<Rightarrow> serializer" where
  "serialize_message (User m) z =
     (let c = content_text (um_content m) in if c \<noteq> [] then push (js ''[User]: '' @ c) z else z)"
| "serialize_message (Assistant m) z =
     (let texts = List.map_filter (\<lambda>b. case b of TextBlock t _ \<Rightarrow> Some t | _ \<Rightarrow> None) (am_content m);
          thinking = List.map_filter (\<lambda>b. case b of ThinkingBlock t _ _ \<Rightarrow> Some t | _ \<Rightarrow> None) (am_content m);
          (calls, z1) = serialize_calls (tool_calls (am_content m)) z;
          z2 = (if thinking \<noteq> [] then push (js ''[Assistant thinking]: '' @ join_with [newline] thinking) z1 else z1);
          z3 = (if texts \<noteq> [] then push (js ''[Assistant]: '' @ join_with [newline] texts) z2 else z2)
      in if calls \<noteq> [] then push (js ''[Assistant tool calls]: '' @ join_with (js ''; '') calls) z3 else z3)"
| "serialize_message (ToolResult m) z =
     (let c = plain_text (tr_content m) in
      if c = [] then z
      else
        let suffix = (case sz_index z (tr_call_id m) of None \<Rightarrow> [] | Some n \<Rightarrow> js '' #'' @ dec_nat n);
            label = js ''[Tool result ('' @ tr_tool m @ (if tr_error m then js '', error)'' else js '')'') @ suffix @ js '']''
        in push (label @ js '': '' @ truncate_for_summary c tool_result_max_chars) z)"
| "serialize_message _ z = z"

definition serialize_conversation :: "message list \<Rightarrow> jstring" where
  "serialize_conversation ms =
     join_with [newline, newline]
       (sz_parts (fold serialize_message ms \<lparr>sz_parts = [], sz_index = (\<lambda>_. None), sz_count = 0\<rparr>))"

section \<open>The fence\<close>

lemma longest_run_ge: "max cur best \<le> longest_run c cur best us"
proof (induction us arbitrary: cur best)
  case (Cons u us)
  from Cons.IH [of "Suc cur" best] Cons.IH [of 0 "max cur best"] show ?case by (auto simp: max_def split: if_splits)
qed simp

lemma longest_run_replicate: "cur + n \<le> longest_run c cur best (replicate n c @ post)"
proof (induction n arbitrary: cur)
  case 0
  show ?case using longest_run_ge [of cur best c post] by simp
next
  case (Suc n)
  from Suc.IH [of "Suc cur"] show ?case by simp
qed

lemma longest_run_infix: "n \<le> longest_run c cur best (pre @ replicate n c @ post)"
proof (induction pre arbitrary: cur best)
  case Nil
  show ?case using longest_run_replicate [of cur n c best post] by simp
next
  case (Cons u pre)
  then show ?case by simp
qed

lemma fence_not_inside: "output \<noteq> pre @ fence_for output @ post"
proof
  let ?n = "max 3 (longest_run backtick 0 0 output + 1)"
  assume "output = pre @ fence_for output @ post"
  then have "output = pre @ replicate ?n backtick @ post" by (simp only: fence_for_def)
  then have "?n \<le> longest_run backtick 0 0 output" using longest_run_infix by metis
  then show False by simp
qed

section \<open>The length of a truncated result\<close>

lemma length_dec_nat_mono: "m \<le> n \<Longrightarrow> length (dec_nat m) \<le> length (dec_nat n)"
proof (induction n arbitrary: m rule: dec_nat.induct)
  case (1 n)
  show ?case
  proof (cases "m < 10")
    case True
    then have "length (dec_nat m) = 1" by (simp add: dec_nat.simps [of m])
    moreover have "length (dec_nat n) \<noteq> 0" by simp
    ultimately show ?thesis by linarith
  next
    case False
    with 1(2) have "\<not> n < 10" "m div 10 \<le> n div 10" by (simp_all add: div_le_mono)
    with 1(1) False show ?thesis by (simp add: dec_nat.simps [of m] dec_nat.simps [of n])
  qed
qed

lemma length_dec_int_nonneg: "0 \<le> i \<Longrightarrow> length (dec_int i) = length (dec_nat (nat i))"
  by (simp add: dec_int_def)

lemma truncate_for_summary_le:
  assumes "int (length (elision_marker (dec_nat (length t)) (dec_int k))) \<le> k - int tool_result_tail_chars - 4"
    "int tool_result_tail_chars \<le> k"
  shows "int (length (truncate_for_summary t k)) \<le> k"
proof (cases "int (length t) \<le> k")
  case True
  then show ?thesis by (simp add: truncate_for_summary_def)
next
  case False
  define mm where "mm = int (length (elision_marker (dec_nat (length t)) (dec_int k)))"
  define h where "h = k - int tool_result_tail_chars - mm - 4"
  define el where "el = int (length t) - h - int tool_result_tail_chars"
  have h: "0 \<le> h" "h \<le> k" using assms(1) by (simp_all add: h_def mm_def)
  have el: "0 \<le> el" "el \<le> int (length t)" using False h assms(2) by (simp_all add: el_def h_def mm_def)
  have "length (dec_int el) \<le> length (dec_nat (length t))"
    using el length_dec_nat_mono [of "nat el" "length t"] by (simp add: length_dec_int_nonneg)
  moreover have "length (dec_int h) \<le> length (dec_int k)"
    using h length_dec_nat_mono [of "nat h" "nat k"] by (simp add: length_dec_int_nonneg)
  ultimately have m: "int (length (elision_marker (dec_int el) (dec_int h))) \<le> mm"
    by (simp add: elision_marker_def mm_def)
  have "truncate_for_summary t k = slice_to h t @ newline # newline
           # elision_marker (dec_int el) (dec_int h) @ newline # newline
           # drop (length t - tool_result_tail_chars) t"
    using False by (simp add: truncate_for_summary_def Let_def mm_def h_def el_def)
  moreover have "length (slice_to h t) \<le> nat h" using h(1) by (simp add: slice_to_def)
  ultimately show ?thesis using m h by (simp add: h_def)
qed

section \<open>Properties\<close>

text \<open>
  Bash output cannot close its own code block: the fence put around it is longer than every run
  of backticks in it, so it does not occur inside.
\<close>

theorem fence_never_occurs_in_output:
  "\<not> (\<exists>pre post. be_output m = pre @ fence_for (be_output m) @ post)"
  using fence_not_inside by blast

text \<open>
  A tool result enters the summarizer's prompt with at most 2000 characters, marker included,
  for every text shorter than 10^16 characters.
\<close>

theorem truncated_result_fits:
  assumes "length t < 10 ^ 16"
  shows "int (length (truncate_for_summary t tool_result_max_chars)) \<le> tool_result_max_chars"
proof (rule truncate_for_summary_le)
  have "length (dec_nat (length t)) \<le> 16" by (rule length_dec_nat_le [OF assms]) simp
  moreover have "length (dec_int 2000) \<le> 4"
    using length_dec_nat_le [of 2000 4] by (simp add: dec_int_def)
  moreover have "length (dec_nat 500) \<le> 3" using length_dec_nat_le [of 500 3] by simp
  ultimately show "int (length (elision_marker (dec_nat (length t)) (dec_int tool_result_max_chars)))
      \<le> tool_result_max_chars - int tool_result_tail_chars - 4"
    by (simp add: elision_marker_def tool_result_max_chars_def tool_result_tail_chars_def)
qed (simp add: tool_result_max_chars_def tool_result_tail_chars_def)

theorem truncated_result_fits_witness:
  "int (length (truncate_for_summary (replicate 5000 97) tool_result_max_chars)) \<le> tool_result_max_chars"
  by (rule truncated_result_fits) simp

end
