(* ===== verification/ProviderRetry.thy ===== *)
theory ProviderRetry
  imports Messages
begin

text \<open>
  The retry policy shared by every completion, and the bounded wait for a provider to recover
  (coding-agent/src/core/provider-retry.ts). The completion, the abort signal and the sleep are
  arguments, indexed by how often they were consulted; the loop also returns the delays it slept,
  which the source does not keep. Delays are exact numbers of milliseconds. The wording of an abort is
  left out.
\<close>

record retry_policy =
  rp_enabled :: bool
  rp_max_retries :: int
  rp_base_delay :: rat
  rp_max_retry_delay :: rat

definition default_provider_retry_policy :: retry_policy where
  "default_provider_retry_policy =
     \<lparr>rp_enabled = True, rp_max_retries = 3, rp_base_delay = 2000, rp_max_retry_delay = 60000\<rparr>"

section \<open>Reading a failure\<close>

definition json_field :: "jstring \<Rightarrow> json \<Rightarrow> json option" where
  "json_field k v = (case v of JObj es \<Rightarrow> map_of es k | _ \<Rightarrow> None)"

definition diagnostics_of :: "assistant_message \<Rightarrow> json list" where
  "diagnostics_of m = (case am_diagnostics m of Some ds \<Rightarrow> ds | None \<Rightarrow> [])"

definition has_type :: "jstring \<Rightarrow> json \<Rightarrow> bool" where
  "has_type t d \<longleftrightarrow> json_field (js ''type'') d = Some (JStr t)"

definition is_agent_lifecycle_failure :: "assistant_message \<Rightarrow> bool" where
  "is_agent_lifecycle_failure m = list_ex (has_type (js ''agent_lifecycle_failure'')) (diagnostics_of m)"

definition is_faux_provider_queue_exhausted :: "assistant_message \<Rightarrow> bool" where
  "is_faux_provider_queue_exhausted m \<longleftrightarrow>
     am_provider m = js ''faux'' \<and> am_error m = Some (js ''No more faux responses queued'')"

definition provider_stream_failure_details :: "assistant_message \<Rightarrow> json option" where
  "provider_stream_failure_details m =
     (case List.find (has_type (js ''provider_stream_failure'')) (diagnostics_of m) of
        None \<Rightarrow> None
      | Some d \<Rightarrow>
          (case json_field (js ''details'') d of
             Some (JObj es) \<Rightarrow> Some (JObj es)
           | Some (JArr vs) \<Rightarrow> Some (JArr vs)
           | _ \<Rightarrow> None))"

definition number_field :: "jstring \<Rightarrow> json option \<Rightarrow> rat option" where
  "number_field k v =
     (case Option.bind v (json_field k) of
        Some (JNum t) \<Rightarrow> (case js_number t of Fin q \<Rightarrow> Some q | _ \<Rightarrow> None)
      | _ \<Rightarrow> None)"

definition provider_stream_failure_kind :: "assistant_message \<Rightarrow> jstring option" where
  "provider_stream_failure_kind m =
     (case Option.bind (provider_stream_failure_details m) (json_field (js ''kind'')) of
        Some (JStr k) \<Rightarrow> Some k | _ \<Rightarrow> None)"

definition provider_stream_failure_retry_after_ms :: "assistant_message \<Rightarrow> rat option" where
  "provider_stream_failure_retry_after_ms m =
     (case number_field (js ''retryAfterMs'') (provider_stream_failure_details m) of
        Some q \<Rightarrow> if q \<ge> 0 then Some q else None | None \<Rightarrow> None)"

definition provider_stream_failure_status :: "assistant_message \<Rightarrow> rat option" where
  "provider_stream_failure_status m = number_field (js ''status'') (provider_stream_failure_details m)"

definition is_permanent_provider_failure_kind :: "jstring option \<Rightarrow> nat \<Rightarrow> rat option \<Rightarrow> bool" where
  "is_permanent_provider_failure_kind kind retries status =
     (if kind = Some (js ''invalid_request'') \<and> status = Some 404 then False
      else if kind \<in> {Some (js ''invalid_request''), Some (js ''refusal''), Some (js ''permission'')} then True
      else retries > 0 \<and> kind = Some (js ''auth''))"

section \<open>Delays\<close>

datatype retry_delay = Wait rat | ExceedsCap rat

definition max_timer_delay_ms :: rat where
  "max_timer_delay_ms = 2147483647"

definition provider_retry_delay :: "nat \<Rightarrow> rat option \<Rightarrow> retry_policy \<Rightarrow> retry_delay" where
  "provider_retry_delay attempt retry_after p =
     (let wait = Wait (min (max (rp_base_delay p * 2 ^ (attempt - 1))
                             (case retry_after of Some r \<Rightarrow> r | None \<Rightarrow> 0)) max_timer_delay_ms)
      in case retry_after of
           Some r \<Rightarrow> if rp_max_retry_delay p > 0 \<and> r > rp_max_retry_delay p then ExceedsCap r else wait
         | None \<Rightarrow> wait)"

section \<open>The loop\<close>

text \<open>What to do with the message of an attempt: return it, or sleep and try again.\<close>

datatype retry_verdict = Return assistant_message | SleepFor rat

definition judge_attempt :: "retry_policy \<Rightarrow> bool \<Rightarrow> nat \<Rightarrow> assistant_message \<Rightarrow> retry_verdict" where
  "judge_attempt p aborted retries m =
     (let max_retries = (if rp_enabled p then rp_max_retries p else 0) in
      if am_stop m \<noteq> ErrorStop then Return m
      else if aborted then Return (m\<lparr>am_stop := Aborted\<rparr>)
      else if int retries \<ge> max_retries \<or> is_agent_lifecycle_failure m \<or> is_faux_provider_queue_exhausted m
      then Return m
      else if is_permanent_provider_failure_kind (provider_stream_failure_kind m) retries
                (provider_stream_failure_status m) then Return m
      else (case provider_retry_delay (retries + 1) (provider_stream_failure_retry_after_ms m) p of
              ExceedsCap r \<Rightarrow> Return m
            | Wait d \<Rightarrow> SleepFor d))"

lemma judge_sleeps:
  "judge_attempt p aborted retries m = SleepFor d \<Longrightarrow>
     int retries < rp_max_retries p \<and> rp_enabled p \<and> am_stop m = ErrorStop \<and> \<not> aborted
     \<and> \<not> is_permanent_provider_failure_kind (provider_stream_failure_kind m) retries (provider_stream_failure_status m)
     \<and> provider_retry_delay (retries + 1) (provider_stream_failure_retry_after_ms m) p = Wait d"
  by (auto simp: judge_attempt_def Let_def split: if_splits retry_delay.splits)

function retry_loop ::
  "(nat \<Rightarrow> assistant_message attempt) \<Rightarrow> (nat \<Rightarrow> bool) \<Rightarrow> (nat \<Rightarrow> rat \<Rightarrow> bool) \<Rightarrow> retry_policy \<Rightarrow> nat
   \<Rightarrow> assistant_message attempt \<times> rat list" where
  "retry_loop attempt aborted sleep p retries =
     (case attempt retries of
        Threw \<Rightarrow> (Threw, [])
      | Got m \<Rightarrow>
          (case judge_attempt p (aborted retries) retries m of
             Return r \<Rightarrow> (Got r, [])
           | SleepFor d \<Rightarrow>
               if sleep retries d
               then (case retry_loop attempt aborted sleep p (Suc retries) of (r, ds) \<Rightarrow> (r, d # ds))
               else (Got (m\<lparr>am_stop := Aborted\<rparr>), [d])))"
  by pat_completeness auto
termination
  by (relation "measure (\<lambda>(attempt, aborted, sleep, p, retries). nat (rp_max_retries p - int retries))")
    (auto dest: judge_sleeps)

declare retry_loop.simps [simp del]

definition complete_with_provider_retry ::
  "(nat \<Rightarrow> assistant_message attempt) \<Rightarrow> (nat \<Rightarrow> bool) \<Rightarrow> (nat \<Rightarrow> rat \<Rightarrow> bool) \<Rightarrow> retry_policy option
   \<Rightarrow> assistant_message attempt \<times> rat list" where
  "complete_with_provider_retry attempt aborted sleep policy =
     retry_loop attempt aborted sleep (case policy of Some p \<Rightarrow> p | None \<Rightarrow> default_provider_retry_policy) 0"

section \<open>Waiting for recovery\<close>

datatype wait_class = QuotaWait | TransientWait | PermanentWait

definition provider_wait_class :: "jstring option \<Rightarrow> rat option \<Rightarrow> wait_class" where
  "provider_wait_class kind status =
     (if kind \<in> {Some (js ''rate_limit''), Some (js ''quota'')} then QuotaWait
      else if kind \<in> {Some (js ''server_error''), Some (js ''overloaded''), Some (js ''unknown'')} then TransientWait
      else if kind = Some (js ''invalid_request'') \<and> status = Some 404 then TransientWait
      else PermanentWait)"

record wait_policy =
  wp_enabled :: bool
  wp_base_delay :: rat
  wp_max_delay :: rat
  wp_max_attempts :: int
  wp_max_wait :: rat

definition default_provider_wait_policy :: wait_policy where
  "default_provider_wait_policy =
     \<lparr>wp_enabled = True, wp_base_delay = 1000, wp_max_delay = 300000, wp_max_attempts = 30, wp_max_wait = 900000\<rparr>"

datatype abort_reason = OutOfAttempts | OutOfTime | ResetTooFar
datatype wait_decision = WaitFor rat | GiveUp abort_reason

definition provider_wait_ping_delay :: "nat \<Rightarrow> wait_policy \<Rightarrow> rat" where
  "provider_wait_ping_delay attempt p =
     min (min (wp_base_delay p * 2 ^ (attempt - 1)) (wp_max_delay p)) max_timer_delay_ms"

text \<open>\<open>Math.round\<close> rounds halves up.\<close>

definition js_round :: "rat \<Rightarrow> rat" where
  "js_round q = of_int \<lfloor>q + 1 / 2\<rfloor>"

definition provider_wait_jitter :: "rat \<Rightarrow> rat \<Rightarrow> rat" where
  "provider_wait_jitter d r = max 0 (js_round (d * (3 / 4 + 1 / 2 * max 0 (min 1 r))))"

definition provider_wait_decision :: "nat \<Rightarrow> rat \<Rightarrow> rat option \<Rightarrow> wait_policy \<Rightarrow> rat \<Rightarrow> wait_decision" where
  "provider_wait_decision attempt elapsed reset p r =
     (if int attempt > wp_max_attempts p then GiveUp OutOfAttempts
      else
        let remaining = wp_max_wait p - elapsed in
        if remaining \<le> 0 then GiveUp OutOfTime
        else (case reset of
                Some t \<Rightarrow>
                  if t > remaining then GiveUp ResetTooFar
                  else WaitFor (min (max t 0) max_timer_delay_ms)
              | None \<Rightarrow>
                  WaitFor (min (provider_wait_jitter (provider_wait_ping_delay attempt p) r) remaining)))"

text \<open>A whole wait: the delays of successive pings, each round with its own reset time and random number.\<close>

fun wait_run :: "wait_policy \<Rightarrow> nat \<Rightarrow> rat \<Rightarrow> (rat option \<times> rat) list \<Rightarrow> rat list" where
  "wait_run p n elapsed [] = []"
| "wait_run p n elapsed ((reset, r) # rounds) =
     (case provider_wait_decision n elapsed reset p r of
        GiveUp w \<Rightarrow> []
      | WaitFor d \<Rightarrow> d # wait_run p (Suc n) (elapsed + d) rounds)"

section \<open>Bounds\<close>

lemma retry_delay_bound: "provider_retry_delay n r p = Wait d \<Longrightarrow> d \<le> max_timer_delay_ms"
  by (auto simp: provider_retry_delay_def Let_def split: option.splits if_splits)

lemma retry_loop_delays:
  "length (snd (retry_loop attempt aborted sleep p retries)) \<le> nat (rp_max_retries p - int retries)
   \<and> list_all (\<lambda>d. d \<le> max_timer_delay_ms) (snd (retry_loop attempt aborted sleep p retries))"
proof (induction attempt aborted sleep p retries rule: retry_loop.induct)
  case (1 attempt aborted sleep p retries)
  show ?case
  proof (cases "attempt retries")
    case Threw
    then show ?thesis by (simp add: retry_loop.simps [of attempt])
  next
    case (Got m)
    show ?thesis
    proof (cases "judge_attempt p (aborted retries) retries m")
      case (Return r)
      with Got show ?thesis by (simp add: retry_loop.simps [of attempt])
    next
      case (SleepFor d)
      from judge_sleeps [OF SleepFor] retry_delay_bound
      have d: "int retries < rp_max_retries p" "d \<le> max_timer_delay_ms" by blast+
      show ?thesis
      proof (cases "sleep retries d")
        case True
        from 1 [OF Got SleepFor True] Got SleepFor True d show ?thesis
          by (simp add: retry_loop.simps [of attempt aborted sleep p retries] split_beta) linarith
      next
        case False
        with Got SleepFor d show ?thesis by (simp add: retry_loop.simps [of attempt])
      qed
    qed
  qed
qed

lemma wait_decision_bound:
  "provider_wait_decision n elapsed reset p r = WaitFor d \<Longrightarrow> 0 \<le> d \<and> elapsed + d \<le> wp_max_wait p \<and> int n \<le> wp_max_attempts p"
  by (auto simp: provider_wait_decision_def Let_def provider_wait_jitter_def max_timer_delay_ms_def min_def max_def split: option.splits if_splits)

lemma wait_run_bounds:
  "elapsed + sum_list (wait_run p n elapsed rounds) \<le> max elapsed (wp_max_wait p)
   \<and> int (length (wait_run p n elapsed rounds)) \<le> max 0 (wp_max_attempts p - int n + 1)"
proof (induction p n elapsed rounds rule: wait_run.induct)
  case (2 p n elapsed reset r rounds)
  show ?case
  proof (cases "provider_wait_decision n elapsed reset p r")
    case (WaitFor d)
    from wait_decision_bound [OF WaitFor] 2 [OF WaitFor] WaitFor show ?thesis
      by (simp add: max_def split: if_splits)
  qed simp
qed simp

section \<open>Properties\<close>

text \<open>
  C39. A completion is retried at most \<open>maxRetries\<close> times, and no wait between two attempts is longer
  than a timer can hold: the loop ends whatever the provider answers.
\<close>

theorem retries_are_bounded:
  "length (snd (complete_with_provider_retry attempt aborted sleep (Some p))) \<le> nat (rp_max_retries p)
   \<and> list_all (\<lambda>d. d \<le> max_timer_delay_ms) (snd (complete_with_provider_retry attempt aborted sleep (Some p)))"
  using retry_loop_delays [of attempt aborted sleep p 0] by (simp add: complete_with_provider_retry_def)

text \<open>
  A wait for recovery never hangs: whatever reset times the provider reports and whatever the
  jitter, the pings of one wait are at most \<open>maxAttempts\<close> and their delays sum to at most \<open>maxWaitMs\<close>.
\<close>

theorem recovery_wait_is_bounded:
  "sum_list (wait_run p 1 0 rounds) \<le> max 0 (wp_max_wait p)
   \<and> int (length (wait_run p 1 0 rounds)) \<le> max 0 (wp_max_attempts p)"
  using wait_run_bounds [of 0 p 1 rounds] by simp

text \<open>
  The per-ping ceiling is not one: the jitter is applied after the cap, so with the default
  policy the tenth ping can wait 375 seconds although the ceiling is 300.
\<close>

theorem jitter_exceeds_the_ping_ceiling:
  "provider_wait_decision 10 0 None default_provider_wait_policy 1 = WaitFor 375000
   \<and> wp_max_delay default_provider_wait_policy = 300000"
  by code_simp

end
