(* ===== verification/SessionEntries.thy ===== *)
theory SessionEntries
  imports Messages
begin

text \<open>
  The entries of a session file and the context they resolve to
  (coding-agent/src/core/session-manager.ts, and the message constructors of messages.ts). A
  timestamp is kept as the milliseconds \<open>Date.getTime\<close> reads from it. A walk to the root may not
  end on a file with a parent cycle, so it is a partial function whose value is then \<open>None\<close>.
\<close>

record compaction_data =
  cd_summary :: jstring
  cd_first_kept :: jstring
  cd_tokens_before :: int
  cd_details :: "json option"
  cd_from_hook :: "bool option"
  cd_instructions :: "jstring option"
  cd_usage :: "usage option"
  cd_digest :: "jstring option"
  cd_fingerprint :: "jstring option"

record branch_data =
  bd_from :: jstring
  bd_summary :: jstring
  bd_details :: "json option"
  bd_from_hook :: "bool option"
  bd_usage :: "usage option"

record agent_status =
  as_summary :: jstring
  as_task_state :: "jstring option"
  as_based_on :: int

datatype entry_data =
    MessageEntry message
  | ThinkingLevelChange jstring
  | ServiceTierChange "jstring option"
  | ModelChange jstring jstring
  | CompactionEntry compaction_data
  | BranchSummaryEntry branch_data
  | CustomEntry jstring "json option"
  | ChildUsageAttributed jstring usage usage "jstring option"
  | CustomMessageEntry jstring content bool "json option"
  | LabelEntry jstring "jstring option"
  | SessionInfoEntry "jstring option"
  | SessionStateEntry jstring
  | AgentStatusEntry agent_status
  | GitStateEntry json

record session_entry =
  se_id :: jstring
  se_parent :: "jstring option"
  se_time :: int
  se_data :: entry_data

type_synonym entry_index = "jstring \<rightharpoonup> session_entry"

definition index_of :: "session_entry list \<Rightarrow> entry_index" where
  "index_of es = fold (\<lambda>e m. m(se_id e \<mapsto> e)) es (\<lambda>_. None)"

definition is_compaction :: "session_entry \<Rightarrow> bool" where
  "is_compaction e = (case se_data e of CompactionEntry _ \<Rightarrow> True | _ \<Rightarrow> False)"

definition is_message_entry :: "session_entry \<Rightarrow> bool" where
  "is_message_entry e = (case se_data e of MessageEntry _ \<Rightarrow> True | _ \<Rightarrow> False)"

definition is_label :: "session_entry \<Rightarrow> bool" where
  "is_label e = (case se_data e of LabelEntry _ _ \<Rightarrow> True | _ \<Rightarrow> False)"

definition is_assistant_entry :: "session_entry \<Rightarrow> bool" where
  "is_assistant_entry e = (case se_data e of MessageEntry m \<Rightarrow> is_assistant m | _ \<Rightarrow> False)"

section \<open>Messages of entries\<close>

definition create_branch_summary_message :: "jstring \<Rightarrow> jstring \<Rightarrow> int \<Rightarrow> message" where
  "create_branch_summary_message summary from t =
     BranchSummary \<lparr>bs_summary = summary, bs_from = from, bs_time = t\<rparr>"

definition create_compaction_summary_message ::
  "jstring \<Rightarrow> int \<Rightarrow> int \<Rightarrow> jstring option \<Rightarrow> nat option \<Rightarrow> jstring option \<Rightarrow> jstring option \<Rightarrow> message" where
  "create_compaction_summary_message summary tokens t instructions retained digest fingerprint =
     CompactionSummary \<lparr>cs_summary = summary, cs_tokens_before = tokens, cs_retained = retained,
       cs_instructions = instructions, cs_digest = digest, cs_fingerprint = fingerprint, cs_time = t\<rparr>"

definition create_custom_message ::
  "jstring \<Rightarrow> content \<Rightarrow> bool \<Rightarrow> json option \<Rightarrow> int \<Rightarrow> message" where
  "create_custom_message ty c display details t =
     Custom \<lparr>cm_type = ty, cm_content = c, cm_display = display, cm_details = details, cm_time = t\<rparr>"

text \<open>\<open>appendMessage\<close> of \<open>buildSessionContext\<close>: the message an entry adds to the context, if any.\<close>

definition context_message :: "session_entry \<Rightarrow> message option" where
  "context_message e =
     (case se_data e of
        MessageEntry m \<Rightarrow> Some m
      | CustomMessageEntry ty c display details \<Rightarrow> Some (create_custom_message ty c display details (se_time e))
      | BranchSummaryEntry b \<Rightarrow>
          if bd_summary b = [] then None
          else Some (create_branch_summary_message (bd_summary b) (bd_from b) (se_time e))
      | _ \<Rightarrow> None)"

definition context_messages :: "session_entry list \<Rightarrow> message list" where
  "context_messages es = List.map_filter context_message es"

lemma context_messages_append [simp]: "context_messages (es @ fs) = context_messages es @ context_messages fs"
  by (simp add: context_messages_def List.map_filter_def)

section \<open>Walking to the root\<close>

definition parent_entry :: "entry_index \<Rightarrow> session_entry \<Rightarrow> session_entry option" where
  "parent_entry by_id e =
     (case se_parent e of None \<Rightarrow> None | Some p \<Rightarrow> if p = [] then None else by_id p)"

partial_function (option) walk :: "entry_index \<Rightarrow> session_entry \<Rightarrow> session_entry list option" where
  "walk by_id e =
     (case parent_entry by_id e of
        None \<Rightarrow> Some [e]
      | Some p \<Rightarrow> Option.bind (walk by_id p) (\<lambda>es. Some (e # es)))"

declare walk.simps [code]

text \<open>The path from the root to an entry: the pushes of the walk, reversed.\<close>

definition path_to :: "entry_index \<Rightarrow> session_entry \<Rightarrow> session_entry list option" where
  "path_to by_id e = map_option rev (walk by_id e)"

section \<open>The context of a leaf\<close>

record session_context_view =
  cv_messages :: "message list"
  cv_thinking :: jstring
  cv_tier :: "jstring option"
  cv_model :: "(jstring \<times> jstring) option"

definition empty_context :: session_context_view where
  "empty_context = \<lparr>cv_messages = [], cv_thinking = js ''off'', cv_tier = Some (js ''default''), cv_model = None\<rparr>"

fun entry_settings :: "session_entry \<Rightarrow> session_context_view \<Rightarrow> session_context_view" where
  "entry_settings e c =
     (case se_data e of
        ThinkingLevelChange l \<Rightarrow> c\<lparr>cv_thinking := l\<rparr>
      | ServiceTierChange t \<Rightarrow> c\<lparr>cv_tier := t\<rparr>
      | ModelChange p m \<Rightarrow> c\<lparr>cv_model := Some (p, m)\<rparr>
      | MessageEntry (Assistant a) \<Rightarrow> c\<lparr>cv_model := Some (am_provider a, am_model a)\<rparr>
      | _ \<Rightarrow> c)"

text \<open>The last compaction entry of a path.\<close>

definition last_compaction :: "session_entry list \<Rightarrow> session_entry option" where
  "last_compaction path = List.find is_compaction (rev path)"

definition retained_entries :: "session_entry list \<Rightarrow> jstring \<Rightarrow> session_entry list" where
  "retained_entries before first_kept = dropWhile (\<lambda>e. se_id e \<noteq> first_kept) before"

definition path_messages :: "session_entry list \<Rightarrow> message list" where
  "path_messages path =
     (case last_compaction path of
        None \<Rightarrow> context_messages path
      | Some c \<Rightarrow>
          (case se_data c of
             CompactionEntry d \<Rightarrow>
               let before = takeWhile (\<lambda>e. \<not> (is_compaction e \<and> se_id e = se_id c)) path;
                   after = drop (Suc (length before)) path;
                   retained = context_messages (retained_entries before (cd_first_kept d))
               in create_compaction_summary_message (cd_summary d) (cd_tokens_before d) (se_time c)
                    (cd_instructions d) (Some (length retained)) (cd_digest d) (cd_fingerprint d)
                    # retained @ context_messages after
           | _ \<Rightarrow> []))"

definition path_context :: "session_entry list \<Rightarrow> session_context_view" where
  "path_context path = (fold entry_settings path empty_context)\<lparr>cv_messages := path_messages path\<rparr>"

text \<open>
  \<open>buildSessionContext(entries, leafId, byId)\<close>. \<open>leaf_id\<close> is \<open>None\<close> when undefined and \<open>Some None\<close> when
  null.
\<close>

definition build_session_context ::
  "session_entry list \<Rightarrow> jstring option option \<Rightarrow> entry_index \<Rightarrow> session_context_view option" where
  "build_session_context entries leaf_id by_id =
     (if leaf_id = Some None then Some empty_context
      else
        let named = (case leaf_id of
                       Some (Some i) \<Rightarrow> if i = [] then None else by_id i
                     | _ \<Rightarrow> None);
            leaf = (case named of
                      Some e \<Rightarrow> Some e
                    | None \<Rightarrow> if entries = [] then None else Some (last entries))
        in case leaf of
             None \<Rightarrow> Some empty_context
           | Some e \<Rightarrow> map_option path_context (path_to by_id e))"

text \<open>Called with the entries alone.\<close>

definition entries_context :: "session_entry list \<Rightarrow> session_context_view option" where
  "entries_context entries = build_session_context entries None (index_of entries)"

section \<open>Attribution of a child's usage\<close>

definition set_usage :: "usage \<Rightarrow> session_entry \<Rightarrow> session_entry" where
  "set_usage u e =
     (case se_data e of
        MessageEntry (Assistant a) \<Rightarrow> e\<lparr>se_data := MessageEntry (Assistant (a\<lparr>am_usage := u\<rparr>))\<rparr>
      | _ \<Rightarrow> e)"

text \<open>
  One round of the second loop of \<open>applyChildUsageAttributions\<close>. The objects of the id map are those
  of the list, so an assignment is seen by the list; the map holds the last assistant of an id, and
  ids are unique in a file.
\<close>

definition attribute_usage :: "jstring \<Rightarrow> usage \<Rightarrow> session_entry list \<Rightarrow> session_entry list" where
  "attribute_usage target u es =
     map (\<lambda>e. if se_id e = target \<and> is_assistant_entry e then set_usage u e else e) es"

definition apply_child_usage_attributions :: "session_entry list \<Rightarrow> session_entry list" where
  "apply_child_usage_attributions es =
     fold (\<lambda>e acc. case se_data e of ChildUsageAttributed t c a orig \<Rightarrow> attribute_usage t a acc | _ \<Rightarrow> acc) es es"

end
