(* ===== verification/SessionTree.thy ===== *)
theory SessionTree
  imports SessionEntries
begin

text \<open>
  The session manager (coding-agent/src/core/session-manager.ts): the append-only list of entries, its
  index by id, the leaf, the labels, and the file on disk. The source of new ids and the clock are
  arguments of the operations. \<open>sm_disk\<close> is the entries of the session file, \<open>None\<close> when the file does
  not exist; writes are taken to succeed. A JavaScript Map is an association list in insertion order.
\<close>

record session_manager =
  sm_persist :: bool
  sm_entries :: "session_entry list"
  sm_by_id :: entry_index
  sm_labels :: "(jstring \<times> jstring) list"
  sm_label_times :: "(jstring \<times> int) list"
  sm_leaf :: "jstring option"
  sm_has_assistant :: bool
  sm_flushed :: bool
  sm_disk :: "session_entry list option"

definition empty_session :: "bool \<Rightarrow> session_manager" where
  "empty_session persist =
     \<lparr>sm_persist = persist, sm_entries = [], sm_by_id = (\<lambda>_. None), sm_labels = [], sm_label_times = [],
      sm_leaf = None, sm_has_assistant = False, sm_flushed = False, sm_disk = None\<rparr>"

text \<open>
  \<open>generateId\<close>: the first of a hundred random 8-character prefixes that is not taken, else a full
  random id.
\<close>

definition generate_id :: "(jstring \<Rightarrow> bool) \<Rightarrow> jstring list \<Rightarrow> jstring \<Rightarrow> jstring" where
  "generate_id taken randoms fallback =
     (case List.find (\<lambda>i. \<not> taken i) (map (take 8) (take 100 randoms)) of Some i \<Rightarrow> i | None \<Rightarrow> fallback)"

section \<open>Persistence\<close>

definition rewrite_file :: "session_manager \<Rightarrow> session_manager" where
  "rewrite_file s = (if sm_persist s then s\<lparr>sm_disk := Some (sm_entries s)\<rparr> else s)"

definition flush_now :: "session_manager \<Rightarrow> session_manager" where
  "flush_now s =
     (if \<not> sm_persist s \<or> sm_flushed s \<and> sm_disk s \<noteq> None then s
      else (rewrite_file s)\<lparr>sm_flushed := True\<rparr>)"

definition persists_without_assistant :: "session_entry \<Rightarrow> bool" where
  "persists_without_assistant e =
     (case se_data e of SessionStateEntry _ \<Rightarrow> True | SessionInfoEntry _ \<Rightarrow> True | _ \<Rightarrow> False)"

definition persist_entry :: "session_entry \<Rightarrow> session_manager \<Rightarrow> session_manager" where
  "persist_entry e s =
     (if \<not> sm_persist s then s
      else if \<not> sm_has_assistant s \<and> \<not> persists_without_assistant e then s\<lparr>sm_flushed := False\<rparr>
      else
        (case sm_disk s of
           Some file \<Rightarrow> if \<not> sm_flushed s then (rewrite_file s)\<lparr>sm_flushed := True\<rparr>
                        else s\<lparr>sm_disk := Some (file @ [e])\<rparr>
         | None \<Rightarrow> (rewrite_file s)\<lparr>sm_flushed := True\<rparr>))"

definition append_entry :: "session_entry \<Rightarrow> session_manager \<Rightarrow> session_manager" where
  "append_entry e s =
     persist_entry e
       (s\<lparr>sm_entries := sm_entries s @ [e],
          sm_has_assistant := (sm_has_assistant s \<or> is_assistant_entry e),
          sm_by_id := (sm_by_id s)(se_id e \<mapsto> e), sm_leaf := Some (se_id e)\<rparr>)"

section \<open>Appending\<close>

definition new_entry :: "entry_data \<Rightarrow> jstring \<Rightarrow> int \<Rightarrow> session_manager \<Rightarrow> session_entry" where
  "new_entry d i t s = \<lparr>se_id = i, se_parent = sm_leaf s, se_time = t, se_data = d\<rparr>"

definition append_data :: "entry_data \<Rightarrow> jstring \<Rightarrow> int \<Rightarrow> session_manager \<Rightarrow> session_manager" where
  "append_data d i t s = append_entry (new_entry d i t s) s"

definition append_message :: "message \<Rightarrow> jstring \<Rightarrow> int \<Rightarrow> session_manager \<Rightarrow> session_manager" where
  "append_message m = append_data (MessageEntry m)"

definition append_thinking_level_change :: "jstring \<Rightarrow> jstring \<Rightarrow> int \<Rightarrow> session_manager \<Rightarrow> session_manager" where
  "append_thinking_level_change l = append_data (ThinkingLevelChange l)"

definition append_service_tier_change :: "jstring option \<Rightarrow> jstring \<Rightarrow> int \<Rightarrow> session_manager \<Rightarrow> session_manager" where
  "append_service_tier_change t = append_data (ServiceTierChange t)"

definition append_model_change :: "jstring \<Rightarrow> jstring \<Rightarrow> jstring \<Rightarrow> int \<Rightarrow> session_manager \<Rightarrow> session_manager" where
  "append_model_change p m = append_data (ModelChange p m)"

definition append_compaction :: "compaction_data \<Rightarrow> jstring \<Rightarrow> int \<Rightarrow> session_manager \<Rightarrow> session_manager" where
  "append_compaction c = append_data (CompactionEntry c)"

definition append_custom_entry :: "jstring \<Rightarrow> json option \<Rightarrow> jstring \<Rightarrow> int \<Rightarrow> session_manager \<Rightarrow> session_manager" where
  "append_custom_entry ty d = append_data (CustomEntry ty d)"

definition append_session_info :: "jstring \<Rightarrow> jstring \<Rightarrow> int \<Rightarrow> session_manager \<Rightarrow> session_manager" where
  "append_session_info name = append_data (SessionInfoEntry (Some (js_trim name)))"

definition append_session_state :: "jstring \<Rightarrow> jstring \<Rightarrow> int \<Rightarrow> session_manager \<Rightarrow> session_manager" where
  "append_session_state status = append_data (SessionStateEntry status)"

definition append_agent_status :: "agent_status \<Rightarrow> jstring \<Rightarrow> int \<Rightarrow> session_manager \<Rightarrow> session_manager" where
  "append_agent_status st = append_data (AgentStatusEntry st)"

definition append_git_state :: "json \<Rightarrow> jstring \<Rightarrow> int \<Rightarrow> session_manager \<Rightarrow> session_manager" where
  "append_git_state g = append_data (GitStateEntry g)"

definition append_custom_message_entry ::
  "jstring \<Rightarrow> content \<Rightarrow> bool \<Rightarrow> json option \<Rightarrow> jstring \<Rightarrow> int \<Rightarrow> session_manager \<Rightarrow> session_manager" where
  "append_custom_message_entry ty c display details = append_data (CustomMessageEntry ty c display details)"

text \<open>The two appends that throw when their target does not exist.\<close>

definition append_child_usage_attribution ::
  "jstring \<Rightarrow> usage \<Rightarrow> usage \<Rightarrow> jstring option \<Rightarrow> jstring \<Rightarrow> int \<Rightarrow> session_manager \<Rightarrow> session_manager option" where
  "append_child_usage_attribution target child aggregate origin i t s =
     (case sm_by_id s target of
        None \<Rightarrow> None
      | Some e \<Rightarrow>
          if \<not> is_assistant_entry e then None
          else
            let s' = s\<lparr>sm_entries := attribute_usage target aggregate (sm_entries s),
                       sm_by_id := (sm_by_id s)(target \<mapsto> set_usage aggregate e)\<rparr>
            in Some (append_data (ChildUsageAttributed target child aggregate
                       (if origin = Some [] then None else origin)) i t s'))"

definition set_label :: "jstring \<Rightarrow> jstring option \<Rightarrow> int \<Rightarrow> session_manager \<Rightarrow> session_manager" where
  "set_label target label t s =
     (case label of
        Some l \<Rightarrow>
          if l \<noteq> []
          then s\<lparr>sm_labels := put_field target l (sm_labels s), sm_label_times := put_field target t (sm_label_times s)\<rparr>
          else s\<lparr>sm_labels := filter (\<lambda>p. fst p \<noteq> target) (sm_labels s),
                 sm_label_times := filter (\<lambda>p. fst p \<noteq> target) (sm_label_times s)\<rparr>
      | None \<Rightarrow> s\<lparr>sm_labels := filter (\<lambda>p. fst p \<noteq> target) (sm_labels s),
                 sm_label_times := filter (\<lambda>p. fst p \<noteq> target) (sm_label_times s)\<rparr>)"

definition append_label_change ::
  "jstring \<Rightarrow> jstring option \<Rightarrow> jstring \<Rightarrow> int \<Rightarrow> session_manager \<Rightarrow> session_manager option" where
  "append_label_change target label i t s =
     (if sm_by_id s target = None then None
      else Some (set_label target label t (append_data (LabelEntry target label) i t s)))"

section \<open>Reading\<close>

definition get_branch :: "session_manager \<Rightarrow> jstring option \<Rightarrow> session_entry list option" where
  "get_branch s from =
     (case (case from of Some i \<Rightarrow> Some i | None \<Rightarrow> sm_leaf s) of
        None \<Rightarrow> Some []
      | Some i \<Rightarrow>
          if i = [] then Some []
          else (case sm_by_id s i of None \<Rightarrow> Some [] | Some e \<Rightarrow> path_to (sm_by_id s) e))"

definition session_context_of :: "session_manager \<Rightarrow> session_context_view option" where
  "session_context_of s = build_session_context (sm_entries s) (Some (sm_leaf s)) (sm_by_id s)"

definition get_children :: "session_manager \<Rightarrow> jstring \<Rightarrow> session_entry list" where
  "get_children s p = filter (\<lambda>e. se_parent e = Some p) (sm_entries s)"

definition get_session_name :: "session_manager \<Rightarrow> jstring option" where
  "get_session_name s =
     (case List.find (\<lambda>e. case se_data e of SessionInfoEntry _ \<Rightarrow> True | _ \<Rightarrow> False) (rev (sm_entries s)) of
        Some e \<Rightarrow>
          (case se_data e of
             SessionInfoEntry (Some n) \<Rightarrow> if js_trim n = [] then None else Some (js_trim n)
           | _ \<Rightarrow> None)
      | None \<Rightarrow> None)"

section \<open>Branching\<close>

definition branch :: "jstring \<Rightarrow> session_manager \<Rightarrow> session_manager option" where
  "branch from s = (if sm_by_id s from = None then None else Some (s\<lparr>sm_leaf := Some from\<rparr>))"

definition reset_leaf :: "session_manager \<Rightarrow> session_manager" where
  "reset_leaf s = s\<lparr>sm_leaf := None\<rparr>"

definition branch_with_summary ::
  "jstring option \<Rightarrow> branch_data \<Rightarrow> jstring \<Rightarrow> int \<Rightarrow> session_manager \<Rightarrow> session_manager option" where
  "branch_with_summary from b i t s =
     (if (case from of Some f \<Rightarrow> sm_by_id s f = None | None \<Rightarrow> False) then None
      else
        let b' = b\<lparr>bd_from := (case from of Some f \<Rightarrow> f | None \<Rightarrow> js ''root'')\<rparr>
        in Some (append_data (BranchSummaryEntry b') i t (s\<lparr>sm_leaf := from\<rparr>)))"

text \<open>\<open>_buildIndex\<close>.\<close>

definition index_entry :: "session_entry \<Rightarrow> session_manager \<Rightarrow> session_manager" where
  "index_entry e s =
     (let s' = s\<lparr>sm_by_id := (sm_by_id s)(se_id e \<mapsto> e), sm_leaf := Some (se_id e)\<rparr>
      in case se_data e of LabelEntry target label \<Rightarrow> set_label target label (se_time e) s' | _ \<Rightarrow> s')"

definition build_index :: "session_manager \<Rightarrow> session_manager" where
  "build_index s =
     fold index_entry (sm_entries s)
       (s\<lparr>sm_by_id := (\<lambda>_. None), sm_labels := [], sm_label_times := [], sm_leaf := None\<rparr>)"

text \<open>The label entries a fork writes, each a child of the one before.\<close>

fun chain_labels ::
  "jstring option \<Rightarrow> jstring list \<Rightarrow> (jstring \<times> jstring \<times> int) list \<Rightarrow> session_entry list" where
  "chain_labels p (i # is) ((target, l, t) # ls) =
     \<lparr>se_id = i, se_parent = p, se_time = t, se_data = LabelEntry target (Some l)\<rparr> # chain_labels (Some i) is ls"
| "chain_labels p is ls = []"

definition labels_to_write :: "session_manager \<Rightarrow> session_entry list \<Rightarrow> (jstring \<times> jstring \<times> int) list" where
  "labels_to_write s path =
     List.map_filter
       (\<lambda>(target, l).
          if target \<in> se_id ` set path
          then Some (target, l, case map_of (sm_label_times s) target of Some t \<Rightarrow> t | None \<Rightarrow> 0)
          else None)
       (sm_labels s)"

text \<open>
  \<open>createBranchedSession\<close>: the outer option is a walk that does not end, the inner one the error on a
  missing entry; \<open>ids\<close> are the new ids of the label entries.
\<close>

definition create_branched_session ::
  "jstring \<Rightarrow> jstring list \<Rightarrow> session_manager \<Rightarrow> session_manager option option" where
  "create_branched_session leaf ids s =
     Option.bind (get_branch s (Some leaf)) (\<lambda>path.
       if path = [] then Some None
       else
         let kept = filter (\<lambda>e. \<not> is_label e) path;
             parent = (if kept = [] \<or> se_id (last kept) = [] then None else Some (se_id (last kept)));
             entries = kept @ chain_labels parent ids (labels_to_write s kept);
             s1 = build_index (s\<lparr>sm_entries := entries, sm_has_assistant := list_ex is_assistant_entry entries,
                                 sm_disk := (if sm_persist s then None else sm_disk s)\<rparr>)
         in Some (Some (if \<not> sm_persist s then s1
                        else if sm_has_assistant s1 then (rewrite_file s1)\<lparr>sm_flushed := True\<rparr>
                        else s1\<lparr>sm_flushed := False\<rparr>)))"

text \<open>Opening a session file: its entries with the attributions replayed, then indexed.\<close>

definition load_session :: "session_entry list \<Rightarrow> session_manager" where
  "load_session file =
     (let es = apply_child_usage_attributions file in
      build_index ((empty_session True)\<lparr>sm_entries := es, sm_has_assistant := list_ex is_assistant_entry es,
                      sm_flushed := True, sm_disk := Some file\<rparr>))"

end
