(* ===== verification/SessionInvariant.thy ===== *)
theory SessionInvariant
  imports SessionTree
begin

text \<open>
  The invariant of the session tree. Ids are unique and not empty, a parent stands before its
  children, the index and the leaf agree with the entries; so every walk ends at a root. The step
  relation \<open>session_step\<close> covers the manager's operations and the loss of the file from outside.
\<close>

section \<open>The index\<close>

lemma index_of_map_of: "index_of es = map_of (rev (map (\<lambda>e. (se_id e, e)) es))"
proof (induction es rule: rev_induct)
  case (snoc e es)
  then show ?case by (simp add: index_of_def)
qed (simp add: index_of_def)

lemma index_of_Nil [simp]: "index_of [] = (\<lambda>_. None)"
  by (simp add: index_of_def)

lemma index_of_snoc: "index_of (es @ [e]) = (index_of es)(se_id e \<mapsto> e)"
  by (simp add: index_of_def)

lemma index_of_None [simp]: "index_of es i = None \<longleftrightarrow> i \<notin> se_id ` set es"
  by (simp add: index_of_map_of map_of_eq_None_iff image_image comp_def)

lemma index_of_Some: "index_of es i = Some e \<Longrightarrow> e \<in> set es \<and> se_id e = i"
  by (auto simp: index_of_map_of dest: map_of_SomeD)

lemma index_of_member: "distinct (map se_id es) \<Longrightarrow> e \<in> set es \<Longrightarrow> index_of es (se_id e) = Some e"
proof (induction es rule: rev_induct)
  case (snoc x es)
  then show ?case by (auto simp: index_of_snoc image_iff)
qed simp

section \<open>Walks\<close>

fun chain :: "entry_index \<Rightarrow> session_entry list \<Rightarrow> bool" where
  "chain m [] = False"
| "chain m [e] = (parent_entry m e = None)"
| "chain m (e # f # es) = (parent_entry m e = Some f \<and> chain m (f # es))"

lemma walk_of_chain: "chain m es \<Longrightarrow> walk m (hd es) = Some es"
proof (induction m es rule: chain.induct)
  case (2 m e)
  then show ?case by (simp add: walk.simps [of m e])
next
  case (3 m e f es)
  then show ?case by (simp add: walk.simps [of m e])
qed simp

lemma chain_of_walk:
  assumes "walk m e = Some es"
  shows "chain m es \<and> hd es = e"
proof (rule walk.raw_induct [where P = "\<lambda>m e es. chain m es \<and> hd es = e", OF _ assms])
  fix wk m e es
  assume ih: "\<And>m e es. wk m e = Some es \<Longrightarrow> chain m es \<and> hd es = e"
    and body: "(case parent_entry m e of None \<Rightarrow> Some [e]
                | Some p \<Rightarrow> Option.bind (wk m p) (\<lambda>es. Some (e # es))) = Some es"
  show "chain m es \<and> hd es = e"
  proof (cases "parent_entry m e")
    case None
    with body show ?thesis by auto
  next
    case (Some p)
    with body obtain ps where ps: "wk m p = Some ps" "es = e # ps" by (auto simp: bind_eq_Some_conv)
    with ih [OF ps(1)] Some show ?thesis by (cases ps) auto
  qed
qed

lemma chain_last: "chain m es \<Longrightarrow> parent_entry m (last es) = None"
  by (induction m es rule: chain.induct) auto

lemma chain_cong:
  "chain m es \<Longrightarrow> (\<And>e. e \<in> set es \<Longrightarrow> parent_entry m' e = parent_entry m e) \<Longrightarrow> chain m' es"
  by (induction m es rule: chain.induct) auto

lemma chain_Cons: "parent_entry m e = Some f \<Longrightarrow> chain m es \<Longrightarrow> hd es = f \<Longrightarrow> chain m (e # es)"
  by (cases es) auto

section \<open>Well-formed entries\<close>

fun parents_from :: "jstring set \<Rightarrow> session_entry list \<Rightarrow> bool" where
  "parents_from ids [] = True"
| "parents_from ids (e # es) =
     ((case se_parent e of None \<Rightarrow> True | Some p \<Rightarrow> p \<in> ids) \<and> parents_from (insert (se_id e) ids) es)"

lemma parents_from_append:
  "parents_from ids (es @ fs) \<longleftrightarrow> parents_from ids es \<and> parents_from (ids \<union> se_id ` set es) fs"
  by (induction es arbitrary: ids) auto

definition wf_entries :: "session_entry list \<Rightarrow> bool" where
  "wf_entries es \<longleftrightarrow> distinct (map se_id es) \<and> [] \<notin> se_id ` set es \<and> parents_from {} es"

lemma wf_entries_Nil [simp]: "wf_entries []"
  by (simp add: wf_entries_def)

lemma wf_entries_snoc:
  "wf_entries (es @ [e]) \<longleftrightarrow>
     wf_entries es \<and> se_id e \<notin> se_id ` set es \<and> se_id e \<noteq> []
     \<and> (case se_parent e of None \<Rightarrow> True | Some p \<Rightarrow> p \<in> se_id ` set es)"
  by (auto simp: wf_entries_def parents_from_append image_iff)

lemma wf_parent_known:
  assumes "wf_entries es" "e \<in> set es" "se_parent e = Some p"
  shows "p \<in> se_id ` set es"
proof -
  have "parents_from ids es \<Longrightarrow> e \<in> set es \<Longrightarrow> p \<in> ids \<union> se_id ` set es" for ids
  proof (induction es arbitrary: ids)
    case (Cons x xs)
    then show ?case using assms(3) by fastforce
  qed simp
  from this [of "{}"] assms(1,2) show ?thesis by (simp add: wf_entries_def)
qed

lemma parent_entry_extend:
  assumes "wf_entries (es @ [x])" "e \<in> set es"
  shows "parent_entry (index_of (es @ [x])) e = parent_entry (index_of es) e"
  using assms wf_parent_known [of es e] by (auto simp: parent_entry_def wf_entries_snoc index_of_snoc split: option.split)

lemma every_entry_has_a_chain:
  "wf_entries es \<Longrightarrow> e \<in> set es \<Longrightarrow>
     \<exists>c. chain (index_of es) c \<and> hd c = e \<and> set c \<subseteq> set es \<and> distinct (map se_id c)"
proof (induction es arbitrary: e rule: rev_induct)
  case (snoc x es)
  from snoc.prems(1) have wf: "wf_entries es" by (simp add: wf_entries_snoc)
  have old: "\<exists>c. chain (index_of (es @ [x])) c \<and> hd c = e \<and> set c \<subseteq> set es \<and> distinct (map se_id c)"
    if e: "e \<in> set es" for e
  proof -
    from snoc.IH [OF wf e] obtain c where
      c: "chain (index_of es) c" "hd c = e" "set c \<subseteq> set es" "distinct (map se_id c)" by blast
    have "chain (index_of (es @ [x])) c"
      by (rule chain_cong [OF c(1)]) (use c(3) in \<open>auto intro!: parent_entry_extend [OF snoc.prems(1)]\<close>)
    with c show ?thesis by blast
  qed
  show ?case
  proof (cases "e \<in> set es")
    case True
    from old [OF this] show ?thesis by fastforce
  next
    case False
    with snoc.prems(2) have ex: "e = x" by simp
    show ?thesis
    proof (cases "parent_entry (index_of (es @ [x])) x")
      case None
      then show ?thesis using ex by (intro exI [of _ "[x]"]) simp
    next
      case (Some p)
      then obtain i where i: "se_parent x = Some i" "i \<noteq> []" "index_of (es @ [x]) i = Some p"
        by (auto simp: parent_entry_def split: option.splits if_splits)
      with snoc.prems(1) have new: "i \<in> se_id ` set es" "se_id x \<notin> se_id ` set es" by (auto simp: wf_entries_snoc)
      then have "i \<noteq> se_id x" by metis
      with i(3) have "index_of es i = Some p" by (simp add: index_of_snoc)
      then have "p \<in> set es" using index_of_Some by blast
      from old [OF this] obtain c where
        c: "chain (index_of (es @ [x])) c" "hd c = p" "set c \<subseteq> set es" "distinct (map se_id c)" by blast
      with Some have "chain (index_of (es @ [x])) (x # c)" by (intro chain_Cons)
      moreover have "distinct (map se_id (x # c))" using c(3,4) new(2) by auto
      ultimately show ?thesis using ex c(3) by (intro exI [of _ "x # c"]) auto
    qed
  qed
qed simp

lemma path_total:
  assumes "wf_entries es" "e \<in> set es"
  shows "\<exists>p. path_to (index_of es) e = Some p \<and> chain (index_of es) (rev p) \<and> last p = e \<and> p \<noteq> []
     \<and> set p \<subseteq> set es \<and> distinct (map se_id p)"
proof -
  from every_entry_has_a_chain [OF assms] obtain c where
    c: "chain (index_of es) c" "hd c = e" "set c \<subseteq> set es" "distinct (map se_id c)" by blast
  then have "c \<noteq> []" by auto
  with c walk_of_chain [OF c(1)] show ?thesis
    by (intro exI [of _ "rev c"]) (simp add: path_to_def last_rev flip: rev_map)
qed

lemma path_extend:
  assumes "wf_entries (es @ [x])" "e \<in> set es"
  shows "path_to (index_of (es @ [x])) e = path_to (index_of es) e"
proof -
  have "wf_entries es" using assms(1) by (simp add: wf_entries_snoc)
  from every_entry_has_a_chain [OF this assms(2)]
  obtain c where c: "chain (index_of es) c" "hd c = e" "set c \<subseteq> set es" by blast
  have "chain (index_of (es @ [x])) c"
    by (rule chain_cong [OF c(1)]) (use c(3) in \<open>auto intro!: parent_entry_extend [OF assms(1)]\<close>)
  from walk_of_chain [OF this] walk_of_chain [OF c(1)] c(2) show ?thesis by (simp only: path_to_def)
qed

lemma path_snoc:
  assumes "wf_entries (es @ [x])" "se_parent x = Some (se_id e)" "e \<in> set es"
  shows "path_to (index_of (es @ [x])) x = map_option (\<lambda>p. p @ [x]) (path_to (index_of es) e)"
proof -
  have "se_id e \<in> se_id ` set es" using assms(3) by simp
  then have "se_id e \<noteq> []" "se_id e \<noteq> se_id x" "distinct (map se_id es)"
    using assms(1) by (auto simp: wf_entries_def image_iff)
  then have "parent_entry (index_of (es @ [x])) x = Some e"
    using assms(2,3) by (simp add: parent_entry_def index_of_member index_of_snoc)
  then have "walk (index_of (es @ [x])) x = map_option ((#) x) (walk (index_of (es @ [x])) e)"
    by (subst walk.simps) (simp add: map_conv_bind_option comp_def)
  then have "path_to (index_of (es @ [x])) x = map_option (\<lambda>p. p @ [x]) (path_to (index_of (es @ [x])) e)"
    by (cases "walk (index_of (es @ [x])) e") (simp_all add: path_to_def)
  with path_extend [OF assms(1,3)] show ?thesis by simp
qed

section \<open>Replaying attributions\<close>

definition attribution :: "session_entry \<Rightarrow> (jstring \<times> usage) option" where
  "attribution e = (case se_data e of ChildUsageAttributed t c a orig \<Rightarrow> Some (t, a) | _ \<Rightarrow> None)"

definition replay :: "session_entry \<Rightarrow> session_entry list \<Rightarrow> session_entry list" where
  "replay d es = (case attribution d of Some (t, a) \<Rightarrow> attribute_usage t a es | None \<Rightarrow> es)"

lemma apply_attributions_replay: "apply_child_usage_attributions es = fold replay es es"
proof -
  have "(\<lambda>e acc. case se_data e of ChildUsageAttributed t c a orig \<Rightarrow> attribute_usage t a acc | _ \<Rightarrow> acc) = replay"
    by (intro ext) (simp add: replay_def attribution_def split: entry_data.split)
  then show ?thesis by (simp add: apply_child_usage_attributions_def)
qed

lemma set_usage_fields [simp]:
  "se_id (set_usage u e) = se_id e" "se_parent (set_usage u e) = se_parent e"
  "is_assistant_entry (set_usage u e) = is_assistant_entry e"
  "attribution (set_usage u e) = attribution e"
  "set_usage u (set_usage v e) = set_usage u e"
  by (auto simp: set_usage_def is_assistant_entry_def attribution_def split: entry_data.split message.split)

lemma attribution_not_assistant: "attribution e \<noteq> None \<Longrightarrow> \<not> is_assistant_entry e"
  by (simp add: attribution_def is_assistant_entry_def split: entry_data.splits)

lemma attribute_ids [simp]: "map se_id (attribute_usage t a es) = map se_id es"
  by (simp add: attribute_usage_def)

lemma attribute_attributions [simp]: "map attribution (attribute_usage t a es) = map attribution es"
  by (simp add: attribute_usage_def)

lemma attribute_append [simp]: "attribute_usage t a (xs @ ys) = attribute_usage t a xs @ attribute_usage t a ys"
  by (simp add: attribute_usage_def)

lemma attribute_other: "se_id e \<noteq> t \<or> \<not> is_assistant_entry e \<Longrightarrow> attribute_usage t a [e] = [e]"
  by (auto simp: attribute_usage_def)

lemma attribute_overwrites [simp]: "attribute_usage t a (attribute_usage t b es) = attribute_usage t a es"
  by (simp add: attribute_usage_def)

lemma attribute_commute: "t \<noteq> t' \<Longrightarrow> attribute_usage t a (attribute_usage t' b es) = attribute_usage t' b (attribute_usage t a es)"
  by (simp add: attribute_usage_def)

lemma replay_overwritten:
  "attribute_usage t a (fold replay ds (attribute_usage t a es)) = attribute_usage t a (fold replay ds es)"
proof (induction ds arbitrary: es)
  case (Cons d ds)
  show ?case
  proof (cases "attribution d")
    case None
    with Cons.IH show ?thesis by (simp add: replay_def)
  next
    case (Some p)
    obtain t' b where p: "p = (t', b)" by (cases p)
    show ?thesis
    proof (cases "t' = t")
      case True
      with Some p show ?thesis by (simp add: replay_def)
    next
      case False
      with Some p Cons.IH [of "attribute_usage t' b es"] attribute_commute [of t' t b a es]
      show ?thesis by (simp add: replay_def)
    qed
  qed
qed simp

lemma parents_attribute [simp]: "parents_from ids (attribute_usage t a es) = parents_from ids es"
  by (induction es arbitrary: ids) (auto simp: attribute_usage_def)

lemma fold_replay_cong: "map attribution ds = map attribution fs \<Longrightarrow> fold replay ds es = fold replay fs es"
proof (induction ds arbitrary: fs es)
  case (Cons d ds)
  then obtain f fs' where fs: "fs = f # fs'" "attribution d = attribution f" "map attribution ds = map attribution fs'"
    by (cases fs) auto
  with Cons.IH [OF fs(3)] show ?case by (simp add: replay_def)
qed simp

lemma fold_replay_attributions [simp]: "map attribution (fold replay ds es) = map attribution es"
proof (induction ds arbitrary: es)
  case (Cons d ds)
  then show ?case by (simp add: replay_def split: option.split prod.split)
qed simp

lemma fold_replay_ids [simp]: "map se_id (fold replay ds es) = map se_id es"
proof (induction ds arbitrary: es)
  case (Cons d ds)
  then show ?case by (simp add: replay_def split: option.split prod.split)
qed simp

definition targets :: "session_entry list \<Rightarrow> jstring set" where
  "targets es = {t. \<exists>a. Some (t, a) \<in> set (map attribution es)}"

lemma targets_append [simp]: "targets (es @ fs) = targets es \<union> targets fs"
  by (auto simp: targets_def)

lemma fold_replay_snoc:
  "se_id e \<notin> targets ds \<or> \<not> is_assistant_entry e \<Longrightarrow> fold replay ds (es @ [e]) = fold replay ds es @ [e]"
proof (induction ds arbitrary: es)
  case (Cons d ds)
  then have "replay d (es @ [e]) = replay d es @ [e]"
    by (force simp: replay_def targets_def attribute_other split: option.split)
  with Cons show ?case by (auto simp: targets_def)
qed simp

abbreviation loaded :: "session_entry list \<Rightarrow> session_entry list" where
  "loaded \<equiv> apply_child_usage_attributions"

lemma loaded_snoc:
  assumes "attribution e = None" "se_id e \<notin> targets es"
  shows "loaded (es @ [e]) = loaded es @ [e]"
  using assms fold_replay_snoc [of e es es] by (simp add: apply_attributions_replay replay_def)

lemma loaded_attribution:
  assumes "attribution e = Some (t, a)"
  shows "loaded (es @ [e]) = attribute_usage t a (loaded es) @ [e]"
proof -
  have "\<not> is_assistant_entry e" using assms attribution_not_assistant by simp
  then show ?thesis
    using assms fold_replay_snoc [of e es es] attribute_other [of e t a]
    by (simp add: apply_attributions_replay replay_def)
qed

lemma loaded_attribute:
  assumes "loaded es = es" "attribution e = Some (t, a)"
  shows "loaded (attribute_usage t a es @ [e]) = attribute_usage t a es @ [e]"
proof -
  have "fold replay (attribute_usage t a es) xs = fold replay es xs" for xs
    by (rule fold_replay_cong) simp
  then have "attribute_usage t a (loaded (attribute_usage t a es)) = attribute_usage t a es"
    using replay_overwritten [of t a es es] assms(1) by (simp add: apply_attributions_replay)
  with loaded_attribution [OF assms(2)] show ?thesis by simp
qed

lemma loaded_attributions: "map attribution (loaded es) = map attribution es"
  by (simp add: apply_attributions_replay)

lemma loaded_targets: "loaded f = es \<Longrightarrow> targets f = targets es"
  using loaded_attributions [of f] by (simp add: targets_def)

lemma index_of_map:
  "(\<And>e. se_id (f e) = se_id e) \<Longrightarrow> index_of (map f es) i = map_option f (index_of es i)"
  by (induction es rule: rev_induct) (simp_all add: index_of_snoc)

lemma index_of_attribute:
  assumes "distinct (map se_id es)" "index_of es t = Some e" "is_assistant_entry e"
  shows "index_of (attribute_usage t a es) = (index_of es)(t \<mapsto> set_usage a e)"
proof
  fix i
  have e: "se_id e = t" using assms(2) index_of_Some by blast
  have "index_of (attribute_usage t a es) i
      = map_option (\<lambda>e. if se_id e = t \<and> is_assistant_entry e then set_usage a e else e) (index_of es i)"
    unfolding attribute_usage_def by (rule index_of_map) simp
  also have "\<dots> = ((index_of es)(t \<mapsto> set_usage a e)) i"
  proof (cases "index_of es i")
    case None
    with assms(2) have "i \<noteq> t" by (metis option.distinct(1))
    with None show ?thesis by (simp del: index_of_None)
  next
    case (Some x)
    from index_of_Some [OF Some] have "se_id x = i" by simp
    with Some assms(2,3) e show ?thesis by (cases "i = t") simp_all
  qed
  finally show "index_of (attribute_usage t a es) i = ((index_of es)(t \<mapsto> set_usage a e)) i" .
qed

section \<open>Steps of the manager\<close>

definition plain_data :: "entry_data \<Rightarrow> bool" where
  "plain_data d = (case d of ChildUsageAttributed _ _ _ _ \<Rightarrow> False | _ \<Rightarrow> True)"

definition fresh_id :: "session_manager \<Rightarrow> jstring \<Rightarrow> bool" where
  "fresh_id s i \<longleftrightarrow> i \<noteq> [] \<and> sm_by_id s i = None"

inductive session_step :: "session_manager \<Rightarrow> session_manager \<Rightarrow> bool" where
  append: "fresh_id s i \<Longrightarrow> plain_data d \<Longrightarrow> session_step s (append_data d i t s)"
| label: "fresh_id s i \<Longrightarrow> append_label_change target l i t s = Some s' \<Longrightarrow> session_step s s'"
| attribute: "fresh_id s i \<Longrightarrow> append_child_usage_attribution target c a orig i t s = Some s' \<Longrightarrow> session_step s s'"
| branch: "branch f s = Some s' \<Longrightarrow> session_step s s'"
| reset: "session_step s (reset_leaf s)"
| summary: "fresh_id s i \<Longrightarrow> branch_with_summary f b i t s = Some s' \<Longrightarrow> session_step s s'"
| flush: "session_step s (flush_now s)"
| file_lost: "session_step s (s\<lparr>sm_disk := None\<rparr>)"

inductive session_reachable :: "bool \<Rightarrow> session_manager \<Rightarrow> bool" for persist where
  start: "session_reachable persist (empty_session persist)"
| step: "session_reachable persist s \<Longrightarrow> session_step s s' \<Longrightarrow> session_reachable persist s'"

inductive_cases session_stepE: "session_step s s'"

definition tree_ok :: "session_manager \<Rightarrow> bool" where
  "tree_ok s \<longleftrightarrow>
     wf_entries (sm_entries s) \<and> sm_by_id s = index_of (sm_entries s)
     \<and> (case sm_leaf s of None \<Rightarrow> True | Some l \<Rightarrow> l \<in> se_id ` set (sm_entries s))
     \<and> targets (sm_entries s) \<subseteq> se_id ` set (sm_entries s)
     \<and> loaded (sm_entries s) = sm_entries s"

definition disk_ok :: "session_manager \<Rightarrow> bool" where
  "disk_ok s \<longleftrightarrow>
     (case sm_disk s of
        Some file \<Rightarrow> sm_persist s \<and> sm_flushed s \<longrightarrow> loaded file = sm_entries s
      | None \<Rightarrow> True)"

lemma persist_entry_fields [simp]:
  "sm_entries (persist_entry e s) = sm_entries s" "sm_by_id (persist_entry e s) = sm_by_id s"
  "sm_leaf (persist_entry e s) = sm_leaf s" "sm_labels (persist_entry e s) = sm_labels s"
  "sm_has_assistant (persist_entry e s) = sm_has_assistant s" "sm_persist (persist_entry e s) = sm_persist s"
  by (simp_all add: persist_entry_def rewrite_file_def split: option.split)

lemma append_entry_fields [simp]:
  "sm_entries (append_entry e s) = sm_entries s @ [e]"
  "sm_by_id (append_entry e s) = (sm_by_id s)(se_id e \<mapsto> e)"
  "sm_leaf (append_entry e s) = Some (se_id e)" "sm_persist (append_entry e s) = sm_persist s"
  by (simp_all add: append_entry_def)

lemma set_label_fields [simp]:
  "sm_entries (set_label target l t s) = sm_entries s" "sm_by_id (set_label target l t s) = sm_by_id s"
  "sm_leaf (set_label target l t s) = sm_leaf s" "sm_disk (set_label target l t s) = sm_disk s"
  "sm_flushed (set_label target l t s) = sm_flushed s" "sm_persist (set_label target l t s) = sm_persist s"
  by (simp_all add: set_label_def split: option.split)

lemma new_entry_fields [simp]:
  "se_id (new_entry d i t s) = i" "se_parent (new_entry d i t s) = sm_leaf s" "se_data (new_entry d i t s) = d"
  by (simp_all add: new_entry_def)

lemma set_label_ok [simp]:
  "tree_ok (set_label target l t s) = tree_ok s" "disk_ok (set_label target l t s) = disk_ok s"
  by (simp_all add: tree_ok_def disk_ok_def split: option.split)

lemma plain_attribution: "plain_data (se_data e) \<Longrightarrow> attribution e = None"
  by (simp add: plain_data_def attribution_def split: entry_data.splits)

text \<open>The entry appended to a well-formed manager: with a fresh id, under the leaf.\<close>

definition fits :: "session_manager \<Rightarrow> session_entry \<Rightarrow> bool" where
  "fits s e \<longleftrightarrow> fresh_id s (se_id e) \<and> se_parent e = sm_leaf s"

lemma fits_wf: "tree_ok s \<Longrightarrow> fits s e \<Longrightarrow> wf_entries (sm_entries s @ [e])"
  by (auto simp: tree_ok_def fits_def fresh_id_def wf_entries_snoc split: option.splits)

lemma fits_not_target: "tree_ok s \<Longrightarrow> fits s e \<Longrightarrow> se_id e \<notin> targets (sm_entries s)"
  by (auto simp: tree_ok_def fits_def fresh_id_def)

lemma append_plain_ok:
  assumes "tree_ok s" "fits s e" "attribution e = None"
  shows "tree_ok (append_entry e s)"
proof -
  have "targets [e] = {}" using assms(3) by (simp add: targets_def)
  then show ?thesis
    using assms fits_wf [OF assms(1,2)] loaded_snoc [OF assms(3) fits_not_target [OF assms(1,2)]]
    by (auto simp: tree_ok_def index_of_snoc)
qed

lemma persist_disk_ok:
  assumes "disk_ok s" "tree_ok s" "fits s e" "attribution e = None"
  shows "disk_ok (append_entry e s)"
proof -
  have new: "loaded (sm_entries s @ [e]) = sm_entries s @ [e]"
    using append_plain_ok [OF assms(2-4)] by (simp add: tree_ok_def)
  have "loaded (f @ [e]) = sm_entries s @ [e]" if "loaded f = sm_entries s" for f
    using that loaded_snoc [OF assms(4), of f] loaded_targets [OF that] fits_not_target [OF assms(2,3)] by simp
  with new assms(1) show ?thesis
    by (auto simp: disk_ok_def append_entry_def persist_entry_def rewrite_file_def split: option.splits)
qed

lemma append_attribution_ok:
  assumes "tree_ok s" "disk_ok s" "fresh_id s i"
    "append_child_usage_attribution target c a orig i t s = Some s'"
  shows "tree_ok s' \<and> disk_ok s'"
proof -
  from assms(4) obtain e where e: "sm_by_id s target = Some e" "is_assistant_entry e"
    by (auto simp: append_child_usage_attribution_def split: option.splits if_splits)
  define o2 where "o2 = (if orig = Some [] then None else orig)"
  define s1 where "s1 = s\<lparr>sm_entries := attribute_usage target a (sm_entries s),
      sm_by_id := (sm_by_id s)(target \<mapsto> set_usage a e)\<rparr>"
  define n where "n = new_entry (ChildUsageAttributed target c a o2) i t s1"
  have s': "s' = append_entry n s1"
    using assms(4) e by (simp add: append_child_usage_attribution_def s1_def n_def o2_def append_data_def Let_def)
  have at: "attribution n = Some (target, a)" by (simp add: n_def attribution_def)
  have wf: "wf_entries (sm_entries s)" and idx: "sm_by_id s = index_of (sm_entries s)"
    and ld: "loaded (sm_entries s) = sm_entries s" using assms(1) by (simp_all add: tree_ok_def)
  have tgt: "target \<in> se_id ` set (sm_entries s)" using e(1) idx by (auto dest: index_of_Some)
  have ids: "se_id ` set (attribute_usage target a (sm_entries s)) = se_id ` set (sm_entries s)"
    by (metis attribute_ids set_map)
  have wf1: "wf_entries (attribute_usage target a (sm_entries s))"
    using wf ids by (simp add: wf_entries_def parents_attribute)
  have idx1: "index_of (attribute_usage target a (sm_entries s)) = (sm_by_id s)(target \<mapsto> set_usage a e)"
    using index_of_attribute [of "sm_entries s" target e a] wf e idx by (simp add: wf_entries_def)
  have ld1: "loaded (attribute_usage target a (sm_entries s) @ [n]) = attribute_usage target a (sm_entries s) @ [n]"
    by (rule loaded_attribute [OF ld at])
  have fresh: "i \<notin> se_id ` set (sm_entries s)" "i \<noteq> []" using assms(3) idx by (simp_all add: fresh_id_def)
  have tg: "targets (attribute_usage target a (sm_entries s) @ [n]) = insert target (targets (sm_entries s))"
    using at by (auto simp: targets_def)
  have tree: "tree_ok s'"
    unfolding s' tree_ok_def
    using assms(1) wf1 idx1 ld1 tg fresh tgt ids
    by (auto simp: s1_def n_def index_of_snoc wf_entries_snoc tree_ok_def split: option.splits)
  have "loaded (f @ [n]) = attribute_usage target a (sm_entries s) @ [n]" if "loaded f = sm_entries s" for f
    using that loaded_attribution [OF at, of f] by simp
  with assms(2) ld1 have "disk_ok s'"
    unfolding s' by (auto simp: disk_ok_def append_entry_def persist_entry_def rewrite_file_def s1_def split: option.splits)
  with tree show ?thesis by simp
qed

lemma disk_ok_leaf [simp]: "disk_ok (s\<lparr>sm_leaf := l\<rparr>) = disk_ok s"
  by (simp add: disk_ok_def split: option.split)

lemma leaf_change_ok:
  "tree_ok s \<Longrightarrow> (case l of None \<Rightarrow> True | Some i \<Rightarrow> sm_by_id s i \<noteq> None) \<Longrightarrow> tree_ok (s\<lparr>sm_leaf := l\<rparr>)"
  by (auto simp: tree_ok_def split: option.splits)

lemma append_data_ok:
  assumes "tree_ok s" "disk_ok s" "fresh_id s i" "plain_data d"
  shows "tree_ok (append_data d i t s) \<and> disk_ok (append_data d i t s)"
proof -
  have f: "fits s (new_entry d i t s)" using assms(3) by (simp add: fits_def)
  have a: "attribution (new_entry d i t s) = None" using assms(4) plain_attribution by simp
  from append_plain_ok [OF assms(1) f a] persist_disk_ok [OF assms(2,1) f a]
  show ?thesis by (simp add: append_data_def)
qed

lemma session_step_ok:
  assumes "session_step s s'" "tree_ok s \<and> disk_ok s"
  shows "tree_ok s' \<and> disk_ok s'"
  using assms(1)
proof cases
  case (append i d t)
  with assms(2) append_data_ok show ?thesis by blast
next
  case (label i target l t)
  then have s': "s' = set_label target l t (append_data (LabelEntry target l) i t s)"
    by (simp add: append_label_change_def split: if_splits)
  from append_data_ok [of s i "LabelEntry target l" t] assms(2) label(1) show ?thesis
    by (simp add: s' plain_data_def)
next
  case (attribute i target c a orig t)
  with assms(2) append_attribution_ok show ?thesis by blast
next
  case (branch f)
  then have "s' = s\<lparr>sm_leaf := Some f\<rparr>" "sm_by_id s f \<noteq> None" by (auto simp: branch_def split: if_splits)
  with assms(2) leaf_change_ok [of s "Some f"] show ?thesis by simp
next
  case reset
  with assms(2) leaf_change_ok [of s None] show ?thesis by (simp add: reset_leaf_def)
next
  case (summary i f b t)
  then have s': "s' = append_data (BranchSummaryEntry (b\<lparr>bd_from := (case f of Some f \<Rightarrow> f | None \<Rightarrow> js ''root'')\<rparr>)) i t
        (s\<lparr>sm_leaf := f\<rparr>)"
    and src: "case f of None \<Rightarrow> True | Some j \<Rightarrow> sm_by_id s j \<noteq> None"
    by (auto simp: branch_with_summary_def split: if_splits option.splits)
  have "tree_ok (s\<lparr>sm_leaf := f\<rparr>)" using leaf_change_ok assms(2) src by blast
  moreover have "disk_ok (s\<lparr>sm_leaf := f\<rparr>)" using assms(2) by simp
  moreover have "fresh_id (s\<lparr>sm_leaf := f\<rparr>) i" using summary(1) by (simp add: fresh_id_def)
  ultimately show ?thesis unfolding s' by (intro append_data_ok) (simp_all add: plain_data_def)
next
  case flush
  with assms(2) show ?thesis
    by (auto simp: flush_now_def rewrite_file_def tree_ok_def disk_ok_def split: option.splits)
next
  case file_lost
  with assms(2) show ?thesis by (auto simp: tree_ok_def disk_ok_def split: option.splits)
qed

lemma session_reachable_ok: "session_reachable persist s \<Longrightarrow> tree_ok s \<and> disk_ok s"
proof (induction rule: session_reachable.induct)
  case start
  then show ?case
    by (simp add: empty_session_def tree_ok_def disk_ok_def targets_def apply_child_usage_attributions_def)
next
  case (step s s')
  from session_step_ok [OF step.hyps(2) step.IH] show ?case .
qed

lemma reachable_tree: "session_reachable persist s \<Longrightarrow> tree_ok s"
  using session_reachable_ok by blast

lemma reachable_persist: "session_reachable persist s \<Longrightarrow> sm_persist s = persist"
proof (induction rule: session_reachable.induct)
  case (step s s')
  from step.hyps(2) have "sm_persist s' = sm_persist s"
    by cases (auto simp: append_data_def append_label_change_def append_child_usage_attribution_def branch_def
        reset_leaf_def branch_with_summary_def flush_now_def rewrite_file_def Let_def
        split: if_splits option.splits)
  with step.IH show ?case by simp
qed (simp add: empty_session_def)

lemma index_entry_fields:
  "sm_entries (index_entry e s) = sm_entries s" "sm_by_id (index_entry e s) = (sm_by_id s)(se_id e \<mapsto> e)"
  by (simp_all add: index_entry_def Let_def split: entry_data.split)

lemma fold_index_fields:
  "sm_entries (fold index_entry es s) = sm_entries s"
  "sm_by_id (fold index_entry es s) = fold (\<lambda>e m. m(se_id e \<mapsto> e)) es (sm_by_id s)"
  by (induction es arbitrary: s) (simp_all add: index_entry_fields)

lemma build_index_entries [simp]: "sm_entries (build_index s) = sm_entries s"
  by (simp add: build_index_def fold_index_fields)

lemma build_index_by_id [simp]: "sm_by_id (build_index s) = index_of (sm_entries s)"
  by (simp add: build_index_def fold_index_fields index_of_def)

section \<open>The branch of the leaf\<close>

lemma branch_of_leaf:
  assumes "tree_ok s" "sm_leaf s = Some l"
  shows "\<exists>e p. sm_by_id s l = Some e \<and> e \<in> set (sm_entries s) \<and> get_branch s None = Some p
     \<and> path_to (sm_by_id s) e = Some p \<and> chain (sm_by_id s) (rev p) \<and> p \<noteq> [] \<and> last p = e
     \<and> set p \<subseteq> set (sm_entries s) \<and> distinct (map se_id p)"
proof -
  have l: "l \<in> se_id ` set (sm_entries s)" "wf_entries (sm_entries s)" "sm_by_id s = index_of (sm_entries s)"
    using assms by (auto simp: tree_ok_def)
  then have "l \<noteq> []" by (metis wf_entries_def)
  from l obtain e where e: "e \<in> set (sm_entries s)" "se_id e = l" by auto
  with l(2,3) have "sm_by_id s l = Some e" using index_of_member [of "sm_entries s" e] by (simp add: wf_entries_def)
  moreover from path_total [OF l(2) e(1)] l(3) obtain p where
    "path_to (sm_by_id s) e = Some p" "chain (sm_by_id s) (rev p)" "last p = e" "p \<noteq> []"
    "set p \<subseteq> set (sm_entries s)" "distinct (map se_id p)" by auto
  ultimately show ?thesis using assms(2) e(1) \<open>l \<noteq> []\<close> by (auto simp: get_branch_def)
qed

lemma branch_extends:
  assumes "tree_ok s" "fits s e" "attribution e = None"
  shows "get_branch (append_entry e s) None = map_option (\<lambda>p. p @ [e]) (get_branch s None)"
proof -
  have wf: "wf_entries (sm_entries s @ [e])" by (rule fits_wf [OF assms(1,2)])
  have idx: "sm_by_id (append_entry e s) = index_of (sm_entries s @ [e])"
    using assms(1) by (simp add: tree_ok_def index_of_snoc)
  have e: "sm_by_id (append_entry e s) (se_id e) = Some e" "se_id e \<noteq> []"
    using assms(2) by (simp_all add: fits_def fresh_id_def)
  then have g: "get_branch (append_entry e s) None = path_to (index_of (sm_entries s @ [e])) e"
    unfolding get_branch_def idx [symmetric] by simp
  show ?thesis
  proof (cases "sm_leaf s")
    case None
    then have "parent_entry (index_of (sm_entries s @ [e])) e = None"
      using assms(2) by (simp add: parent_entry_def fits_def)
    with g None show ?thesis by (simp add: path_to_def walk.simps get_branch_def)
  next
    case (Some l)
    from branch_of_leaf [OF assms(1) Some] obtain x p where x: "sm_by_id s l = Some x" "x \<in> set (sm_entries s)"
      "get_branch s None = Some p" "path_to (sm_by_id s) x = Some p" by blast
    have "se_id x = l" using x(1) assms(1) index_of_Some by (auto simp: tree_ok_def)
    then have "se_parent e = Some (se_id x)" using assms(2) Some by (simp add: fits_def)
    from path_snoc [OF wf this x(2)] g x(3,4) assms(1) show ?thesis by (simp add: tree_ok_def)
  qed
qed

lemma context_of_branch:
  assumes "tree_ok s" "sm_leaf s = Some l"
  shows "session_context_of s = map_option path_context (get_branch s None)"
proof -
  from branch_of_leaf [OF assms] obtain e p where
    "sm_by_id s l = Some e" "get_branch s None = Some p" "path_to (sm_by_id s) e = Some p" "e \<in> set (sm_entries s)"
    by blast
  moreover have "l \<noteq> []" using assms unfolding tree_ok_def wf_entries_def by (metis option.simps(5))
  ultimately show ?thesis using assms(2) by (simp add: session_context_of_def build_session_context_def Let_def)
qed

section \<open>Properties\<close>


text \<open>
  Appending extends the branch: after an entry is appended to any reachable session, the path
  of the leaf is the path before it followed by the new entry, whatever other branches the file holds.
\<close>

theorem append_extends_the_branch:
  assumes "session_reachable persist s" "fresh_id s i" "plain_data d"
  shows "get_branch (append_data d i t s) None = map_option (\<lambda>p. p @ [new_entry d i t s]) (get_branch s None)"
  unfolding append_data_def
  by (rule branch_extends [OF reachable_tree [OF assms(1)]])
    (use assms(2,3) plain_attribution in \<open>simp_all add: fits_def\<close>)


section \<open>A session with a label\<close>

definition sample_user :: session_manager where
  "sample_user = append_message (user_msg [TextPart (js ''hi'') None]) (js ''u'') 0 (empty_session True)"

definition sample_labelled :: session_manager where
  "sample_labelled =
     (case append_label_change (js ''u'') (Some (js ''start'')) (js ''l'') 1 sample_user of
        Some s \<Rightarrow> append_message (assistant_msg [] Stop) (js ''a'') 2 s
      | None \<Rightarrow> sample_user)"

lemma sample_label_step:
  "append_label_change (js ''u'') (Some (js ''start'')) (js ''l'') 1 sample_user =
     Some (set_label (js ''u'') (Some (js ''start'')) 1
       (append_data (LabelEntry (js ''u'') (Some (js ''start''))) (js ''l'') 1 sample_user))"
  by (simp add: append_label_change_def sample_user_def append_message_def append_data_def)

lemma sample_labelled_eq:
  "sample_labelled = append_message (assistant_msg [] Stop) (js ''a'') 2
     (set_label (js ''u'') (Some (js ''start'')) 1
       (append_data (LabelEntry (js ''u'') (Some (js ''start''))) (js ''l'') 1 sample_user))"
  by (simp only: sample_labelled_def sample_label_step option.case)

lemma sample_user_reachable: "session_reachable True sample_user"
  unfolding sample_user_def append_message_def
  by (rule session_reachable.step [OF session_reachable.start session_step.append])
    (simp_all add: fresh_id_def empty_session_def plain_data_def)

lemma sample_labelled_reachable: "session_reachable True sample_labelled"
  unfolding sample_labelled_eq append_message_def
proof (rule session_reachable.step [OF _ session_step.append])
  show "session_reachable True (set_label (js ''u'') (Some (js ''start'')) 1
       (append_data (LabelEntry (js ''u'') (Some (js ''start''))) (js ''l'') 1 sample_user))"
    by (rule session_reachable.step [OF sample_user_reachable session_step.label [OF _ sample_label_step]])
      (simp add: fresh_id_def sample_user_def append_message_def append_data_def empty_session_def)
qed (simp_all add: fresh_id_def plain_data_def sample_user_def append_message_def append_data_def empty_session_def)

lemma sample_labelled_file:
  "sm_flushed sample_labelled \<and> sm_disk sample_labelled = Some (sm_entries sample_labelled)
   \<and> sm_leaf sample_labelled = Some (js ''a'')"
  unfolding sample_labelled_eq
  by (simp add: sample_user_def append_message_def append_data_def append_entry_def persist_entry_def rewrite_file_def
      empty_session_def set_label_def is_assistant_entry_def sample_defs persists_without_assistant_def)


theorem append_extends_the_branch_witness:
  "get_branch (append_data (ThinkingLevelChange (js ''low'')) (js ''t'') 3 sample_user) None =
     map_option (\<lambda>p. p @ [new_entry (ThinkingLevelChange (js ''low'')) (js ''t'') 3 sample_user])
       (get_branch sample_user None)"
  by (rule append_extends_the_branch [OF sample_user_reachable])
    (simp_all add: fresh_id_def plain_data_def sample_user_def append_message_def append_data_def empty_session_def)


text \<open>
  A fork drops the label entries of its path but keeps the parents of the others: an entry that
  followed a label hangs on an id the new session does not have, and everything before the label is
  lost from the context. Here a labelled prompt and its answer fork into a session that no longer
  holds the prompt.
\<close>

theorem fork_loses_history_before_a_label:
  "session_reachable True sample_labelled
   \<and> map_option (map is_assistant \<circ> cv_messages) (session_context_of sample_labelled) = Some [False, True]
   \<and> map_option (map_option (\<lambda>f. map_option (map is_assistant \<circ> cv_messages) (session_context_of f)))
       (create_branched_session (js ''a'') [js ''m''] sample_labelled) = Some (Some (Some [True]))"
proof (intro conjI)
  show "session_reachable True sample_labelled" by (rule sample_labelled_reachable)
  show "map_option (map is_assistant \<circ> cv_messages) (session_context_of sample_labelled) = Some [False, True]"
    by code_simp
  show "map_option (map_option (\<lambda>f. map_option (map is_assistant \<circ> cv_messages) (session_context_of f)))
       (create_branched_session (js ''a'') [js ''m''] sample_labelled) = Some (Some (Some [True]))"
    by code_simp
qed

end
