(* ===== verification/Compaction.thy ===== *)
theory Compaction
  imports Tokens LlmText ProviderRetry SessionInvariant
begin

text \<open>
  Compaction of a long session (coding-agent/src/core/compaction/compaction.ts): where to cut, what to
  summarize, the summarization requests, and the entry that replaces the summarized history. A loop
  over indices is a search over the list of indices; a position that the source reports as -1 is
  \<open>None\<close>. The provider is an argument: the completion of a request, from ProviderRetry.
\<close>

section \<open>Messages of entries\<close>

definition harness_digest_custom_type :: jstring where
  "harness_digest_custom_type = js ''harness_digest''"

definition get_message_from_entry :: "session_entry \<Rightarrow> message option" where
  "get_message_from_entry e =
     (case se_data e of
        MessageEntry m \<Rightarrow> Some m
      | CustomMessageEntry ty c display details \<Rightarrow> Some (create_custom_message ty c display details (se_time e))
      | BranchSummaryEntry b \<Rightarrow> Some (create_branch_summary_message (bd_summary b) (bd_from b) (se_time e))
      | CompactionEntry c \<Rightarrow>
          Some (create_compaction_summary_message (cd_summary c) (cd_tokens_before c) (se_time e)
                  (cd_instructions c) None None None)
      | _ \<Rightarrow> None)"

definition get_message_from_entry_for_compaction :: "session_entry \<Rightarrow> message option" where
  "get_message_from_entry_for_compaction e =
     (case se_data e of
        CompactionEntry _ \<Rightarrow> None
      | CustomMessageEntry ty c display details \<Rightarrow>
          if ty = harness_digest_custom_type then None else get_message_from_entry e
      | _ \<Rightarrow> get_message_from_entry e)"

definition summarizer_messages :: "session_entry list \<Rightarrow> message list" where
  "summarizer_messages es = List.map_filter get_message_from_entry_for_compaction es"

lemma summarizer_messages_append [simp]:
  "summarizer_messages (es @ fs) = summarizer_messages es @ summarizer_messages fs"
  by (simp add: summarizer_messages_def List.map_filter_def)

section \<open>The cut\<close>

definition cut_entry :: "session_entry \<Rightarrow> bool" where
  "cut_entry e =
     (case se_data e of
        MessageEntry m \<Rightarrow> \<not> is_tool_result m
      | BranchSummaryEntry _ \<Rightarrow> True
      | CustomMessageEntry _ _ _ _ \<Rightarrow> True
      | _ \<Rightarrow> False)"

definition find_valid_cut_points :: "session_entry list \<Rightarrow> nat \<Rightarrow> nat \<Rightarrow> nat list" where
  "find_valid_cut_points es s e = filter (\<lambda>i. cut_entry (es ! i)) [s..<e]"

definition turn_boundary :: "session_entry \<Rightarrow> bool" where
  "turn_boundary e =
     (case se_data e of
        BranchSummaryEntry _ \<Rightarrow> True
      | CustomMessageEntry _ _ _ _ \<Rightarrow> True
      | MessageEntry m \<Rightarrow> (case m of User _ \<Rightarrow> True | BashExecution _ \<Rightarrow> True | _ \<Rightarrow> False)
      | _ \<Rightarrow> False)"

definition find_turn_start_index :: "session_entry list \<Rightarrow> nat \<Rightarrow> nat \<Rightarrow> nat option" where
  "find_turn_start_index es i s = List.find (\<lambda>j. turn_boundary (es ! j)) (rev [s..<Suc i])"

record cut_point =
  cp_first :: nat
  cp_turn_start :: "nat option"
  cp_split :: bool

definition entry_tokens :: "session_entry \<Rightarrow> nat" where
  "entry_tokens e = (case se_data e of MessageEntry m \<Rightarrow> estimate_tokens m | _ \<Rightarrow> 0)"

text \<open>The backward walk: the first index, from the end, at which the budget is reached.\<close>

fun budget_index :: "session_entry list \<Rightarrow> int \<Rightarrow> int \<Rightarrow> nat list \<Rightarrow> nat option" where
  "budget_index es keep acc [] = None"
| "budget_index es keep acc (i # is) =
     (if \<not> is_message_entry (es ! i) then budget_index es keep acc is
      else
        let acc' = acc + int (entry_tokens (es ! i)) in
        if acc' \<ge> keep then Some i else budget_index es keep acc' is)"

definition choose_cut :: "session_entry list \<Rightarrow> nat list \<Rightarrow> nat \<Rightarrow> nat \<Rightarrow> int \<Rightarrow> nat" where
  "choose_cut es cps s e keep =
     (case budget_index es keep 0 (rev [s..<e]) of
        None \<Rightarrow> hd cps
      | Some i \<Rightarrow> (case List.find (\<lambda>c. i \<le> c) cps of Some c \<Rightarrow> c | None \<Rightarrow> last cps))"

text \<open>The \<open>while\<close> loop that moves the cut back over entries that are not messages.\<close>

fun back_up :: "session_entry list \<Rightarrow> nat \<Rightarrow> nat \<Rightarrow> nat" where
  "back_up es s 0 = 0"
| "back_up es s (Suc c) =
     (if Suc c > s then
        (if is_compaction (es ! c) \<or> is_message_entry (es ! c) then Suc c else back_up es s c)
      else Suc c)"

definition is_user_entry :: "session_entry \<Rightarrow> bool" where
  "is_user_entry e = (case se_data e of MessageEntry (User _) \<Rightarrow> True | _ \<Rightarrow> False)"

definition find_cut_point :: "session_entry list \<Rightarrow> nat \<Rightarrow> nat \<Rightarrow> int \<Rightarrow> cut_point" where
  "find_cut_point es s e keep =
     (let cps = find_valid_cut_points es s e in
      if cps = [] then \<lparr>cp_first = s, cp_turn_start = None, cp_split = False\<rparr>
      else
        let cut = back_up es s (choose_cut es cps s e keep);
            user = is_user_entry (es ! cut);
            turn = (if user then None else find_turn_start_index es cut s)
        in \<lparr>cp_first = cut, cp_turn_start = turn, cp_split = (\<not> user \<and> turn \<noteq> None)\<rparr>)"

section \<open>Preparation\<close>

definition string_items :: "json option \<Rightarrow> jstring list" where
  "string_items v =
     (case v of
        Some (JArr vs) \<Rightarrow> List.map_filter (\<lambda>x. case x of JStr s \<Rightarrow> Some s | _ \<Rightarrow> None) vs
      | _ \<Rightarrow> [])"

definition add_read :: "jstring \<Rightarrow> file_operations \<Rightarrow> file_operations" where
  "add_read p f = f\<lparr>fo_read := add_once p (fo_read f)\<rparr>"

definition add_edit :: "jstring \<Rightarrow> file_operations \<Rightarrow> file_operations" where
  "add_edit p f = f\<lparr>fo_edited := add_once p (fo_edited f)\<rparr>"

definition previous_file_ops :: "compaction_data \<Rightarrow> file_operations" where
  "previous_file_ops c =
     (if cd_from_hook c = Some True \<or> cd_details c = None then create_file_ops
      else
        let d = Option.bind (cd_details c) (json_field (js ''readFiles''));
            e = Option.bind (cd_details c) (json_field (js ''modifiedFiles''))
        in fold add_edit (string_items e) (fold add_read (string_items d) create_file_ops))"

definition extract_file_operations :: "message list \<Rightarrow> compaction_data option \<Rightarrow> file_operations" where
  "extract_file_operations ms prev =
     fold extract_file_ops_from_message ms
       (case prev of Some c \<Rightarrow> previous_file_ops c | None \<Rightarrow> create_file_ops)"

record compaction_preparation =
  cpn_first_kept :: jstring
  cpn_messages :: "message list"
  cpn_prefix :: "message list"
  cpn_split :: bool
  cpn_tokens :: int
  cpn_previous :: "jstring option"
  cpn_files :: file_operations
  cpn_settings :: compaction_settings

definition slice_list :: "nat \<Rightarrow> nat \<Rightarrow> 'a list \<Rightarrow> 'a list" where
  "slice_list i j xs = drop i (take j xs)"

definition last_compaction_index :: "session_entry list \<Rightarrow> nat option" where
  "last_compaction_index es = List.find (\<lambda>i. is_compaction (es ! i)) (rev [0..<length es])"

definition compaction_data_of :: "session_entry \<Rightarrow> compaction_data option" where
  "compaction_data_of e = (case se_data e of CompactionEntry c \<Rightarrow> Some c | _ \<Rightarrow> None)"

definition previous_compaction :: "session_entry list \<Rightarrow> compaction_data option" where
  "previous_compaction es = Option.bind (last_compaction_index es) (\<lambda>i. compaction_data_of (es ! i))"

definition boundary_start :: "session_entry list \<Rightarrow> nat" where
  "boundary_start es =
     (case last_compaction_index es of
        None \<Rightarrow> 0
      | Some k \<Rightarrow>
          (case previous_compaction es of
             None \<Rightarrow> 0
           | Some c \<Rightarrow>
               (case List.find (\<lambda>i. se_id (es ! i) = cd_first_kept c) [0..<length es] of
                  Some i \<Rightarrow> i | None \<Rightarrow> Suc k)))"

text \<open>
  \<open>prepareCompaction\<close>; the outer option is a walk that does not end, the inner one its \<open>undefined\<close>.
\<close>

definition prepare_compaction ::
  "session_entry list \<Rightarrow> compaction_settings \<Rightarrow> compaction_preparation option option" where
  "prepare_compaction es settings =
     (if es \<noteq> [] \<and> is_compaction (last es) then Some None
      else Option.bind (entries_context es) (\<lambda>ctx.
        let previous = map_option cd_summary (previous_compaction es);
            s = boundary_start es;
            cut = find_cut_point es s (length es) (keep_recent_tokens settings)
        in if length es \<le> cp_first cut \<or> se_id (es ! cp_first cut) = [] then Some None
           else
             let history_end = (if cp_split cut then the (cp_turn_start cut) else cp_first cut);
                 messages = summarizer_messages (slice_list s history_end es);
                 prefix = (if cp_split cut
                           then summarizer_messages (slice_list (the (cp_turn_start cut)) (cp_first cut) es) else [])
             in if messages = [] \<and> prefix = [] \<and> (previous = None \<or> previous = Some []) then Some None
                else Some (Some
                  \<lparr>cpn_first_kept = se_id (es ! cp_first cut), cpn_messages = messages, cpn_prefix = prefix,
                   cpn_split = cp_split cut,
                   cpn_tokens = ce_tokens (estimate_context_tokens (cv_messages ctx)),
                   cpn_previous = previous,
                   cpn_files = fold extract_file_ops_from_message prefix
                     (extract_file_operations messages (previous_compaction es)),
                   cpn_settings = settings\<rparr>)))"

section \<open>The prompts\<close>

definition summarization_prompt :: jstring where
  "summarization_prompt = lines_of
     [js ''The messages above are a conversation to summarize. Create a structured context checkpoint summary that another LLM will use to continue the work.'',
      [],
      js ''Use this EXACT format:'',
      [],
      js ''## Goal'',
      js ''[What is the user trying to accomplish? Can be multiple items if the session covers different tasks.]'',
      [],
      js ''## Constraints & Preferences'',
      js ''- [Any constraints, preferences, or requirements mentioned by user]'',
      js ''- [Or '' @ [34] @ js ''(none)'' @ [34] @ js '' if none were mentioned]'',
      [],
      js ''## Progress'',
      js ''### Done'',
      js ''- [x] [Completed tasks/changes]'',
      [],
      js ''### In Progress'',
      js ''- [ ] [Current work]'',
      [],
      js ''### Blocked'',
      js ''- [Issues preventing progress, if any]'',
      [],
      js ''## Key Decisions'',
      js ''- **[Decision]**: [Brief rationale]'',
      [],
      js ''## Next Steps'',
      js ''1. [Ordered list of what should happen next]'',
      [],
      js ''## Critical Context'',
      js ''- [Any data, examples, or references needed to continue]'',
      js ''- [Or '' @ [34] @ js ''(none)'' @ [34] @ js '' if not applicable]'',
      [],
      js ''Keep each section concise. Preserve exact file paths, function names, and error messages.'']"

definition update_summarization_prompt :: jstring where
  "update_summarization_prompt = lines_of
     [js ''The messages above are NEW conversation messages to incorporate into the existing summary provided in <previous-summary> tags.'',
      [],
      js ''Update the existing structured summary with new information. RULES:'',
      js ''- PRESERVE all existing information from the previous summary'',
      js ''- ADD new progress, decisions, and context from the new messages'',
      js ''- UPDATE the Progress section: move items from '' @ [34] @ js ''In Progress'' @ [34] @ js '' to '' @ [34] @ js ''Done'' @ [34] @ js '' when completed'',
      js ''- UPDATE '' @ [34] @ js ''Next Steps'' @ [34] @ js '' based on what was accomplished'',
      js ''- PRESERVE exact file paths, function names, and error messages'',
      js ''- If something is no longer relevant, you may remove it'',
      [],
      js ''Use this EXACT format:'',
      [],
      js ''## Goal'',
      js ''[Preserve existing goals, add new ones if the task expanded]'',
      [],
      js ''## Constraints & Preferences'',
      js ''- [Preserve existing, add new ones discovered]'',
      [],
      js ''## Progress'',
      js ''### Done'',
      js ''- [x] [Include previously done items AND newly completed items]'',
      [],
      js ''### In Progress'',
      js ''- [ ] [Current work - update based on progress]'',
      [],
      js ''### Blocked'',
      js ''- [Current blockers - remove if resolved]'',
      [],
      js ''## Key Decisions'',
      js ''- **[Decision]**: [Brief rationale] (preserve all previous, add new)'',
      [],
      js ''## Next Steps'',
      js ''1. [Update based on current state]'',
      [],
      js ''## Critical Context'',
      js ''- [Preserve important context, add new if needed]'',
      [],
      js ''Keep each section concise. Preserve exact file paths, function names, and error messages.'']"

definition turn_prefix_summarization_prompt :: jstring where
  "turn_prefix_summarization_prompt = lines_of
     [js ''This is the PREFIX of a turn that was too large to keep. The SUFFIX (recent work) is retained.'',
      [],
      js ''Summarize the prefix to provide context for the retained suffix:'',
      [],
      js ''## Original Request'',
      js ''[What did the user ask for in this turn?]'',
      [],
      js ''## Early Progress'',
      js ''- [Key decisions and work done in the prefix]'',
      [],
      js ''## Context for Suffix'',
      js ''- [Information needed to understand the retained recent work]'',
      [],
      js ''Be concise. Focus on what'' @ [39] @ js ''s needed to understand the kept suffix.'']"

definition kernel_persist_summary_note :: jstring where
  "kernel_persist_summary_note = js ''Note: the Python kernel keeps running after this summary '' @ [0x2014] @ js '' every Python variable, import, and helper you defined stays available. The cells that defined them won'' @ [39] @ js ''t appear above, so record in the summary any names worth remembering so you reuse them instead of redefining them.''"

definition summarization_system_prompt :: jstring where
  "summarization_system_prompt = lines_of
     [js ''You are a context summarization assistant. Your task is to read a conversation between a user and an AI coding assistant, then produce a structured summary following the exact format specified.'',
      [],
      js ''Do NOT continue the conversation. Do NOT respond to any questions in the conversation. ONLY output the structured summary.'']"

definition blank :: "jstring option \<Rightarrow> bool" where
  "blank v \<longleftrightarrow> v = None \<or> v = Some []"

definition build_summarization_prompt :: "jstring option \<Rightarrow> jstring option \<Rightarrow> jstring" where
  "build_summarization_prompt instructions previous =
     (let base = (if blank previous then summarization_prompt else update_summarization_prompt);
          extra = (if blank instructions then []
                   else newline # newline # lines_of
                     [js ''<user-instructions>'',
                      js ''The user provided these instructions for this summary. Follow them with high priority while keeping the section format above: emphasize what they ask to focus on, and preserve verbatim anything they ask to remember.'',
                      the instructions, js ''</user-instructions>''])
      in base @ extra @ newline # newline # kernel_persist_summary_note)"

section \<open>Summaries\<close>

text \<open>A summarization request: its system prompt, its user text, its token limit and its reasoning level.\<close>

record summary_request =
  sr_system :: jstring
  sr_text :: jstring
  sr_max_tokens :: int
  sr_reasoning :: "jstring option"

type_synonym summary_provider = "summary_request \<Rightarrow> assistant_message attempt"

text \<open>The model's \<open>reasoning\<close> flag and the thinking level of the session.\<close>

definition reasoning_level :: "bool \<Rightarrow> jstring option \<Rightarrow> jstring option" where
  "reasoning_level supported level =
     (if supported \<and> \<not> blank level \<and> level \<noteq> Some (js ''off'') then level else None)"

definition summary_slice :: "assistant_message attempt \<Rightarrow> (jstring \<times> usage option) attempt" where
  "summary_slice r =
     (case r of
        Threw \<Rightarrow> Threw
      | Got m \<Rightarrow>
          if am_stop m = ErrorStop then Threw
          else Got (join_with [newline]
                      (List.map_filter (\<lambda>b. case b of TextBlock t _ \<Rightarrow> Some t | _ \<Rightarrow> None) (am_content m)),
                    Some (am_usage m)))"

definition conversation_block :: "message list \<Rightarrow> jstring" where
  "conversation_block ms =
     js ''<conversation>'' @ newline # serialize_conversation (convert_to_llm ms) @ newline #
     js ''</conversation>'' @ [newline, newline]"

definition generate_summary ::
  "summary_provider \<Rightarrow> bool \<Rightarrow> jstring option \<Rightarrow> message list \<Rightarrow> int \<Rightarrow> jstring option \<Rightarrow> jstring option
   \<Rightarrow> (jstring \<times> usage option) attempt" where
  "generate_summary provider supported level ms reserve instructions previous =
     summary_slice (provider
       \<lparr>sr_system = summarization_system_prompt,
        sr_text = conversation_block ms
          @ (if blank previous then []
             else js ''<previous-summary>'' @ newline # the previous @ newline # js ''</previous-summary>''
                  @ [newline, newline])
          @ build_summarization_prompt instructions previous,
        sr_max_tokens = 8 * reserve div 10, sr_reasoning = reasoning_level supported level\<rparr>)"

definition generate_turn_prefix_summary ::
  "summary_provider \<Rightarrow> bool \<Rightarrow> jstring option \<Rightarrow> message list \<Rightarrow> int \<Rightarrow> (jstring \<times> usage option) attempt" where
  "generate_turn_prefix_summary provider supported level ms reserve =
     summary_slice (provider
       \<lparr>sr_system = summarization_system_prompt,
        sr_text = conversation_block ms @ turn_prefix_summarization_prompt,
        sr_max_tokens = 5 * reserve div 10, sr_reasoning = reasoning_level supported level\<rparr>)"

record compaction_result =
  crs_summary :: jstring
  crs_first_kept :: jstring
  crs_tokens_before :: int
  crs_read_files :: "jstring list"
  crs_modified_files :: "jstring list"
  crs_usage :: "usage option"

definition total_usage :: "usage option list \<Rightarrow> usage option" where
  "total_usage us =
     (case List.map_filter (\<lambda>u. u) us of
        [] \<Rightarrow> None
      | vs \<Rightarrow> Some (fold (\<lambda>u t. add_assistant_usage t u) vs empty_usage))"

definition split_summary :: "jstring \<Rightarrow> jstring \<Rightarrow> jstring" where
  "split_summary history prefix =
     history @ lines_of [[], [], js ''---'', [], js ''**Turn Context (split turn):**'', [], prefix]"

definition compact ::
  "summary_provider \<Rightarrow> bool \<Rightarrow> jstring option \<Rightarrow> jstring option \<Rightarrow> compaction_preparation
   \<Rightarrow> compaction_result attempt" where
  "compact provider supported level instructions p =
     (let reserve = reserve_tokens (cpn_settings p);
          history = (\<lambda>ms. generate_summary provider supported level ms reserve instructions (cpn_previous p));
          files = compute_file_lists (cpn_files p);
          finish = (\<lambda>summary usages.
            if cpn_first_kept p = [] then Threw
            else Got \<lparr>crs_summary = summary @ format_file_operations (fst files) (snd files),
                      crs_first_kept = cpn_first_kept p, crs_tokens_before = cpn_tokens p,
                      crs_read_files = fst files, crs_modified_files = snd files,
                      crs_usage = total_usage usages\<rparr>)
      in if cpn_split p \<and> cpn_prefix p \<noteq> [] then
           (case (if cpn_messages p \<noteq> [] then history (cpn_messages p) else Got (js ''No prior history.'', None)) of
              Threw \<Rightarrow> Threw
            | Got (h, hu) \<Rightarrow>
                (case generate_turn_prefix_summary provider supported level (cpn_prefix p) reserve of
                   Threw \<Rightarrow> Threw
                 | Got (t, tu) \<Rightarrow> finish (split_summary h t) [hu, tu]))
         else (case history (cpn_messages p) of
                 Threw \<Rightarrow> Threw
               | Got (h, hu) \<Rightarrow> finish h [hu]))"

section \<open>Where the cut falls\<close>

definition is_tool_result_entry :: "session_entry \<Rightarrow> bool" where
  "is_tool_result_entry e = (case se_data e of MessageEntry m \<Rightarrow> is_tool_result m | _ \<Rightarrow> False)"

lemma cut_entry_not_result: "cut_entry e \<Longrightarrow> \<not> is_tool_result_entry e"
  by (simp add: cut_entry_def is_tool_result_entry_def split: entry_data.splits)

lemma non_message_not_result: "\<not> is_message_entry e \<Longrightarrow> \<not> is_tool_result_entry e"
  by (simp add: is_message_entry_def is_tool_result_entry_def split: entry_data.splits)

lemma set_cut_points: "c \<in> set (find_valid_cut_points es s e) \<longleftrightarrow> s \<le> c \<and> c < e \<and> cut_entry (es ! c)"
  by (auto simp: find_valid_cut_points_def)

lemma choose_cut_in: "cps \<noteq> [] \<Longrightarrow> choose_cut es cps s e keep \<in> set cps"
  by (auto simp: choose_cut_def find_Some_iff split: option.split)

lemma back_up_le: "back_up es s c \<le> c"
  by (induction c) (auto intro: le_SucI)

lemma back_up_ge: "s \<le> c \<Longrightarrow> s \<le> back_up es s c"
  by (induction c) (auto simp: le_Suc_eq)

lemma back_up_passed: "back_up es s c \<le> j \<Longrightarrow> j < c \<Longrightarrow> \<not> is_message_entry (es ! j) \<and> \<not> is_compaction (es ! j)"
  by (induction c) (auto split: if_splits simp: less_Suc_eq)

lemma back_up_stops:
  "s \<le> c \<Longrightarrow> back_up es s c = s \<or>
     is_message_entry (es ! (back_up es s c - 1)) \<or> is_compaction (es ! (back_up es s c - 1))"
  by (induction c) (auto simp: le_Suc_eq)

lemma cut_cases:
  assumes "find_valid_cut_points es s e \<noteq> []"
  shows "\<exists>c. c \<in> set (find_valid_cut_points es s e) \<and> cp_first (find_cut_point es s e keep) = back_up es s c"
  using choose_cut_in [OF assms, of es s e keep] assms by (auto simp: find_cut_point_def Let_def)

lemma cut_in_range:
  assumes "find_valid_cut_points es s e \<noteq> []"
  shows "s \<le> cp_first (find_cut_point es s e keep)" "cp_first (find_cut_point es s e keep) < e"
    "\<not> is_tool_result_entry (es ! cp_first (find_cut_point es s e keep))"
    "cp_first (find_cut_point es s e keep) = s
     \<or> is_message_entry (es ! (cp_first (find_cut_point es s e keep) - 1))
     \<or> is_compaction (es ! (cp_first (find_cut_point es s e keep) - 1))"
proof -
  from cut_cases [OF assms] obtain c where c: "s \<le> c" "c < e" "cut_entry (es ! c)"
    "cp_first (find_cut_point es s e keep) = back_up es s c" by (auto simp: set_cut_points)
  show "s \<le> cp_first (find_cut_point es s e keep)" using c back_up_ge by simp
  show "cp_first (find_cut_point es s e keep) < e" using c back_up_le [of es s c] by simp
  show "\<not> is_tool_result_entry (es ! cp_first (find_cut_point es s e keep))"
  proof (cases "back_up es s c = c")
    case True
    with c cut_entry_not_result show ?thesis by simp
  next
    case False
    with back_up_le [of es s c] have "back_up es s c < c" by simp
    with back_up_passed [of es s c] c(4) non_message_not_result show ?thesis by simp
  qed
  show "cp_first (find_cut_point es s e keep) = s
     \<or> is_message_entry (es ! (cp_first (find_cut_point es s e keep) - 1))
     \<or> is_compaction (es ! (cp_first (find_cut_point es s e keep) - 1))"
    using back_up_stops [OF c(1)] c(4) by simp
qed

lemma cut_start_le: "s \<le> cp_first (find_cut_point es s e keep)"
proof (cases "find_valid_cut_points es s e = []")
  case True
  then show ?thesis by (simp add: find_cut_point_def)
next
  case False
  then show ?thesis by (rule cut_in_range)
qed

lemma turn_start_bounds:
  "find_turn_start_index es i s = Some t \<Longrightarrow> s \<le> t \<and> t \<le> i \<and> turn_boundary (es ! t)"
  by (auto simp: find_turn_start_index_def dest!: find_SomeD)

lemma split_turn_start:
  assumes "cp_split (find_cut_point es s e keep)"
  shows "s \<le> the (cp_turn_start (find_cut_point es s e keep))"
    "the (cp_turn_start (find_cut_point es s e keep)) \<le> cp_first (find_cut_point es s e keep)"
  using assms by (auto simp: find_cut_point_def Let_def split: if_splits dest: turn_start_bounds)

section \<open>What is summarized\<close>

lemma slice_list_append: "i \<le> j \<Longrightarrow> j \<le> k \<Longrightarrow> slice_list i j xs @ slice_list j k xs = slice_list i k xs"
  by (simp add: slice_list_def drop_take_append)

definition cut_of :: "session_entry list \<Rightarrow> compaction_settings \<Rightarrow> cut_point" where
  "cut_of es settings = find_cut_point es (boundary_start es) (length es) (keep_recent_tokens settings)"

lemma prepared:
  assumes "prepare_compaction es settings = Some (Some p)"
  shows "cp_first (cut_of es settings) < length es"
    "cpn_first_kept p = se_id (es ! cp_first (cut_of es settings))"
    "cpn_messages p @ cpn_prefix p = summarizer_messages (slice_list (boundary_start es) (cp_first (cut_of es settings)) es)"
    "cpn_previous p = map_option cd_summary (previous_compaction es)"
proof -
  let ?c = "cut_of es settings"
  from assms obtain ctx where p:
    "cp_first ?c < length es" "cpn_first_kept p = se_id (es ! cp_first ?c)"
    "cpn_messages p = summarizer_messages (slice_list (boundary_start es)
        (if cp_split ?c then the (cp_turn_start ?c) else cp_first ?c) es)"
    "cpn_prefix p = (if cp_split ?c then summarizer_messages (slice_list (the (cp_turn_start ?c)) (cp_first ?c) es) else [])"
    "cpn_previous p = map_option cd_summary (previous_compaction es)"
    by (auto simp: prepare_compaction_def cut_of_def Let_def bind_eq_Some_conv split: if_splits)
  show "cp_first ?c < length es" "cpn_first_kept p = se_id (es ! cp_first ?c)"
    "cpn_previous p = map_option cd_summary (previous_compaction es)" by fact+
  show "cpn_messages p @ cpn_prefix p = summarizer_messages (slice_list (boundary_start es) (cp_first ?c) es)"
  proof (cases "cp_split ?c")
    case True
    from split_turn_start [OF True [unfolded cut_of_def]] p(3,4) True
    show ?thesis by (simp add: cut_of_def slice_list_append flip: summarizer_messages_append)
  next
    case False
    with p(3,4) show ?thesis by simp
  qed
qed

section \<open>The context after a compaction\<close>

lemma last_compaction_snoc: "is_compaction c \<Longrightarrow> last_compaction (es @ [c]) = Some c"
  by (simp add: last_compaction_def)

lemma drop_to_id:
  assumes "distinct (map se_id es)" "k < length es"
  shows "dropWhile (\<lambda>e. se_id e \<noteq> se_id (es ! k)) es = drop k es"
proof -
  have "se_id e \<noteq> se_id (es ! k)" if "e \<in> set (take k es)" for e
  proof -
    from that obtain j where "j < k" "j < length es" "e = es ! j" by (auto simp: in_set_conv_nth)
    with assms show ?thesis by (auto simp: distinct_conv_nth)
  qed
  then have "dropWhile (\<lambda>e. se_id e \<noteq> se_id (es ! k)) (take k es @ drop k es) =
      dropWhile (\<lambda>e. se_id e \<noteq> se_id (es ! k)) (drop k es)"
    by (intro dropWhile_append2) auto
  also have "\<dots> = drop k es" using assms(2) by (simp add: Cons_nth_drop_Suc [symmetric])
  finally show ?thesis by simp
qed

lemma path_messages_after_compaction:
  assumes "distinct (map se_id es)" "se_id c \<notin> se_id ` set es" "se_data c = CompactionEntry d"
    "k < length es" "cd_first_kept d = se_id (es ! k)"
  shows "path_messages (es @ [c]) =
    create_compaction_summary_message (cd_summary d) (cd_tokens_before d) (se_time c) (cd_instructions d)
      (Some (length (context_messages (drop k es)))) (cd_digest d) (cd_fingerprint d)
    # context_messages (drop k es)"
proof -
  have comp: "is_compaction c" using assms(3) by (simp add: is_compaction_def)
  have "takeWhile (\<lambda>e. \<not> (is_compaction e \<and> se_id e = se_id c)) (es @ [c]) = es"
    using assms(2) comp by (subst takeWhile_append2) (auto simp: image_iff)
  with drop_to_id [OF assms(1,4)] show ?thesis
    by (simp add: path_messages_def last_compaction_snoc [OF comp] assms(3,5) Let_def retained_entries_def
        context_messages_def)
qed

text \<open>The entry a compaction result is stored as.\<close>

definition result_entry ::
  "compaction_result \<Rightarrow> json option \<Rightarrow> bool option \<Rightarrow> jstring option \<Rightarrow> jstring option \<Rightarrow> jstring option \<Rightarrow> compaction_data" where
  "result_entry r details hook instructions digest fingerprint =
     \<lparr>cd_summary = crs_summary r, cd_first_kept = crs_first_kept r, cd_tokens_before = crs_tokens_before r,
      cd_details = details, cd_from_hook = hook, cd_instructions = instructions, cd_usage = crs_usage r,
      cd_digest = digest, cd_fingerprint = fingerprint\<rparr>"

lemma compact_first_kept: "compact provider supported level instructions p = Got r \<Longrightarrow> crs_first_kept r = cpn_first_kept p"
  by (auto simp: compact_def Let_def split: attempt.splits if_splits prod.splits)

section \<open>Properties\<close>



lemma compact_succeeds:
  assumes "\<And>rq. \<exists>m. provider rq = Got m \<and> am_stop m \<noteq> ErrorStop" "cpn_first_kept p \<noteq> []"
  shows "\<exists>r. compact provider supported level instructions p = Got r"
proof -
  have slice: "\<exists>x. summary_slice (provider rq) = Got x" for rq
    using assms(1) [of rq] by (auto simp: summary_slice_def)
  then have g: "\<exists>x. generate_summary provider supported level ms n i q = Got x" for ms n i q
    by (simp add: generate_summary_def)
  from slice have t: "\<exists>x. generate_turn_prefix_summary provider supported level ms n = Got x" for ms n
    by (simp add: generate_turn_prefix_summary_def)
  obtain h where h: "generate_summary provider supported level (cpn_messages p) (reserve_tokens (cpn_settings p))
      instructions (cpn_previous p) = Got h" using g by blast
  obtain u where u: "generate_turn_prefix_summary provider supported level (cpn_prefix p)
      (reserve_tokens (cpn_settings p)) = Got u" using t by blast
  show ?thesis
    by (cases h; cases u) (use h u assms(2) in \<open>simp add: compact_def Let_def\<close>)
qed

definition sample_settings :: "int \<Rightarrow> compaction_settings" where
  "sample_settings keep = \<lparr>compact_enabled = True, reserve_tokens = 100, keep_recent_tokens = keep\<rparr>"

definition sample_answer :: assistant_message where
  "sample_answer =
     \<lparr>am_content = [TextBlock (js ''done'') None], am_api = [], am_provider = [], am_model = [],
      am_response_model = None, am_response_id = None, am_diagnostics = None, am_usage = empty_usage,
      am_stop = Stop, am_stop_raw = None, am_error = None, am_time = 0\<rparr>"


lemma sample_path: "map_option (map se_id) (get_branch sample_labelled None) = Some [js ''u'', js ''l'', js ''a'']"
  by code_simp

lemma sample_prepared:
  "(case get_branch sample_labelled None of
      Some path \<Rightarrow> map_option (map_option cpn_first_kept) (prepare_compaction path (sample_settings 0))
    | None \<Rightarrow> None) = Some (Some (js ''l''))"
  by code_simp


section \<open>Two flaws of the cut\<close>

definition entry_after :: "string \<Rightarrow> string \<Rightarrow> entry_data \<Rightarrow> session_entry" where
  "entry_after i p d = \<lparr>se_id = js i, se_parent = (if p = [] then None else Some (js p)), se_time = 0, se_data = d\<rparr>"

definition says :: "string \<Rightarrow> message" where
  "says t = assistant_msg [TextBlock (js t) None] Stop"

definition asks :: "string \<Rightarrow> message" where
  "asks t = user_msg [TextPart (js t) None]"

text \<open>A turn that began before the last compaction kept it, and has gone on since.\<close>

definition long_turn :: "session_entry list" where
  "long_turn =
     [entry_after ''1'' [] (MessageEntry (asks ''old'')),
      entry_after ''2'' ''1'' (MessageEntry (says ''old'')),
      entry_after ''3'' ''2'' (MessageEntry (asks ''task'')),
      entry_after ''4'' ''3'' (CompactionEntry
        \<lparr>cd_summary = js ''OLD'', cd_first_kept = js ''3'', cd_tokens_before = 9, cd_details = None,
         cd_from_hook = None, cd_instructions = None, cd_usage = None, cd_digest = None, cd_fingerprint = None\<rparr>),
      entry_after ''5'' ''4'' (MessageEntry (says ''step'')),
      entry_after ''6'' ''5'' (MessageEntry (says ''more''))]"

lemma long_turn_prepared:
  "map_option (map_option (\<lambda>p. (cpn_previous p, cpn_split p, length (cpn_messages p), length (cpn_prefix p))))
     (prepare_compaction long_turn (sample_settings 1)) = Some (Some (Some (js ''OLD''), True, 0, 2))"
  by code_simp

lemma previous_summary_unused:
  "cpn_split p \<Longrightarrow> cpn_prefix p \<noteq> [] \<Longrightarrow> cpn_messages p = [] \<Longrightarrow>
     compact provider supported level instructions p =
     compact provider supported level instructions (p\<lparr>cpn_previous := q\<rparr>)"
  by (simp add: compact_def Let_def split: attempt.split prod.split)

text \<open>
  The previous summary can be lost. When a second compaction splits the turn that the first one
  kept whole, there is no history to summarize, and the result does not depend on the previous
  summary at all: whatever the provider answers, the compaction is that of a session without one.
\<close>

theorem previous_summary_is_lost_in_a_split_turn:
  "\<exists>p. prepare_compaction long_turn (sample_settings 1) = Some (Some p) \<and> cpn_previous p = Some (js ''OLD'')
     \<and> compact provider supported level instructions p =
        compact provider supported level instructions (p\<lparr>cpn_previous := None\<rparr>)"
proof -
  from long_turn_prepared obtain p where p: "prepare_compaction long_turn (sample_settings 1) = Some (Some p)"
    "cpn_previous p = Some (js ''OLD'')" "cpn_split p" "cpn_messages p = []" "length (cpn_prefix p) = 2"
    by auto
  then have "cpn_prefix p \<noteq> []" by auto
  from previous_summary_unused [OF p(3) this p(4)] p(1,2) show ?thesis by blast
qed

definition two_turns :: "session_entry list" where
  "two_turns =
     [entry_after ''1'' [] (MessageEntry (asks ''one'')),
      entry_after ''2'' ''1'' (MessageEntry (says ''one'')),
      entry_after ''4'' ''2'' (MessageEntry (asks ''two'')),
      entry_after ''5'' ''4'' (MessageEntry (says ''two''))]"

definition two_turns_with_model_change :: "session_entry list" where
  "two_turns_with_model_change =
     [entry_after ''1'' [] (MessageEntry (asks ''one'')),
      entry_after ''2'' ''1'' (MessageEntry (says ''one'')),
      entry_after ''3'' ''2'' (ModelChange (js ''p'') (js ''m'')),
      entry_after ''4'' ''3'' (MessageEntry (asks ''two'')),
      entry_after ''5'' ''4'' (MessageEntry (says ''two''))]"

text \<open>
  A cut at a clean turn boundary is taken for a split turn when a setting was changed there. The
  cut at the second prompt keeps that prompt's whole turn; with a model change before it, the cut moves
  onto that entry, and the finished turn before it is summarized as the prefix of an unfinished one.
\<close>

theorem setting_change_turns_a_clean_cut_into_a_split:
  "find_cut_point two_turns 0 4 2 = \<lparr>cp_first = 2, cp_turn_start = None, cp_split = False\<rparr>
   \<and> find_cut_point two_turns_with_model_change 0 5 2 = \<lparr>cp_first = 2, cp_turn_start = Some 0, cp_split = True\<rparr>"
  by code_simp

end
