(* ===== verification/BranchSummary.thy ===== *)
theory BranchSummary
  imports Compaction
begin

text \<open>
  The summary of a branch that is left (coding-agent/src/core/compaction/branch-summarization.ts): the
  entries between the old position and the common ancestor, the messages that fit the token budget,
  the request, and the result. The walk from the old leaf is a partial function, as in
  SessionEntries. The provider is an argument, as in Compaction.
\<close>

section \<open>The entries of the branch\<close>

text \<open>
  The loop from the old leaf to the common ancestor, in the order of the pushes. \<open>null\<close> and the empty
  id are falsy and end it.
\<close>

partial_function (option) collect_walk ::
  "entry_index \<Rightarrow> jstring option \<Rightarrow> jstring option \<Rightarrow> session_entry list option" where
  "collect_walk by_id stop cur =
     (case cur of
        None \<Rightarrow> Some []
      | Some i \<Rightarrow>
          if i = [] \<or> cur = stop then Some []
          else (case by_id i of
                  None \<Rightarrow> Some []
                | Some e \<Rightarrow> Option.bind (collect_walk by_id stop (se_parent e)) (\<lambda>es. Some (e # es))))"

declare collect_walk.simps [code]

definition common_ancestor :: "session_entry list \<Rightarrow> session_entry list \<Rightarrow> jstring option" where
  "common_ancestor old_path target_path =
     List.find (\<lambda>i. i \<in> set (map se_id old_path)) (rev (map se_id target_path))"

definition collect_entries_for_branch_summary ::
  "session_manager \<Rightarrow> jstring option \<Rightarrow> jstring \<Rightarrow> (session_entry list \<times> jstring option) option" where
  "collect_entries_for_branch_summary s old target =
     (if blank old then Some ([], None)
      else
        Option.bind (get_branch s old) (\<lambda>old_path.
        Option.bind (get_branch s (Some target)) (\<lambda>target_path.
        let stop = common_ancestor old_path target_path
        in Option.bind (collect_walk (sm_by_id s) stop old) (\<lambda>es. Some (rev es, stop)))))"

section \<open>The messages that fit\<close>

text \<open>\<open>getMessageFromEntry\<close> of branch-summarization.ts: tool results and harness digests are left out.\<close>

definition branch_message :: "session_entry \<Rightarrow> message option" where
  "branch_message e =
     (case se_data e of
        MessageEntry (ToolResult _) \<Rightarrow> None
      | MessageEntry m \<Rightarrow> Some m
      | CustomMessageEntry ty c display details \<Rightarrow>
          if ty = harness_digest_custom_type then None
          else Some (create_custom_message ty c display details (se_time e))
      | BranchSummaryEntry b \<Rightarrow> Some (create_branch_summary_message (bd_summary b) (bd_from b) (se_time e))
      | CompactionEntry c \<Rightarrow>
          Some (create_compaction_summary_message (cd_summary c) (cd_tokens_before c) (se_time e)
                  (cd_instructions c) None None None)
      | _ \<Rightarrow> None)"

definition branch_messages :: "session_entry list \<Rightarrow> message list" where
  "branch_messages es = List.map_filter branch_message es"

record branch_preparation =
  bp_messages :: "message list"
  bp_files :: file_operations
  bp_total :: nat

text \<open>The first pass: the files that the nested branch summaries of the harness recorded.\<close>

definition summary_file_ops :: "session_entry \<Rightarrow> file_operations \<Rightarrow> file_operations" where
  "summary_file_ops e f =
     (case se_data e of
        BranchSummaryEntry b \<Rightarrow>
          if bd_from_hook b = Some True then f
          else
            let d = Option.bind (bd_details b) (json_field (js ''readFiles''));
                w = Option.bind (bd_details b) (json_field (js ''modifiedFiles''))
            in fold add_edit (string_items w) (fold add_read (string_items d) f)
      | _ \<Rightarrow> f)"

definition summary_entry :: "session_entry \<Rightarrow> bool" where
  "summary_entry e = (case se_data e of CompactionEntry _ \<Rightarrow> True | BranchSummaryEntry _ \<Rightarrow> True | _ \<Rightarrow> False)"

definition add_newest :: "message \<Rightarrow> branch_preparation \<Rightarrow> branch_preparation" where
  "add_newest m p = p\<lparr>bp_messages := m # bp_messages p, bp_total := bp_total p + estimate_tokens m\<rparr>"

text \<open>
  The second pass, over the entries from the newest to the oldest. \<open>totalTokens < tokenBudget * 0.9\<close>
  is compared in tenths; for integers the rounding of the product does not change the answer.
\<close>

fun take_newest :: "int \<Rightarrow> session_entry list \<Rightarrow> branch_preparation \<Rightarrow> branch_preparation" where
  "take_newest budget [] p = p"
| "take_newest budget (e # es) p =
     (case branch_message e of
        None \<Rightarrow> take_newest budget es p
      | Some m \<Rightarrow>
          let p = p\<lparr>bp_files := extract_file_ops_from_message m (bp_files p)\<rparr>
          in if 0 < budget \<and> budget < int (bp_total p + estimate_tokens m) then
               if summary_entry e \<and> 10 * int (bp_total p) < 9 * budget then add_newest m p else p
             else take_newest budget es (add_newest m p))"

definition prepare_branch_entries :: "session_entry list \<Rightarrow> int \<Rightarrow> branch_preparation" where
  "prepare_branch_entries es budget =
     take_newest budget (rev es)
       \<lparr>bp_messages = [], bp_files = fold summary_file_ops es create_file_ops, bp_total = 0\<rparr>"

section \<open>The summary\<close>

definition branch_summary_preamble :: jstring where
  "branch_summary_preamble = lines_of
     [js ''The user explored a different conversation branch before returning here.'',
      js ''Summary of that exploration:'', [], []]"

definition branch_summary_prompt :: jstring where
  "branch_summary_prompt = lines_of
     [js ''Create a structured summary of this conversation branch for context when returning later.'',
      [],
      js ''Use this EXACT format:'',
      [],
      js ''## Goal'',
      js ''[What was the user trying to accomplish in this branch?]'',
      [],
      js ''## Constraints & Preferences'',
      js ''- [Any constraints, preferences, or requirements mentioned]'',
      js ''- [Or '' @ [34] @ js ''(none)'' @ [34] @ js '' if none were mentioned]'',
      [],
      js ''## Progress'',
      js ''### Done'',
      js ''- [x] [Completed tasks/changes]'',
      [],
      js ''### In Progress'',
      js ''- [ ] [Work that was started but not finished]'',
      [],
      js ''### Blocked'',
      js ''- [Issues preventing progress, if any]'',
      [],
      js ''## Key Decisions'',
      js ''- **[Decision]**: [Brief rationale]'',
      [],
      js ''## Next Steps'',
      js ''1. [What should happen next to continue this work]'',
      [],
      js ''Keep each section concise. Preserve exact file paths, function names, and error messages.'']"

datatype branch_summary_result =
    BranchSummarized jstring "jstring list" "jstring list" usage
  | NothingToSummarize jstring
  | SummaryAborted
  | SummaryFailed jstring

definition default_branch_reserve :: int where "default_branch_reserve = 16384"

definition branch_token_budget :: "int \<Rightarrow> int option \<Rightarrow> int" where
  "branch_token_budget window reserve =
     (if window = 0 then 128000 else window)
     - (case reserve of None \<Rightarrow> default_branch_reserve | Some r \<Rightarrow> r)"

definition branch_instructions :: "jstring option \<Rightarrow> bool \<Rightarrow> jstring" where
  "branch_instructions custom replace =
     (if blank custom then branch_summary_prompt
      else if replace then the custom
      else branch_summary_prompt @ newline # newline # js ''Additional focus: '' @ the custom)"

definition branch_summary_text :: "message list \<Rightarrow> jstring option \<Rightarrow> bool \<Rightarrow> jstring" where
  "branch_summary_text ms custom replace = conversation_block ms @ branch_instructions custom replace"

definition generate_branch_summary ::
  "summary_provider \<Rightarrow> int \<Rightarrow> int option \<Rightarrow> jstring option \<Rightarrow> bool \<Rightarrow> session_entry list
   \<Rightarrow> branch_summary_result attempt" where
  "generate_branch_summary provider window reserve custom replace es =
     (let p = prepare_branch_entries es (branch_token_budget window reserve) in
      if bp_messages p = [] then Got (NothingToSummarize (js ''No content to summarize''))
      else
        (case provider \<lparr>sr_system = summarization_system_prompt,
                        sr_text = branch_summary_text (bp_messages p) custom replace,
                        sr_max_tokens = 2048, sr_reasoning = None\<rparr> of
           Threw \<Rightarrow> Threw
         | Got m \<Rightarrow>
             if am_stop m = Aborted then Got SummaryAborted
             else if am_stop m = ErrorStop then
               Got (SummaryFailed (if blank (am_error m) then js ''Summarization failed'' else the (am_error m)))
             else
               let files = compute_file_lists (bp_files p);
                   text = join_with [newline]
                     (List.map_filter (\<lambda>b. case b of TextBlock t _ \<Rightarrow> Some t | _ \<Rightarrow> None) (am_content m))
               in Got (BranchSummarized
                    (branch_summary_preamble @ text @ format_file_operations (fst files) (snd files))
                    (fst files) (snd files) (am_usage m))))"

section \<open>The walk along a path\<close>

text \<open>A path of the tree: its entries are indexed, each under its own id, and no id is empty.\<close>

definition indexed :: "entry_index \<Rightarrow> session_entry list \<Rightarrow> bool" where
  "indexed m es \<longleftrightarrow> (\<forall>e\<in>set es. m (se_id e) = Some e \<and> se_id e \<noteq> [])"

definition keyed :: "entry_index \<Rightarrow> bool" where
  "keyed m \<longleftrightarrow> (\<forall>i e. m i = Some e \<longrightarrow> se_id e = i)"

definition head_id :: "session_entry list \<Rightarrow> jstring option" where
  "head_id es = (case es of [] \<Rightarrow> None | e # _ \<Rightarrow> Some (se_id e))"

lemma indexed_simps [simp]:
  "indexed m []"
  "indexed m (e # es) \<longleftrightarrow> m (se_id e) = Some e \<and> se_id e \<noteq> [] \<and> indexed m es"
  "indexed m (es @ fs) \<longleftrightarrow> indexed m es \<and> indexed m fs"
  by (auto simp: indexed_def)

lemma head_id_simps [simp]: "head_id [] = None" "head_id (e # es) = Some (se_id e)"
  by (simp_all add: head_id_def)

lemma keyedD: "keyed m \<Longrightarrow> m i = Some e \<Longrightarrow> se_id e = i"
  by (simp add: keyed_def)

lemma collect_walk_None [simp]: "collect_walk m stop None = Some []"
  by (subst collect_walk.simps) simp

lemma collect_walk_stop: "cur = stop \<Longrightarrow> collect_walk m stop cur = Some []"
  by (subst collect_walk.simps) (simp split: option.split)

lemma collect_walk_unknown: "i = [] \<or> m i = None \<Longrightarrow> collect_walk m stop (Some i) = Some []"
  by (subst collect_walk.simps) auto

lemma collect_walk_entry:
  "m i = Some e \<Longrightarrow> i \<noteq> [] \<Longrightarrow> Some i \<noteq> stop \<Longrightarrow>
     collect_walk m stop (Some i) = map_option ((#) e) (collect_walk m stop (se_parent e))"
  by (subst collect_walk.simps) (simp add: map_conv_bind_option comp_def)

lemma chain_tail: "chain m (xs @ ys) \<Longrightarrow> ys \<noteq> [] \<Longrightarrow> chain m ys"
proof (induction xs)
  case (Cons x xs)
  then show ?case by (cases "xs @ ys") auto
qed simp

lemma chain_parent:
  assumes "chain m (e # es)" "keyed m"
  shows "collect_walk m stop (se_parent e) = collect_walk m stop (head_id es)"
proof (cases es)
  case Nil
  with assms(1) show ?thesis
    by (cases "se_parent e") (auto simp: parent_entry_def collect_walk_unknown split: if_splits)
next
  case (Cons f fs)
  with assms show ?thesis
    by (auto simp: parent_entry_def dest: keyedD split: option.splits if_splits)
qed

lemma collect_walk_chain:
  assumes "chain m (xs @ ys)" "keyed m" "indexed m xs" "head_id ys \<notin> Some ` se_id ` set xs"
  shows "collect_walk m (head_id ys) (head_id (xs @ ys)) = Some xs"
  using assms(1,3,4)
proof (induction xs)
  case Nil
  then show ?case by (simp add: collect_walk_stop)
next
  case (Cons x xs)
  have "xs @ ys \<noteq> [] \<Longrightarrow> chain m (xs @ ys)" using Cons.prems(1) chain_tail [of m "[x]"] by simp
  then have "collect_walk m (head_id ys) (head_id (xs @ ys)) = Some xs"
    using Cons by (cases "xs @ ys = []") auto
  moreover have "Some (se_id x) \<noteq> head_id ys" using Cons.prems(3) by auto
  ultimately show ?case
    using Cons.prems(2) chain_parent [OF Cons.prems(1) [simplified] assms(2)] by (simp add: collect_walk_entry)
qed

section \<open>Two paths of one tree\<close>

lemma chain_unique: "chain m (x # xs) \<Longrightarrow> chain m (x # ys) \<Longrightarrow> xs = ys"
  using walk_of_chain [of m "x # xs"] walk_of_chain [of m "x # ys"] by simp

lemma find_rev_split:
  "List.find P (rev xs) = Some x \<Longrightarrow> \<exists>us vs. xs = us @ x # vs \<and> P x \<and> (\<forall>v\<in>set vs. \<not> P v)"
proof (induction xs rule: rev_induct)
  case (snoc y ys)
  then show ?case
  proof (cases "P y")
    case False
    with snoc obtain us vs where "ys = us @ x # vs" "P x" "\<forall>v\<in>set vs. \<not> P v" by auto
    with False show ?thesis by (intro exI [of _ us] exI [of _ "vs @ [y]"]) simp
  next
    case True
    with snoc.prems show ?thesis by (intro exI [of _ ys] exI [of _ "[]"]) simp
  qed
qed simp

lemma common_ancestor_split:
  assumes "chain m (rev p)" "chain m (rev t)" "indexed m p" "indexed m t" "distinct (map se_id p)"
  shows "\<exists>a e r. p = a @ e \<and> t = a @ r \<and> se_id ` set p \<inter> se_id ` set r = {}
     \<and> common_ancestor p t = head_id (rev a)"
proof (cases "common_ancestor p t")
  case None
  then have "se_id ` set p \<inter> se_id ` set t = {}"
    by (auto simp: common_ancestor_def find_None_iff image_iff)
  with None show ?thesis by (intro exI [of _ "[] :: session_entry list"] exI [of _ p] exI [of _ t]) simp
next
  case (Some i)
  from find_rev_split [OF this [unfolded common_ancestor_def]] obtain us vs where
    uv: "map se_id t = us @ i # vs" "i \<in> se_id ` set p" "\<forall>v\<in>set vs. v \<notin> se_id ` set p" by auto
  then obtain us' x r where t: "t = us' @ x # r" "se_id x = i" "map se_id r = vs"
    by (auto simp: map_eq_append_conv Cons_eq_map_conv map_eq_Cons_conv)
  from uv(2) obtain y where y: "y \<in> set p" "se_id y = i" by auto
  moreover have "m (se_id y) = Some y" "m (se_id x) = Some x" using assms(3,4) t y(1) by (simp_all add: indexed_def)
  ultimately have "y = x" using t(2) by simp
  with y obtain ps e where p: "p = ps @ x # e" by (meson split_list)
  have "chain m (x # rev ps)" using chain_tail [of m "rev e"] assms(1) p by simp
  moreover have "chain m (x # rev us')" using chain_tail [of m "rev r"] assms(2) t(1) by simp
  ultimately have "rev ps = rev us'" by (rule chain_unique)
  then have "t = (ps @ [x]) @ r" using t(1) by simp
  moreover have "se_id ` set r = set vs" using t(3) by (metis image_set)
  then have "se_id ` set p \<inter> se_id ` set r = {}" using uv(3) by blast
  ultimately show ?thesis
    using p t(2) Some by (intro exI [of _ "ps @ [x]"] exI [of _ e] exI [of _ r]) simp
qed

lemma branch_of_id:
  assumes "tree_ok s" "sm_by_id s i = Some e"
  shows "\<exists>p. get_branch s (Some i) = Some p \<and> chain (sm_by_id s) (rev p) \<and> p \<noteq> [] \<and> last p = e
     \<and> indexed (sm_by_id s) p \<and> distinct (map se_id p)"
proof -
  have s: "wf_entries (sm_entries s)" "sm_by_id s = index_of (sm_entries s)"
    using assms(1) by (auto simp: tree_ok_def)
  then have e: "e \<in> set (sm_entries s)" "se_id e = i" using assms(2) index_of_Some by auto
  then have "i \<noteq> []" using s(1) by (metis image_eqI wf_entries_def)
  moreover obtain p where p: "path_to (sm_by_id s) e = Some p" "chain (sm_by_id s) (rev p)" "last p = e" "p \<noteq> []"
    "set p \<subseteq> set (sm_entries s)" "distinct (map se_id p)" using path_total [OF s(1) e(1)] s(2) by auto
  moreover have "indexed (sm_by_id s) p"
    unfolding indexed_def
  proof
    fix x
    assume "x \<in> set p"
    with p(5) have "x \<in> set (sm_entries s)" by blast
    with s show "sm_by_id s (se_id x) = Some x \<and> se_id x \<noteq> []"
      by (metis image_eqI index_of_member wf_entries_def)
  qed
  ultimately show ?thesis using assms(2) by (auto simp: get_branch_def)
qed

lemma keyed_tree: "tree_ok s \<Longrightarrow> keyed (sm_by_id s)"
  using index_of_Some by (auto simp: keyed_def tree_ok_def)

text \<open>
  C32. Leaving a branch collects exactly what the target does not have: in every session the
  operations can reach, the path of the old position is a shared part followed by the collected
  entries, the path of the target is the same shared part followed by entries that are not on the old
  path, and the common ancestor is the last entry of the shared part, or none.
\<close>

theorem collected_entries_are_the_branch_left:
  assumes "session_reachable persist s" "sm_by_id s i = Some d" "sm_by_id s j = Some f"
  shows "\<exists>a e r. get_branch s (Some i) = Some (a @ e) \<and> get_branch s (Some j) = Some (a @ r)
     \<and> se_id ` set (a @ e) \<inter> se_id ` set r = {}
     \<and> collect_entries_for_branch_summary s (Some i) j = Some (e, head_id (rev a))"
proof -
  note ok = reachable_tree [OF assms(1)]
  obtain p where p: "get_branch s (Some i) = Some p" "chain (sm_by_id s) (rev p)" "p \<noteq> []" "last p = d"
    "indexed (sm_by_id s) p" "distinct (map se_id p)" using branch_of_id [OF ok assms(2)] by blast
  obtain t where t: "get_branch s (Some j) = Some t" "chain (sm_by_id s) (rev t)" "indexed (sm_by_id s) t"
    using branch_of_id [OF ok assms(3)] by blast
  obtain a e r where r: "p = a @ e" "t = a @ r" "se_id ` set p \<inter> se_id ` set r = {}"
    "common_ancestor p t = head_id (rev a)" using common_ancestor_split [OF p(2) t(2) p(5) t(3) p(6)] by blast
  have i: "head_id (rev p) = Some i" "i \<noteq> []"
    using p(3,4,5) keyedD [OF keyed_tree [OF ok] assms(2)] by (cases p rule: rev_cases, auto)+
  have "collect_walk (sm_by_id s) (head_id (rev a)) (head_id (rev e @ rev a)) = Some (rev e)"
  proof (rule collect_walk_chain [OF _ keyed_tree [OF ok]])
    show "head_id (rev a) \<notin> Some ` se_id ` set (rev e)"
      using p(6) r(1) by (cases a rule: rev_cases) (auto simp: image_iff)
  qed (use p(2,5) r(1) in \<open>simp_all add: indexed_def\<close>)
  then show ?thesis
    using p(1) t(1) r i by (auto simp: collect_entries_for_branch_summary_def blank_def Let_def)
qed

section \<open>What fits the budget\<close>

abbreviation tokens_of :: "message list \<Rightarrow> nat" where
  "tokens_of ms \<equiv> sum_list (map estimate_tokens ms)"

lemma branch_messages_snoc:
  "branch_messages (es @ [e]) = branch_messages es @ (case branch_message e of None \<Rightarrow> [] | Some m \<Rightarrow> [m])"
  by (simp add: branch_messages_def List.map_filter_def split: option.split)

text \<open>
  The selection over a list of messages from the newest to the oldest: the messages it adds in front
  of those it has, and where it stops.
\<close>

lemma take_newest_messages:
  assumes "bp_total p = tokens_of (bp_messages p)" "int (bp_total p) \<le> budget" "0 < budget"
  shows "\<exists>xs ys. branch_messages es = xs @ ys
     \<and> bp_messages (take_newest budget (rev es) p) = ys @ bp_messages p
     \<and> bp_total (take_newest budget (rev es) p) = tokens_of (ys @ bp_messages p)
     \<and> (int (tokens_of (ys @ bp_messages p)) \<le> budget
        \<or> ys \<noteq> [] \<and> 10 * int (tokens_of (tl ys @ bp_messages p)) < 9 * budget)
     \<and> (xs = [] \<or> budget < int (tokens_of (last xs # ys @ bp_messages p)))"
  using assms(1,2)
proof (induction es arbitrary: p rule: rev_induct)
  case Nil
  then show ?case by (simp add: branch_messages_def List.map_filter_def)
next
  case (snoc e es)
  show ?case
  proof (cases "branch_message e")
    case None
    with snoc show ?thesis by (simp add: branch_messages_snoc)
  next
    case (Some m)
    let ?p = "p\<lparr>bp_files := extract_file_ops_from_message m (bp_files p)\<rparr>"
    show ?thesis
    proof (cases "budget < int (bp_total p + estimate_tokens m)")
      case stop: True
      show ?thesis
      proof (cases "summary_entry e \<and> 10 * int (bp_total p) < 9 * budget")
        case True
        with Some stop snoc.prems(1) assms(3) have "bp_messages (take_newest budget (rev (es @ [e])) p) = m # bp_messages p"
          "bp_total (take_newest budget (rev (es @ [e])) p) = tokens_of (m # bp_messages p)"
          by (simp_all add: add_newest_def)
        with True stop snoc.prems(1) Some show ?thesis
          by (intro exI [of _ "branch_messages es"] exI [of _ "[m]"]) (simp add: branch_messages_snoc)
      next
        case False
        with Some stop assms(3) have "bp_messages (take_newest budget (rev (es @ [e])) p) = bp_messages p"
          "bp_total (take_newest budget (rev (es @ [e])) p) = bp_total p" by auto
        with stop snoc.prems Some show ?thesis
          by (intro exI [of _ "branch_messages es @ [m]"] exI [of _ "[]"]) (simp add: branch_messages_snoc)
      qed
    next
      case False
      let ?q = "add_newest m ?p"
      have t: "take_newest budget (rev (es @ [e])) p = take_newest budget (rev es) ?q"
        using Some False by simp
      have "bp_total ?q = tokens_of (bp_messages ?q)" "int (bp_total ?q) \<le> budget"
        using snoc.prems False by (simp_all add: add_newest_def)
      from snoc.IH [OF this] obtain xs ys where "branch_messages es = xs @ ys"
        "bp_messages (take_newest budget (rev es) ?q) = (ys @ [m]) @ bp_messages p"
        "bp_total (take_newest budget (rev es) ?q) = tokens_of ((ys @ [m]) @ bp_messages p)"
        "int (tokens_of ((ys @ [m]) @ bp_messages p)) \<le> budget
         \<or> ys \<noteq> [] \<and> 10 * int (tokens_of (tl ys @ m # bp_messages p)) < 9 * budget"
        "xs = [] \<or> budget < int (tokens_of (last xs # (ys @ [m]) @ bp_messages p))"
        by (auto simp: add_newest_def)
      with Some t show ?thesis
        by (intro exI [of _ xs] exI [of _ "ys @ [m]"]) (auto simp: branch_messages_snoc)
    qed
  qed
qed


lemma take_newest_unlimited:
  assumes "budget \<le> 0"
  shows "bp_messages (take_newest budget (rev es) p) = branch_messages es @ bp_messages p"
  using assms
proof (induction es arbitrary: p rule: rev_induct)
  case Nil
  then show ?case by (simp add: branch_messages_def List.map_filter_def)
next
  case (snoc e es)
  then show ?case by (cases "branch_message e") (auto simp: branch_messages_snoc add_newest_def Let_def)
qed

text \<open>
  A model whose window is not larger than the reserve gets the whole branch: the budget is then
  not positive, which the selection reads as no limit, and every visible message is sent to it.
\<close>

theorem small_window_sends_everything:
  assumes "window \<noteq> 0" "window \<le> default_branch_reserve"
  shows "bp_messages (prepare_branch_entries es (branch_token_budget window None)) = branch_messages es"
  using assms take_newest_unlimited [of "branch_token_budget window None" es]
  by (simp add: prepare_branch_entries_def branch_token_budget_def)

text \<open>
  A branch summary never lists a file that was edited in the python kernel: the tool result
  that carries the diffs is left out before its files are read, so the file lists of a branch do not
  change when the diffs of its tool results do.
\<close>

definition without_details :: "session_entry \<Rightarrow> session_entry" where
  "without_details e =
     (case se_data e of
        MessageEntry (ToolResult r) \<Rightarrow> e\<lparr>se_data := MessageEntry (ToolResult (r\<lparr>tr_details := None\<rparr>))\<rparr>
      | _ \<Rightarrow> e)"

lemma without_details_same [simp]:
  "branch_message (without_details e) = branch_message e"
  "summary_file_ops (without_details e) = summary_file_ops e"
  "summary_entry (without_details e) = summary_entry e"
  by (auto simp: without_details_def branch_message_def summary_file_ops_def summary_entry_def fun_eq_iff
      split: entry_data.splits message.splits)

lemma take_newest_without_details:
  "take_newest budget (map without_details es) p = take_newest budget es p"
  by (induction es arbitrary: p) (simp_all add: Let_def split: option.split)

theorem kernel_edits_never_reach_a_branch_summary:
  "generate_branch_summary provider window reserve custom replace (map without_details es) =
   generate_branch_summary provider window reserve custom replace es"
  by (simp add: generate_branch_summary_def prepare_branch_entries_def take_newest_without_details
      rev_map fold_map comp_def)

section \<open>Cumulative file tracking\<close>

definition recorded_edits :: "session_entry \<Rightarrow> jstring set" where
  "recorded_edits e =
     (case se_data e of
        BranchSummaryEntry b \<Rightarrow>
          if bd_from_hook b = Some True then {}
          else set (string_items (Option.bind (bd_details b) (json_field (js ''modifiedFiles''))))
      | _ \<Rightarrow> {})"

abbreviation edits :: "file_operations \<Rightarrow> jstring set" where
  "edits f \<equiv> set (fo_edited f)"

lemma set_add_once [simp]: "set (add_once x xs) = insert x (set xs)"
  by (auto simp: add_once_def)

lemma edits_add [simp]:
  "edits (add_read p f) = edits f" "edits (add_edit p f) = insert p (edits f)"
  by (simp_all add: add_read_def add_edit_def)

lemma edits_fold [simp]:
  "edits (fold add_read ps f) = edits f" "edits (fold add_edit ps f) = set ps \<union> edits f"
  by (induction ps arbitrary: f) auto

lemma edits_summary: "edits (summary_file_ops e f) = recorded_edits e \<union> edits f"
  by (simp add: summary_file_ops_def recorded_edits_def Let_def split: entry_data.split)

lemma edits_summaries: "edits (fold summary_file_ops es f) = (\<Union>e\<in>set es. recorded_edits e) \<union> edits f"
  by (induction es arbitrary: f) (auto simp: edits_summary)

lemma edits_fold_mono:
  assumes "\<And>x f. edits f \<subseteq> edits (g x f)"
  shows "edits f \<subseteq> edits (fold g xs f)"
  using assms by (induction xs arbitrary: f) (auto, blast)

lemma edits_added [simp]: "edits f \<subseteq> edits (add_edited p f)"
  by (auto simp: add_edited_def)

lemma edits_message: "edits f \<subseteq> edits (extract_file_ops_from_message m f)"
proof (cases m)
  case (Assistant a)
  then show ?thesis by (simp add: edits_fold_mono call_file_ops_def)
next
  case (ToolResult r)
  then show ?thesis by (simp add: extract_file_ops_from_tool_result_def edits_fold_mono)
qed simp_all

lemma edits_newest: "edits (bp_files p) \<subseteq> edits (bp_files (take_newest budget es p))"
proof (induction es arbitrary: p)
  case (Cons e es)
  show ?case
  proof (cases "branch_message e")
    case (Some m)
    let ?p = "p\<lparr>bp_files := extract_file_ops_from_message m (bp_files p)\<rparr>"
    have "edits (bp_files p) \<subseteq> edits (bp_files ?p)" by (simp add: edits_message)
    moreover have "edits (bp_files ?p) \<subseteq> edits (bp_files (take_newest budget es (add_newest m ?p)))"
      using Cons [of "add_newest m ?p"] by (simp add: add_newest_def)
    ultimately show ?thesis using Some by (auto simp: add_newest_def Let_def)
  qed (use Cons in simp)
qed simp

text \<open>
  File tracking is cumulative: a file that a nested summary of the harness recorded as modified is
  among the modified files of the new summary, even when the token budget left that entry out, unless
  the list is at its limit of two hundred files.
\<close>

theorem nested_summaries_keep_their_files:
  assumes "generate_branch_summary provider window reserve custom replace es = Got (BranchSummarized summary reads mods u)"
    and "e \<in> set es" "x \<in> recorded_edits e"
  shows "x \<in> set mods \<or> length mods = file_list_max_entries"
proof -
  let ?p = "prepare_branch_entries es (branch_token_budget window reserve)"
  let ?files = "remdups (fo_edited (bp_files ?p) @ fo_written (bp_files ?p))"
  have "x \<in> edits (fold summary_file_ops es create_file_ops)" using assms(2,3) by (auto simp: edits_summaries)
  then have x: "x \<in> set (sort ?files)" using edits_newest by (fastforce simp: prepare_branch_entries_def)
  have "mods = take file_list_max_entries (sort ?files)"
    using assms(1)
    by (auto simp: generate_branch_summary_def Let_def compute_file_lists_def split: attempt.splits if_splits)
  with x show ?thesis
    by (cases "length ?files \<le> file_list_max_entries") simp_all
qed

section \<open>A branch that is left\<close>

definition nested_summary :: branch_data where
  "nested_summary =
     \<lparr>bd_from = js ''u'', bd_summary = js ''tried it'',
      bd_details = Some (JObj [(js ''modifiedFiles'', JArr [JStr (js ''a.ts'')])]), bd_from_hook = None, bd_usage = None\<rparr>"

definition left_entries :: "session_entry list" where
  "left_entries =
     [entry_after ''s'' [] (BranchSummaryEntry nested_summary),
      entry_after ''q'' ''s'' (MessageEntry (asks ''look again'')),
      entry_after ''w'' ''q'' (MessageEntry (says ''fine''))]"

theorem collected_entries_are_the_branch_left_witness:
  "\<exists>a e r. get_branch sample_labelled (Some (js ''a'')) = Some (a @ e)
     \<and> get_branch sample_labelled (Some (js ''u'')) = Some (a @ r)
     \<and> collect_entries_for_branch_summary sample_labelled (Some (js ''a'')) (js ''u'') = Some (e, head_id (rev a))
     \<and> map se_id e = [js ''l'', js ''a'']"
proof -
  have "map_option se_id (sm_by_id sample_labelled (js ''a'')) = Some (js ''a'')"
    "map_option se_id (sm_by_id sample_labelled (js ''u'')) = Some (js ''u'')" by code_simp+
  then obtain d f where "sm_by_id sample_labelled (js ''a'') = Some d" "sm_by_id sample_labelled (js ''u'') = Some f"
    by auto
  from collected_entries_are_the_branch_left [OF sample_labelled_reachable this]
  obtain a e r where r: "get_branch sample_labelled (Some (js ''a'')) = Some (a @ e)"
    "get_branch sample_labelled (Some (js ''u'')) = Some (a @ r)"
    "collect_entries_for_branch_summary sample_labelled (Some (js ''a'')) (js ''u'') = Some (e, head_id (rev a))"
    by blast
  have "map_option (\<lambda>(es, i). map se_id es)
      (collect_entries_for_branch_summary sample_labelled (Some (js ''a'')) (js ''u'')) = Some [js ''l'', js ''a'']"
    by code_simp
  with r show ?thesis by auto
qed


theorem small_window_sends_everything_witness:
  "bp_messages (prepare_branch_entries left_entries (branch_token_budget 8192 None)) = branch_messages left_entries"
  by (rule small_window_sends_everything) (simp_all add: default_branch_reserve_def)

theorem nested_summaries_keep_their_files_witness:
  "\<exists>summary reads mods u.
     generate_branch_summary (\<lambda>rq. Got sample_answer) 16388 None None False left_entries
       = Got (BranchSummarized summary reads mods u)
     \<and> (js ''a.ts'' \<in> set mods \<or> length mods = file_list_max_entries)"
proof -
  have "bp_messages (prepare_branch_entries left_entries (branch_token_budget 16388 None)) \<noteq> []" by code_simp
  then obtain summary reads mods u where
    g: "generate_branch_summary (\<lambda>rq. Got sample_answer) 16388 None None False left_entries
       = Got (BranchSummarized summary reads mods u)"
    by (simp add: generate_branch_summary_def Let_def sample_answer_def)
  have "entry_after ''s'' [] (BranchSummaryEntry nested_summary) \<in> set left_entries" by (simp add: left_entries_def)
  moreover have "js ''a.ts'' \<in> recorded_edits (entry_after ''s'' [] (BranchSummaryEntry nested_summary))" by code_simp
  ultimately show ?thesis using nested_summaries_keep_their_files [OF g] g by blast
qed

end
