(* ===== verification/AgentLoop.thy ===== *)
theory AgentLoop
  imports Jev "HOL-Library.While_Combinator"
begin

text \<open>
  The agent loop (packages/agent/src/agent-loop.ts). What the loop does not own is the record of the
  host: the tools, the provider stream, the hooks of the configuration, the sink of the events, the
  clock and the abort signal. Each of these acts on a world of a type \<open>'w\<close>, which the model never
  looks into, and any of them may raise the signal. The state of a run is explicit: the world, the
  events emitted so far, the context, the new messages and the local variables of \<open>runLoop\<close>.

  An awaited operation is a function from the world to its settlement and the world after it. The
  operations return promises, so that they do not throw before they are raced with the signal, and
  the sink does not reject.
\<close>

section \<open>Awaited operations\<close>

text \<open>\<open>Cancelled\<close> is a rejection that \<open>isAbortError\<close> recognizes; both rejections carry the message.\<close>

datatype 'a outcome = Value 'a | Cancelled jstring | Failure jstring

type_synonym ('w, 'a) operation = "'w \<Rightarrow> 'a outcome \<times> 'w"

definition abort_error_message :: jstring where
  "abort_error_message = js ''Request was aborted''"

fun error_text :: "'a outcome \<Rightarrow> jstring" where
  "error_text (Value _) = []"
| "error_text (Cancelled t) = t"
| "error_text (Failure t) = t"

text \<open>
  \<open>raceWithAbort\<close>: the operation is started in any case; when the signal is already raised its
  settlement is discarded. A signal raised while it runs is a settlement \<open>Cancelled\<close>.
\<close>

definition race :: "('w \<Rightarrow> bool) \<Rightarrow> ('w, 'a) operation \<Rightarrow> ('w, 'a) operation" where
  "race aborted operation w =
     (case operation w of (r, w') \<Rightarrow> (if aborted w then Cancelled abort_error_message else r, w'))"

section \<open>The host\<close>

record tool_output =
  to_content :: "part list"
  to_details :: "json option"
  to_terminate :: "bool option"

record after_result =
  ar_content :: "part list option"
  ar_details :: "json option"
  ar_error :: "bool option"
  ar_terminate :: "bool option"

text \<open>
  A tool. \<open>tl_execute\<close> gives the partial results it reports, each with what happens to the world
  before the report, and what it settles to.
\<close>

record 'w tool =
  tl_name :: jstring
  tl_sequential :: bool
  tl_prepare :: "(json \<Rightarrow> jstring + json) option"
  tl_execute :: "jstring \<Rightarrow> json \<Rightarrow> 'w \<Rightarrow> (('w \<Rightarrow> 'w) \<times> tool_output) list \<times> ('w, tool_output) operation"

datatype agent_event =
    AgentStart
  | AgentEnd transcript
  | TurnStart
  | TurnEnd assistant_message "tool_result list"
  | ReflexEvent jstring nat nat
  | MessageStart message
  | MessageUpdate message
  | MessageEnd message
  | ToolStart jstring jstring json
  | ToolUpdate jstring jstring json tool_output
  | ToolEnd jstring jstring tool_output bool

text \<open>A provider stream: its events, one settlement of \<open>next\<close> each, and its final result.\<close>

datatype stream_event = StreamStart assistant_message | StreamUpdate assistant_message | StreamFinal assistant_message

record 'w response =
  re_next :: "('w, stream_event) operation list"
  re_result :: "('w, assistant_message) operation"

record loop_model =
  lm_api :: jstring
  lm_provider :: jstring
  lm_id :: jstring

record llm_request =
  lr_system :: jstring
  lr_messages :: transcript
  lr_key :: "jstring option"

text \<open>
  \<open>ho_pick\<close> is the order in which the concurrent calls of a batch finish, \<open>ho_validate\<close> is
  \<open>validateToolArguments\<close>, and \<open>ho_stop_before\<close> a synchronous predicate.
\<close>

record 'w host =
  ho_aborted :: "'w \<Rightarrow> bool"
  ho_emit :: "agent_event \<Rightarrow> 'w \<Rightarrow> 'w"
  ho_now :: "'w \<Rightarrow> int"
  ho_uuid :: "'w \<Rightarrow> jstring"
  ho_pick :: "nat list \<Rightarrow> 'w \<Rightarrow> nat"
  ho_model :: loop_model
  ho_tools :: "'w tool list"
  ho_sequential :: bool
  ho_validate :: "jstring \<Rightarrow> json \<Rightarrow> jstring + json"
  ho_before :: "(assistant_message \<Rightarrow> tool_call \<Rightarrow> json \<Rightarrow> transcript \<Rightarrow> ('w, (bool \<times> jstring option) option) operation) option"
  ho_after :: "(assistant_message \<Rightarrow> tool_call \<Rightarrow> json \<Rightarrow> tool_output \<Rightarrow> bool \<Rightarrow> transcript \<Rightarrow> ('w, after_result option) operation) option"
  ho_system :: "('w \<Rightarrow> jstring) option"
  ho_context_system :: jstring
  ho_transform :: "(transcript \<Rightarrow> ('w, transcript) operation) option"
  ho_convert :: "transcript \<Rightarrow> ('w, transcript) operation"
  ho_key :: "(jstring \<Rightarrow> ('w, jstring option) operation) option"
  ho_static_key :: "jstring option"
  ho_stream :: "llm_request \<Rightarrow> ('w, 'w response) operation"
  ho_router :: "(nat \<Rightarrow> nat \<Rightarrow> transcript \<Rightarrow> ('w, pre_turn_reflex option) operation) option"
  ho_max_reflexes :: "nat option"
  ho_steering :: "('w, transcript) operation option"
  ho_follow_up :: "('w, transcript) operation option"
  ho_continuation :: "(assistant_message \<Rightarrow> tool_result list \<Rightarrow> transcript \<Rightarrow> transcript \<Rightarrow> ('w, transcript) operation) option"
  ho_stop_after :: "(assistant_message \<Rightarrow> tool_result list \<Rightarrow> transcript \<Rightarrow> transcript \<Rightarrow> ('w, bool) operation) option"
  ho_stop_before :: "('w \<Rightarrow> bool) option"

record 'w run_state =
  rs_world :: 'w
  rs_log :: "agent_event list"
  rs_context :: transcript
  rs_new :: transcript
  rs_pending :: transcript
  rs_first :: bool
  rs_last :: "(assistant_message \<times> tool_result list) option"
  rs_turn :: nat
  rs_reflexes :: nat
  rs_more :: bool
  rs_partial :: "assistant_message option"

definition emit :: "'w host \<Rightarrow> agent_event \<Rightarrow> 'w run_state \<Rightarrow> 'w run_state" where
  "emit h e s = s\<lparr>rs_world := ho_emit h e (rs_world s), rs_log := rs_log s @ [e]\<rparr>"

definition signal_raised :: "'w host \<Rightarrow> 'w run_state \<Rightarrow> bool" where
  "signal_raised h s = ho_aborted h (rs_world s)"

text \<open>An awaited operation raced with the signal, in a run.\<close>

definition await :: "'w host \<Rightarrow> ('w, 'a) operation \<Rightarrow> 'w run_state \<Rightarrow> 'a outcome \<times> 'w run_state" where
  "await h operation s =
     (case race (ho_aborted h) operation (rs_world s) of (r, w) \<Rightarrow> (r, s\<lparr>rs_world := w\<rparr>))"

definition emit_message :: "'w host \<Rightarrow> message \<Rightarrow> 'w run_state \<Rightarrow> 'w run_state" where
  "emit_message h m s = emit h (MessageEnd m) (emit h (MessageStart m) s)"

text \<open>A message that enters both the context and the new messages.\<close>

definition record_message :: "message \<Rightarrow> 'w run_state \<Rightarrow> 'w run_state" where
  "record_message m s = s\<lparr>rs_context := rs_context s @ [m], rs_new := rs_new s @ [m]\<rparr>"

section \<open>One tool call\<close>

definition create_error_tool_result :: "jstring \<Rightarrow> tool_output" where
  "create_error_tool_result t = \<lparr>to_content = [TextPart t None], to_details = Some (JObj []), to_terminate = None\<rparr>"

datatype 'w preparation = Prepared "'w tool" json | Immediate tool_output bool

definition find_tool :: "'w host \<Rightarrow> tool_call \<Rightarrow> 'w tool option" where
  "find_tool h c = List.find (\<lambda>t. tl_name t = call_name c) (ho_tools h)"

definition prepare_tool_call_arguments :: "'w tool \<Rightarrow> tool_call \<Rightarrow> jstring + json" where
  "prepare_tool_call_arguments t c = (case tl_prepare t of None \<Rightarrow> Inr (call_args c) | Some f \<Rightarrow> f (call_args c))"

definition prepare_tool_call ::
  "'w host \<Rightarrow> assistant_message \<Rightarrow> tool_call \<Rightarrow> 'w run_state \<Rightarrow> 'w preparation \<times> 'w run_state" where
  "prepare_tool_call h m c s =
     (let failed = (\<lambda>t. Immediate (create_error_tool_result t) True) in
      case find_tool h c of
        None \<Rightarrow> (failed (js ''Tool '' @ call_name c @ js '' not found''), s)
      | Some t \<Rightarrow>
          (case prepare_tool_call_arguments t c of
             Inl e \<Rightarrow> (failed e, s)
           | Inr raw \<Rightarrow>
               (case ho_validate h (tl_name t) raw of
                  Inl e \<Rightarrow> (failed e, s)
                | Inr args \<Rightarrow>
                    (case ho_before h of
                       None \<Rightarrow> (Prepared t args, s)
                     | Some before \<Rightarrow>
                         (case await h (before m c args (rs_context s)) s of
                            (Value (Some (True, reason)), s') \<Rightarrow>
                              (failed (case reason of
                                         Some r \<Rightarrow> if r = [] then js ''Tool execution was blocked'' else r
                                       | None \<Rightarrow> js ''Tool execution was blocked''), s')
                          | (Value _, s') \<Rightarrow> (Prepared t args, s')
                          | (e, s') \<Rightarrow> (failed (error_text e), s'))))))"

text \<open>Partial results are reported as long as the signal is not raised.\<close>

fun run_updates :: "'w host \<Rightarrow> tool_call \<Rightarrow> (('w \<Rightarrow> 'w) \<times> tool_output) list \<Rightarrow> 'w run_state \<Rightarrow> 'w run_state" where
  "run_updates h c [] s = s"
| "run_updates h c ((change, partial) # us) s =
     (let s' = s\<lparr>rs_world := change (rs_world s)\<rparr>
      in run_updates h c us
           (if signal_raised h s' then s'
            else emit h (ToolUpdate (call_id c) (call_name c) (call_args c) partial) s'))"

definition execute_prepared_tool_call ::
  "'w host \<Rightarrow> tool_call \<Rightarrow> 'w tool \<Rightarrow> json \<Rightarrow> 'w run_state \<Rightarrow> (tool_output \<times> bool) \<times> 'w run_state" where
  "execute_prepared_tool_call h c t args s =
     (let aborted = create_error_tool_result (js ''Tool execution aborted'') in
      if signal_raised h s then ((aborted, True), s)
      else
        (case tl_execute t (call_id c) args (rs_world s) of
           (updates, settle) \<Rightarrow>
             (case await h settle (run_updates h c updates s) of
                (Value out, s') \<Rightarrow> ((out, False), s')
              | (e, s') \<Rightarrow>
                  ((if signal_raised h s' then aborted else create_error_tool_result (error_text e), True), s'))))"

record finalized =
  fn_call :: tool_call
  fn_output :: tool_output
  fn_error :: bool

text \<open>\<open>a ?? b\<close>, which skips a JSON null as well as an absent value.\<close>

definition nullish :: "json option \<Rightarrow> json option \<Rightarrow> json option" where
  "nullish a b = (case a of None \<Rightarrow> b | Some JNull \<Rightarrow> b | Some v \<Rightarrow> Some v)"

definition apply_after_result :: "after_result \<Rightarrow> tool_output \<Rightarrow> bool \<Rightarrow> tool_output \<times> bool" where
  "apply_after_result a out err =
     (\<lparr>to_content = (case ar_content a of Some c \<Rightarrow> c | None \<Rightarrow> to_content out),
       to_details = nullish (ar_details a) (to_details out),
       to_terminate = (case ar_terminate a of Some t \<Rightarrow> Some t | None \<Rightarrow> to_terminate out)\<rparr>,
      case ar_error a of Some e \<Rightarrow> e | None \<Rightarrow> err)"

definition finalize_executed_tool_call ::
  "'w host \<Rightarrow> assistant_message \<Rightarrow> tool_call \<Rightarrow> json \<Rightarrow> tool_output \<times> bool \<Rightarrow> 'w run_state \<Rightarrow> finalized \<times> 'w run_state" where
  "finalize_executed_tool_call h m c args executed s =
     (let finish = (\<lambda>x. \<lparr>fn_call = c, fn_output = fst x, fn_error = snd x\<rparr>) in
      case ho_after h of
        None \<Rightarrow> (finish executed, s)
      | Some after \<Rightarrow>
          (case await h (after m c args (fst executed) (snd executed) (rs_context s)) s of
             (Value None, s') \<Rightarrow> (finish executed, s')
           | (Value (Some a), s') \<Rightarrow> (finish (apply_after_result a (fst executed) (snd executed)), s')
           | (e, s') \<Rightarrow> (finish (create_error_tool_result (error_text e), True), s')))"

definition emit_tool_start :: "'w host \<Rightarrow> tool_call \<Rightarrow> 'w run_state \<Rightarrow> 'w run_state" where
  "emit_tool_start h c = emit h (ToolStart (call_id c) (call_name c) (call_args c))"

definition emit_tool_execution_end :: "'w host \<Rightarrow> finalized \<Rightarrow> 'w run_state \<Rightarrow> 'w run_state" where
  "emit_tool_execution_end h f =
     emit h (ToolEnd (call_id (fn_call f)) (call_name (fn_call f)) (fn_output f) (fn_error f))"

definition create_tool_result_message :: "'w host \<Rightarrow> finalized \<Rightarrow> 'w run_state \<Rightarrow> tool_result" where
  "create_tool_result_message h f s =
     \<lparr>tr_call_id = call_id (fn_call f), tr_tool = call_name (fn_call f), tr_content = to_content (fn_output f),
      tr_details = to_details (fn_output f), tr_error = fn_error f, tr_time = ho_now h (rs_world s)\<rparr>"

section \<open>A batch of tool calls\<close>

definition execute_and_finalize ::
  "'w host \<Rightarrow> assistant_message \<Rightarrow> tool_call \<Rightarrow> 'w tool \<Rightarrow> json \<Rightarrow> 'w run_state \<Rightarrow> finalized \<times> 'w run_state" where
  "execute_and_finalize h m c t args s =
     (case execute_prepared_tool_call h c t args s of
        (executed, s') \<Rightarrow> finalize_executed_tool_call h m c args executed s')"

definition sequential_call ::
  "'w host \<Rightarrow> assistant_message \<Rightarrow> tool_call \<Rightarrow> 'w run_state \<Rightarrow> finalized \<times> 'w run_state" where
  "sequential_call h m c s =
     (case prepare_tool_call h m c (emit_tool_start h c s) of
        (Immediate out err, s') \<Rightarrow> (\<lparr>fn_call = c, fn_output = out, fn_error = err\<rparr>, s')
      | (Prepared t args, s') \<Rightarrow> execute_and_finalize h m c t args s')"

text \<open>
  The loop of \<open>executeToolCallsSequential\<close>. The check of the signal at the end of its body sees the
  state that the check at the start of the next round sees.
\<close>

fun sequential_calls ::
  "'w host \<Rightarrow> assistant_message \<Rightarrow> tool_call list \<Rightarrow> 'w run_state \<Rightarrow> (finalized \<times> tool_result) list \<times> 'w run_state" where
  "sequential_calls h m [] s = ([], s)"
| "sequential_calls h m (c # cs) s =
     (if signal_raised h s then ([], s)
      else
        (case sequential_call h m c s of
           (f, s1) \<Rightarrow>
             let s2 = emit_tool_execution_end h f s1;
                 r = create_tool_result_message h f s2
             in (case sequential_calls h m cs (emit_message h (ToolResult r) s2) of
                   (rest, s3) \<Rightarrow> ((f, r) # rest, s3))))"

text \<open>
  The parallel batch: all calls are prepared in source order, then the prepared ones run, one to its
  end after the other, in the order the host picks.
\<close>

datatype 'w batch_entry = Ready finalized | Waiting tool_call "'w tool" json

fun prepare_calls ::
  "'w host \<Rightarrow> assistant_message \<Rightarrow> tool_call list \<Rightarrow> 'w run_state \<Rightarrow> 'w batch_entry list \<times> 'w run_state" where
  "prepare_calls h m [] s = ([], s)"
| "prepare_calls h m (c # cs) s =
     (case (case prepare_tool_call h m c (emit_tool_start h c s) of
              (Immediate out err, s') \<Rightarrow>
                let f = \<lparr>fn_call = c, fn_output = out, fn_error = err\<rparr> in (Ready f, emit_tool_execution_end h f s')
            | (Prepared t args, s') \<Rightarrow> (Waiting c t args, s')) of
        (e, s1) \<Rightarrow> (case prepare_calls h m cs s1 of (es, s2) \<Rightarrow> (e # es, s2)))"

definition finish_entry ::
  "'w host \<Rightarrow> assistant_message \<Rightarrow> 'w batch_entry \<Rightarrow> 'w run_state \<Rightarrow> finalized \<times> 'w run_state" where
  "finish_entry h m e s =
     (case e of
        Ready f \<Rightarrow> (f, s)
      | Waiting c t args \<Rightarrow>
          (case execute_and_finalize h m c t args s of (f, s') \<Rightarrow> (f, emit_tool_execution_end h f s')))"

definition picked :: "'w host \<Rightarrow> nat list \<Rightarrow> 'w run_state \<Rightarrow> nat" where
  "picked h is s = (let p = ho_pick h is (rs_world s) in if p \<in> set is then p else hd is)"

lemma picked_in [simp]: "is \<noteq> [] \<Longrightarrow> picked h is s \<in> set is"
  by (simp add: picked_def Let_def)

function run_entries ::
  "'w host \<Rightarrow> assistant_message \<Rightarrow> 'w batch_entry list \<Rightarrow> nat list \<Rightarrow> (nat \<rightharpoonup> finalized) \<Rightarrow> 'w run_state
   \<Rightarrow> (nat \<rightharpoonup> finalized) \<times> 'w run_state" where
  "run_entries h m es is found s =
     (if is = [] then (found, s)
      else
        let i = picked h is s in
        (case finish_entry h m (es ! i) s of
           (f, s') \<Rightarrow> run_entries h m es (remove1 i is) (found(i \<mapsto> f)) s'))"
  by pat_completeness auto
termination
  by (relation "measure (\<lambda>(h, m, es, is, found, s). length is)")
    (auto simp: length_remove1 Suc_pred length_pos_if_in_set picked_def Let_def)

declare run_entries.simps [simp del]

fun emit_results :: "'w host \<Rightarrow> finalized list \<Rightarrow> 'w run_state \<Rightarrow> tool_result list \<times> 'w run_state" where
  "emit_results h [] s = ([], s)"
| "emit_results h (f # fs) s =
     (let r = create_tool_result_message h f s in
      case emit_results h fs (emit_message h (ToolResult r) s) of (rs, s') \<Rightarrow> (r # rs, s'))"

definition should_terminate_tool_batch :: "finalized list \<Rightarrow> bool" where
  "should_terminate_tool_batch fs \<longleftrightarrow> fs \<noteq> [] \<and> list_all (\<lambda>f. to_terminate (fn_output f) = Some True) fs"

definition execute_tool_calls_sequential ::
  "'w host \<Rightarrow> assistant_message \<Rightarrow> tool_call list \<Rightarrow> 'w run_state \<Rightarrow> tool_result list \<times> bool \<times> 'w run_state" where
  "execute_tool_calls_sequential h m calls s =
     (case sequential_calls h m calls s of
        (frs, s') \<Rightarrow> (map snd frs, should_terminate_tool_batch (map fst frs), s'))"

definition execute_tool_calls_parallel ::
  "'w host \<Rightarrow> assistant_message \<Rightarrow> tool_call list \<Rightarrow> 'w run_state \<Rightarrow> tool_result list \<times> bool \<times> 'w run_state" where
  "execute_tool_calls_parallel h m calls s =
     (case prepare_calls h m calls s of
        (es, s1) \<Rightarrow>
          (case run_entries h m es [0..<length es] (\<lambda>_. None) s1 of
             (found, s2) \<Rightarrow>
               let fs = List.map_filter found [0..<length es] in
               (case emit_results h fs s2 of (rs, s3) \<Rightarrow> (rs, should_terminate_tool_batch fs, s3))))"

definition runs_sequentially :: "'w host \<Rightarrow> tool_call list \<Rightarrow> bool" where
  "runs_sequentially h calls \<longleftrightarrow>
     ho_sequential h \<or> list_ex (\<lambda>c. case find_tool h c of Some t \<Rightarrow> tl_sequential t | None \<Rightarrow> False) calls"

definition execute_tool_calls ::
  "'w host \<Rightarrow> assistant_message \<Rightarrow> 'w run_state \<Rightarrow> tool_result list \<times> bool \<times> 'w run_state" where
  "execute_tool_calls h m s =
     (let calls = tool_calls (am_content m) in
      if runs_sequentially h calls then execute_tool_calls_sequential h m calls s
      else execute_tool_calls_parallel h m calls s)"

section \<open>The provider turn\<close>

definition and_then :: "'a outcome \<times> 's \<Rightarrow> ('a \<Rightarrow> 's \<Rightarrow> 'b outcome \<times> 's) \<Rightarrow> 'b outcome \<times> 's" where
  "and_then x f =
     (case x of (Value a, s) \<Rightarrow> f a s | (Cancelled e, s) \<Rightarrow> (Cancelled e, s) | (Failure e, s) \<Rightarrow> (Failure e, s))"

definition create_aborted_assistant_message :: "'w host \<Rightarrow> 'w run_state \<Rightarrow> assistant_message" where
  "create_aborted_assistant_message h s =
     (let model = ho_model h; from_partial = (\<lambda>f d. case rs_partial s of Some p \<Rightarrow> f p | None \<Rightarrow> d) in
      \<lparr>am_content = (case rs_partial s of Some p \<Rightarrow> am_content p | None \<Rightarrow> [TextBlock [] None]),
       am_api = from_partial am_api (lm_api model), am_provider = from_partial am_provider (lm_provider model),
       am_model = from_partial am_model (lm_id model), am_response_model = None, am_response_id = None,
       am_diagnostics = None, am_usage = (case rs_partial s of Some p \<Rightarrow> am_usage p | None \<Rightarrow> empty_usage),
       am_stop = Aborted, am_stop_raw = None, am_error = Some abort_error_message, am_time = ho_now h (rs_world s)\<rparr>)"

definition replace_last :: "message \<Rightarrow> 'w run_state \<Rightarrow> 'w run_state" where
  "replace_last m s = s\<lparr>rs_context := butlast (rs_context s) @ [m]\<rparr>"

text \<open>The final message takes the place of the partial one, when there is one.\<close>

definition put_final_message :: "'w host \<Rightarrow> assistant_message \<Rightarrow> 'w run_state \<Rightarrow> 'w run_state" where
  "put_final_message h m s =
     emit h (MessageEnd (Assistant m))
       (if rs_partial s \<noteq> None then replace_last (Assistant m) s
        else emit h (MessageStart (Assistant m)) (s\<lparr>rs_context := rs_context s @ [Assistant m]\<rparr>))"

fun stream_loop ::
  "'w host \<Rightarrow> 'w response \<Rightarrow> ('w, stream_event) operation list \<Rightarrow> 'w run_state \<Rightarrow> assistant_message outcome \<times> 'w run_state" where
  "stream_loop h r [] s =
     and_then (await h (re_result r) s) (\<lambda>m s'. (Value m, put_final_message h m s'))"
| "stream_loop h r (next # rest) s =
     and_then (await h next s) (\<lambda>event s1.
       case event of
         StreamStart p \<Rightarrow>
           stream_loop h r rest
             (emit h (MessageStart (Assistant p))
               (s1\<lparr>rs_partial := Some p, rs_context := rs_context s1 @ [Assistant p]\<rparr>))
       | StreamUpdate p \<Rightarrow>
           stream_loop h r rest
             (if rs_partial s1 = None then s1
              else emit h (MessageUpdate (Assistant p)) (replace_last (Assistant p) (s1\<lparr>rs_partial := Some p\<rparr>)))
       | StreamFinal t \<Rightarrow>
           (case await h (re_result r) s1 of
              (Value m, s2) \<Rightarrow> (Value m, put_final_message h m s2)
            | (Cancelled e, s2) \<Rightarrow>
                if signal_raised h s2 then (Value t, put_final_message h t s2) else (Cancelled e, s2)
            | (Failure e, s2) \<Rightarrow> (Failure e, s2)))"

definition request_llm :: "'w host \<Rightarrow> 'w run_state \<Rightarrow> 'w response outcome \<times> 'w run_state" where
  "request_llm h s0 =
     and_then (if signal_raised h s0 then Cancelled abort_error_message else Value (), s0) (\<lambda>_ s1.
     and_then (case ho_transform h of None \<Rightarrow> (Value (rs_context s1), s1) | Some f \<Rightarrow> await h (f (rs_context s1)) s1) (\<lambda>ms s2.
     and_then (await h (ho_convert h ms) s2) (\<lambda>llm s3.
     and_then (case ho_key h of None \<Rightarrow> (Value None, s3) | Some f \<Rightarrow> await h (f (lm_provider (ho_model h))) s3) (\<lambda>k s4.
       await h (ho_stream h
         \<lparr>lr_system = (case ho_system h of Some f \<Rightarrow> f (rs_world s4) | None \<Rightarrow> ho_context_system h),
          lr_messages = llm,
          lr_key = (if k = None \<or> k = Some [] then ho_static_key h else k)\<rparr>) s4))))"

definition stream_assistant_response ::
  "'w host \<Rightarrow> 'w run_state \<Rightarrow> assistant_message outcome \<times> 'w run_state" where
  "stream_assistant_response h s =
     (case and_then (request_llm h (s\<lparr>rs_partial := None\<rparr>)) (\<lambda>r s'. stream_loop h r (re_next r) s') of
        (Cancelled e, s') \<Rightarrow>
          if signal_raised h s'
          then (let m = create_aborted_assistant_message h s' in (Value m, put_final_message h m s'))
          else (Cancelled e, s')
      | other \<Rightarrow> other)"

section \<open>The loop\<close>

definition default_max_consecutive_reflexes :: nat where
  "default_max_consecutive_reflexes = 3"

definition max_reflexes :: "'w host \<Rightarrow> nat" where
  "max_reflexes h = (case ho_max_reflexes h of Some n \<Rightarrow> n | None \<Rightarrow> default_max_consecutive_reflexes)"

text \<open>
  The loop is a machine over its program points: the top of the outer loop, the condition of the
  inner one, the code after the inner one. \<open>Finished None\<close> is a normal return and \<open>Finished (Some e)\<close> a
  rejection with the message \<open>e\<close>.
\<close>

datatype phase = LoopTop | TurnTop | Between | Finished "jstring option"

type_synonym 'w machine = "phase \<times> 'w run_state"

definition finish_run :: "'w host \<Rightarrow> 'w run_state \<Rightarrow> 'w machine" where
  "finish_run h s = (Finished None, emit h (AgentEnd (rs_new s)) s)"

definition poll_messages_unless_aborted ::
  "'w host \<Rightarrow> ('w, transcript) operation option \<Rightarrow> 'w run_state \<Rightarrow> transcript outcome \<times> 'w run_state" where
  "poll_messages_unless_aborted h poll s =
     (case poll of None \<Rightarrow> (Value [], s) | Some f \<Rightarrow> if signal_raised h s then (Value [], s) else await h f s)"

text \<open>\<open>settlePostTurn\<close>, with what the loop does on each of its results.\<close>

definition settle_post_turn ::
  "'w host \<Rightarrow> 'a outcome \<times> 'w run_state \<Rightarrow> ('a \<Rightarrow> 'w run_state \<Rightarrow> 'w machine) \<Rightarrow> 'w machine" where
  "settle_post_turn h x continue =
     (case x of
        (Value v, s) \<Rightarrow> continue v s
      | (Cancelled e, s) \<Rightarrow> if signal_raised h s then finish_run h s else (Finished (Some e), s)
      | (Failure e, s) \<Rightarrow> (Finished (Some e), s))"

definition should_stop_before_turn :: "'w host \<Rightarrow> 'w run_state \<Rightarrow> bool" where
  "should_stop_before_turn h s \<longleftrightarrow>
     \<not> rs_first s \<and> (case ho_stop_before h of Some f \<Rightarrow> f (rs_world s) | None \<Rightarrow> False)"

definition start_turn :: "'w host \<Rightarrow> 'w run_state \<Rightarrow> 'w run_state" where
  "start_turn h s = (if rs_first s then s\<lparr>rs_first := False\<rparr> else emit h TurnStart s)"

definition create_reflex_assistant_message :: "'w host \<Rightarrow> pre_turn_reflex \<Rightarrow> 'w run_state \<Rightarrow> assistant_message" where
  "create_reflex_assistant_message h r s =
     \<lparr>am_content = [CallBlock \<lparr>call_id = js ''reflex-'' @ ho_uuid h (rs_world s), call_name = rx_tool r,
          call_args = (case nullish (rx_args r) None of Some a \<Rightarrow> a | None \<Rightarrow> JObj []), thought_signature = None\<rparr>],
      am_api = lm_api (ho_model h), am_provider = lm_provider (ho_model h), am_model = lm_id (ho_model h),
      am_response_model = None, am_response_id = None, am_diagnostics = None, am_usage = empty_usage,
      am_stop = ToolUse, am_stop_raw = None, am_error = None, am_time = ho_now h (rs_world s)\<rparr>"

definition resolve_pre_turn_reflex :: "'w host \<Rightarrow> 'w run_state \<Rightarrow> pre_turn_reflex option \<times> 'w run_state" where
  "resolve_pre_turn_reflex h s =
     (case ho_router h of
        None \<Rightarrow> (None, s)
      | Some f \<Rightarrow>
          (case await h (f (rs_turn s) (rs_reflexes s) (rs_context s)) s of
             (Value r, s') \<Rightarrow> (r, s')
           | (_, s') \<Rightarrow> (None, s')))"

definition record_results :: "tool_result list \<Rightarrow> 'w run_state \<Rightarrow> 'w run_state" where
  "record_results rs s = fold record_message (map ToolResult rs) s"

definition reflex_turn :: "'w host \<Rightarrow> pre_turn_reflex \<Rightarrow> 'w run_state \<Rightarrow> 'w machine" where
  "reflex_turn h r s =
     (let s1 = s\<lparr>rs_reflexes := rs_reflexes s + 1\<rparr>;
          s2 = start_turn h (emit h (ReflexEvent (rx_tool r) (rs_turn s1) (rs_reflexes s1)) s1);
          m = create_reflex_assistant_message h r s2;
          s3 = record_message (Assistant m) (emit_message h (Assistant m) s2)
      in (case execute_tool_calls h m s3 of
            (rs, terminate, s4) \<Rightarrow>
              let s5 = emit h (TurnEnd m rs) (record_results rs s4);
                  s6 = s5\<lparr>rs_turn := rs_turn s5 + 1\<rparr>
              in if signal_raised h s6 then finish_run h s6
                 else (TurnTop, s6\<lparr>rs_more := \<not> terminate\<rparr>)))"

definition inject :: "'w host \<Rightarrow> message \<Rightarrow> 'w run_state \<Rightarrow> 'w run_state" where
  "inject h m s = record_message m (emit_message h m s)"

definition inject_pending :: "'w host \<Rightarrow> 'w run_state \<Rightarrow> 'w run_state" where
  "inject_pending h s = (fold (inject h) (rs_pending s) s)\<lparr>rs_pending := []\<rparr>"

definition after_turn :: "'w host \<Rightarrow> assistant_message \<Rightarrow> tool_result list \<Rightarrow> 'w run_state \<Rightarrow> 'w machine" where
  "after_turn h m rs s =
     settle_post_turn h
       (await h (case ho_stop_after h of None \<Rightarrow> (\<lambda>w. (Value False, w)) | Some f \<Rightarrow> f m rs (rs_context s) (rs_new s)) s)
       (\<lambda>stop s1.
          if stop \<or> should_stop_before_turn h s1 then finish_run h s1
          else
            settle_post_turn h (poll_messages_unless_aborted h (ho_steering h) s1) (\<lambda>ms s2.
              let s3 = s2\<lparr>rs_pending := ms\<rparr> in
              if ms = [] \<and> should_stop_before_turn h s3 then finish_run h s3 else (TurnTop, s3)))"

definition answer_turn :: "'w host \<Rightarrow> assistant_message \<Rightarrow> 'w run_state \<Rightarrow> 'w machine" where
  "answer_turn h m s0 =
     (let s = s0\<lparr>rs_reflexes := 0, rs_turn := rs_turn s0 + 1, rs_new := rs_new s0 @ [Assistant m]\<rparr> in
      if am_stop m = ErrorStop \<or> am_stop m = Aborted then finish_run h (emit h (TurnEnd m []) s)
      else
        (case (if tool_calls (am_content m) = [] then ([], True, s) else execute_tool_calls h m s) of
           (rs, terminate, s1) \<Rightarrow>
             let s2 = emit h (TurnEnd m rs) (record_results rs (s1\<lparr>rs_more := \<not> terminate\<rparr>))
             in if signal_raised h s2 then finish_run h s2
                else after_turn h m rs (s2\<lparr>rs_last := Some (m, rs)\<rparr>)))"

definition provider_turn :: "'w host \<Rightarrow> 'w run_state \<Rightarrow> 'w machine" where
  "provider_turn h s =
     (case stream_assistant_response h (inject_pending h (start_turn h s)) of
        (Value m, s') \<Rightarrow> answer_turn h m s'
      | (e, s') \<Rightarrow> (Finished (Some (error_text e)), s'))"

definition next_reflex :: "'w host \<Rightarrow> 'w run_state \<Rightarrow> pre_turn_reflex option \<times> 'w run_state" where
  "next_reflex h s =
     (if rs_pending s = [] \<and> rs_reflexes s < max_reflexes h then resolve_pre_turn_reflex h s else (None, s))"

definition turn_top :: "'w host \<Rightarrow> 'w run_state \<Rightarrow> 'w machine" where
  "turn_top h s =
     (if \<not> rs_more s \<and> rs_pending s = [] then (Between, s)
      else if signal_raised h s then (Finished (Some abort_error_message), s)
      else
        (case next_reflex h s of
           (Some r, s') \<Rightarrow> reflex_turn h r s'
         | (None, s') \<Rightarrow> provider_turn h s'))"

definition between_turns :: "'w host \<Rightarrow> 'w run_state \<Rightarrow> 'w machine" where
  "between_turns h s =
     (if should_stop_before_turn h s then finish_run h s
      else
        settle_post_turn h (poll_messages_unless_aborted h (ho_follow_up h) s) (\<lambda>ms s1.
          if ms \<noteq> [] then (LoopTop, s1\<lparr>rs_pending := ms\<rparr>)
          else if should_stop_before_turn h s1 then finish_run h s1
          else
            settle_post_turn h
              (case rs_last s1 of
                 None \<Rightarrow> (Value [], s1)
               | Some (m, rs) \<Rightarrow>
                   await h (case ho_continuation h of
                              None \<Rightarrow> (\<lambda>w. (Value [], w))
                            | Some f \<Rightarrow> f m rs (rs_context s1) (rs_new s1)) s1)
              (\<lambda>ms s2. if ms \<noteq> [] then (LoopTop, s2\<lparr>rs_pending := ms\<rparr>) else finish_run h s2)))"

fun loop_step :: "'w host \<Rightarrow> 'w machine \<Rightarrow> 'w machine" where
  "loop_step h (LoopTop, s) =
     (if signal_raised h s then (Finished (Some abort_error_message), s) else (TurnTop, s\<lparr>rs_more := True\<rparr>))"
| "loop_step h (TurnTop, s) = turn_top h s"
| "loop_step h (Between, s) = between_turns h s"
| "loop_step h (Finished e, s) = (Finished e, s)"

definition running :: "'w machine \<Rightarrow> bool" where
  "running x = (case fst x of Finished _ \<Rightarrow> False | _ \<Rightarrow> True)"

text \<open>\<open>runLoop\<close>; \<open>None\<close> is a run that does not end.\<close>

definition run_loop :: "'w host \<Rightarrow> 'w run_state \<Rightarrow> 'w machine option" where
  "run_loop h s =
     (case poll_messages_unless_aborted h (ho_steering h) s of
        (Value ms, s') \<Rightarrow> while_option running (loop_step h) (LoopTop, s'\<lparr>rs_pending := ms\<rparr>)
      | (e, s') \<Rightarrow> Some (Finished (Some (error_text e)), s'))"

definition fresh_run :: "transcript \<Rightarrow> 'w \<Rightarrow> 'w run_state" where
  "fresh_run context w =
     \<lparr>rs_world = w, rs_log = [], rs_context = context, rs_new = [], rs_pending = [], rs_first = True,
      rs_last = None, rs_turn = 0, rs_reflexes = 0, rs_more = False, rs_partial = None\<rparr>"

definition start_run :: "'w host \<Rightarrow> transcript \<Rightarrow> transcript \<Rightarrow> 'w \<Rightarrow> 'w run_state" where
  "start_run h prompts context w =
     (let s = (fresh_run (context @ prompts) w)\<lparr>rs_new := prompts\<rparr>
      in fold (emit_message h) prompts (emit h TurnStart (emit h AgentStart s)))"

definition run_agent_loop :: "'w host \<Rightarrow> transcript \<Rightarrow> transcript \<Rightarrow> 'w \<Rightarrow> 'w machine option" where
  "run_agent_loop h prompts context w = run_loop h (start_run h prompts context w)"

text \<open>\<open>runAgentLoopContinue\<close>; its two preconditions are rejections before any event.\<close>

definition run_agent_loop_continue :: "'w host \<Rightarrow> transcript \<Rightarrow> 'w \<Rightarrow> 'w machine option" where
  "run_agent_loop_continue h context w =
     (if context = [] then Some (Finished (Some (js ''Cannot continue: no messages in context'')), fresh_run context w)
      else if is_assistant (last context)
      then Some (Finished (Some (js ''Cannot continue from message role: assistant'')), fresh_run context w)
      else run_loop h (start_run h [] context w))"

end
