(* ===== verification/PendingQueue.thy ===== *)
theory PendingQueue
  imports Messages "HOL-Library.Multiset"
begin

text \<open>
  The queue of messages that wait for a turn (\<open>PendingMessageQueue\<close> of packages/agent/src/agent.ts),
  and what its client relies on: messages leave a queue in the order in which they entered it, and
  none is lost or doubled on the way. The contract is a locale over a view of a queue as the list of
  its messages; \<open>Agent\<close> uses it for the steering and the follow-up queue.
\<close>

section \<open>The contract\<close>

text \<open>
  \<open>give\<close> puts a batch in, \<open>take\<close> removes what the queue hands out next, \<open>content\<close> is the messages in
  their order. A queue may hand out any part of its content, but nothing only when it is empty.
\<close>

locale fifo =
  fixes content :: "'q \<Rightarrow> 'a list"
    and give :: "'a list \<Rightarrow> 'q \<Rightarrow> 'q"
    and take_next :: "'q \<Rightarrow> 'a list \<times> 'q"
    and valid :: "'q \<Rightarrow> bool"
  assumes give_content: "content (give xs q) = content q @ xs"
    and take_content: "take_next q = (xs, q') \<Longrightarrow> content q = xs @ content q'"
    and take_progress: "take_next q = (xs, q') \<Longrightarrow> valid q \<Longrightarrow> xs = [] \<Longrightarrow> content q = []"
    and give_valid: "valid q \<Longrightarrow> valid (give xs q)"
    and take_valid: "take_next q = (xs, q') \<Longrightarrow> valid q \<Longrightarrow> valid q'"
begin

text \<open>A history of a queue: what was given, and what the takes gave back.\<close>

inductive history :: "'q \<Rightarrow> 'a list \<Rightarrow> 'a list \<Rightarrow> 'q \<Rightarrow> bool" for q0 where
  untouched: "history q0 [] [] q0"
| given: "history q0 gs ts q \<Longrightarrow> history q0 (gs @ xs) ts (give xs q)"
| taken: "history q0 gs ts q \<Longrightarrow> take_next q = (xs, q') \<Longrightarrow> history q0 gs (ts @ xs) q'"

lemma history_conserves: "history q0 gs ts q \<Longrightarrow> content q0 @ gs = ts @ content q"
  by (induction rule: history.induct) (simp_all add: give_content take_content)

lemma history_valid: "history q0 gs ts q \<Longrightarrow> valid q0 \<Longrightarrow> valid q"
  by (induction rule: history.induct) (auto intro: give_valid take_valid)

lemma empty_take_means_all_taken:
  assumes "history q0 gs ts q" "valid q0" "take_next q = ([], q')"
  shows "ts = content q0 @ gs"
  using history_conserves [OF assms(1)] take_progress [OF assms(3) history_valid [OF assms(1,2)]] by simp

text \<open>Takes alone empty a queue.\<close>

lemma take_shrinks:
  assumes "valid q" "take_next q = (xs, q')" "content q \<noteq> []"
  shows "length (content q') < length (content q)"
  using take_content [OF assms(2)] take_progress [OF assms(2,1)] assms(3) by fastforce

lemma takes_reach_everything:
  assumes "valid q"
  shows "\<exists>q'. history q [] (content q) q' \<and> content q' = []"
proof -
  have run: "valid p \<Longrightarrow> history q [] ts p \<Longrightarrow> \<exists>q' us. history q [] us q' \<and> content q' = []" for p ts
  proof (induction "length (content p)" arbitrary: p ts rule: less_induct)
    case less
    show ?case
    proof (cases "content p = []")
      case False
      obtain xs p' where t: "take_next p = (xs, p')" by fastforce
      from less.hyps [OF take_shrinks [OF less.prems(1) t False] take_valid [OF t less.prems(1)]
          taken [OF less.prems(2) t]] show ?thesis .
    qed (use less.prems in blast)
  qed
  from run [OF assms untouched] obtain q' us where "history q [] us q'" "content q' = []" by blast
  with history_conserves [of q "[]" us q'] show ?thesis by auto
qed

end

section \<open>The queue\<close>

datatype queue_mode = TakeAll | OneAtATime

record pending_queue =
  pq_mode :: queue_mode
  pq_batches :: "transcript list"

definition enqueue :: "transcript \<Rightarrow> pending_queue \<Rightarrow> pending_queue" where
  "enqueue batch q = (if batch = [] then q else q\<lparr>pq_batches := pq_batches q @ [batch]\<rparr>)"

definition has_items :: "pending_queue \<Rightarrow> bool" where
  "has_items q \<longleftrightarrow> pq_batches q \<noteq> []"

definition drain :: "pending_queue \<Rightarrow> transcript \<times> pending_queue" where
  "drain q =
     (case pq_mode q of
        TakeAll \<Rightarrow> (concat (pq_batches q), q\<lparr>pq_batches := []\<rparr>)
      | OneAtATime \<Rightarrow>
          (case pq_batches q of
             [] \<Rightarrow> ([], q)
           | first # rest \<Rightarrow> (first, q\<lparr>pq_batches := rest\<rparr>)))"

definition clear_queue :: "pending_queue \<Rightarrow> pending_queue" where
  "clear_queue q = q\<lparr>pq_batches := []\<rparr>"

definition remove_where :: "(message \<Rightarrow> bool) \<Rightarrow> pending_queue \<Rightarrow> transcript \<times> pending_queue" where
  "remove_where p q =
     (concat (filter (list_ex p) (pq_batches q)), q\<lparr>pq_batches := filter (\<lambda>b. \<not> list_ex p b) (pq_batches q)\<rparr>)"

definition queue_content :: "pending_queue \<Rightarrow> transcript" where
  "queue_content q = concat (pq_batches q)"

text \<open>No batch is empty.\<close>

definition solid :: "pending_queue \<Rightarrow> bool" where
  "solid q \<longleftrightarrow> [] \<notin> set (pq_batches q)"

lemma drain_cases:
  obtains (all) "pq_mode q = TakeAll" "drain q = (concat (pq_batches q), q\<lparr>pq_batches := []\<rparr>)"
  | (none) "pq_mode q = OneAtATime" "pq_batches q = []" "drain q = ([], q)"
  | (one) b bs where "pq_mode q = OneAtATime" "pq_batches q = b # bs" "drain q = (b, q\<lparr>pq_batches := bs\<rparr>)"
  by (cases "pq_mode q"; cases "pq_batches q") (auto simp: drain_def)

interpretation queue: fifo queue_content enqueue drain solid
proof
  fix xs q q'
  show "queue_content (enqueue xs q) = queue_content q @ xs"
    by (simp add: queue_content_def enqueue_def)
  show "solid q \<Longrightarrow> solid (enqueue xs q)"
    by (auto simp: solid_def enqueue_def)
  assume d: "drain q = (xs, q')"
  from d show "queue_content q = xs @ queue_content q'"
    by (cases q rule: drain_cases) (auto simp: queue_content_def)
  from d show "solid q \<Longrightarrow> xs = [] \<Longrightarrow> queue_content q = []"
    by (cases q rule: drain_cases) (auto simp: queue_content_def solid_def)
  from d show "solid q \<Longrightarrow> solid q'"
    by (cases q rule: drain_cases) (auto simp: solid_def)
qed

text \<open>What a predicate removes and what stays are the two halves of the content, in order.\<close>

lemma remove_where_splits:
  assumes "remove_where p q = (removed, q')"
  shows "mset (queue_content q) = mset removed + mset (queue_content q')"
    and "m \<in> set (queue_content q') \<Longrightarrow> \<not> p m"
    and "solid q \<Longrightarrow> solid q'"
proof -
  have split: "mset (concat bs) = mset (concat (filter (list_ex p) bs)) + mset (concat (filter (\<lambda>b. \<not> list_ex p b) bs))" for bs
    by (induction bs) (simp_all add: ac_simps)
  show "mset (queue_content q) = mset removed + mset (queue_content q')"
    using assms by (auto simp: remove_where_def queue_content_def intro: split)
  show "m \<in> set (queue_content q') \<Longrightarrow> \<not> p m"
    using assms by (auto simp: remove_where_def queue_content_def list_ex_iff)
  show "solid q \<Longrightarrow> solid q'"
    using assms by (auto simp: remove_where_def solid_def)
qed

end
