(* ===== verification/Agent.thy ===== *)
theory Agent
  imports AgentLoop PendingQueue
begin

text \<open>
  The \<open>Agent\<close> (packages/agent/src/agent.ts): the state it keeps around the loop, its queues, the
  reduction of the loop's events, and the life cycle of a run.

  The world of the loop is here the agent itself. The hooks, tools, listeners and the provider of an
  agent are its client; they see the agent and act on it through its public methods, so that a call
  of the client settles, gives the list of the methods it called, and changes a world of its own.
  The methods \<open>reset\<close> and the setters of \<open>state\<close> are not called while a run is active, and listeners
  do not reject.
\<close>

section \<open>State\<close>

record 'w agent =
  ag_messages :: transcript
  ag_streaming :: bool
  ag_partial :: "message option"
  ag_calls :: "jstring set"
  ag_error :: "jstring option"
  ag_steering :: pending_queue
  ag_follow_up :: pending_queue
  ag_active :: bool
  ag_aborted :: bool
  ag_skip :: bool
  ag_env :: 'w

text \<open>
  \<open>ag_active\<close> and \<open>ag_aborted\<close> are \<open>activeRun\<close> and its signal, \<open>ag_skip\<close> is the variable
  \<open>skipInitialSteeringPoll\<close> of the configuration of the running loop.
\<close>

section \<open>Methods\<close>

definition steer :: "transcript \<Rightarrow> 'w agent \<Rightarrow> 'w agent" where
  "steer ms a = a\<lparr>ag_steering := enqueue ms (ag_steering a)\<rparr>"

definition follow_up :: "transcript \<Rightarrow> 'w agent \<Rightarrow> 'w agent" where
  "follow_up ms a = a\<lparr>ag_follow_up := enqueue ms (ag_follow_up a)\<rparr>"

definition clear_steering_queue :: "'w agent \<Rightarrow> 'w agent" where
  "clear_steering_queue a = a\<lparr>ag_steering := clear_queue (ag_steering a)\<rparr>"

definition clear_follow_up_queue :: "'w agent \<Rightarrow> 'w agent" where
  "clear_follow_up_queue a = a\<lparr>ag_follow_up := clear_queue (ag_follow_up a)\<rparr>"

definition clear_all_queues :: "'w agent \<Rightarrow> 'w agent" where
  "clear_all_queues a = clear_follow_up_queue (clear_steering_queue a)"

definition remove_queued_messages :: "(message \<Rightarrow> bool) \<Rightarrow> 'w agent \<Rightarrow> transcript \<times> 'w agent" where
  "remove_queued_messages p a =
     (case remove_where p (ag_steering a) of (ms, q) \<Rightarrow>
       (case remove_where p (ag_follow_up a) of (ns, q') \<Rightarrow>
         (ms @ ns, a\<lparr>ag_steering := q, ag_follow_up := q'\<rparr>)))"

definition has_queued_messages :: "'w agent \<Rightarrow> bool" where
  "has_queued_messages a \<longleftrightarrow> has_items (ag_steering a) \<or> has_items (ag_follow_up a)"

definition abort :: "'w agent \<Rightarrow> 'w agent" where
  "abort a = (if ag_active a then a\<lparr>ag_aborted := True\<rparr> else a)"

definition set_steering_mode :: "queue_mode \<Rightarrow> 'w agent \<Rightarrow> 'w agent" where
  "set_steering_mode md a = a\<lparr>ag_steering := (ag_steering a)\<lparr>pq_mode := md\<rparr>\<rparr>"

definition set_follow_up_mode :: "queue_mode \<Rightarrow> 'w agent \<Rightarrow> 'w agent" where
  "set_follow_up_mode md a = a\<lparr>ag_follow_up := (ag_follow_up a)\<lparr>pq_mode := md\<rparr>\<rparr>"

definition reset :: "'w agent \<Rightarrow> 'w agent" where
  "reset a =
     clear_steering_queue (clear_follow_up_queue
       (a\<lparr>ag_messages := [], ag_streaming := False, ag_partial := None, ag_calls := {}, ag_error := None\<rparr>))"

datatype command =
    Steer transcript
  | FollowUp transcript
  | ClearSteering
  | ClearFollowUp
  | RemoveQueued "message \<Rightarrow> bool"
  | Abort
  | SteeringMode queue_mode
  | FollowUpMode queue_mode

fun run_command :: "command \<Rightarrow> 'w agent \<Rightarrow> 'w agent" where
  "run_command (Steer ms) = steer ms"
| "run_command (FollowUp ms) = follow_up ms"
| "run_command ClearSteering = clear_steering_queue"
| "run_command ClearFollowUp = clear_follow_up_queue"
| "run_command (RemoveQueued p) = (\<lambda>a. snd (remove_queued_messages p a))"
| "run_command Abort = abort"
| "run_command (SteeringMode md) = set_steering_mode md"
| "run_command (FollowUpMode md) = set_follow_up_mode md"

section \<open>The client\<close>

type_synonym 'w reaction = "'w agent \<Rightarrow> command list \<times> 'w"
type_synonym ('w, 'a) call = "'w agent \<Rightarrow> 'a outcome \<times> command list \<times> 'w"

definition react :: "'w reaction \<Rightarrow> 'w agent \<Rightarrow> 'w agent" where
  "react r a = (case r a of (cs, w) \<Rightarrow> fold run_command cs (a\<lparr>ag_env := w\<rparr>))"

definition perform :: "('w, 'a) call \<Rightarrow> ('w agent, 'a) operation" where
  "perform f a = (case f a of (r, cs, w) \<Rightarrow> (r, fold run_command cs (a\<lparr>ag_env := w\<rparr>)))"

record 'w client_tool =
  ct_name :: jstring
  ct_sequential :: bool
  ct_prepare :: "(json \<Rightarrow> jstring + json) option"
  ct_execute :: "jstring \<Rightarrow> json \<Rightarrow> 'w agent \<Rightarrow> ('w reaction \<times> tool_output) list \<times> ('w, tool_output) call"

record 'w client_response =
  cr_next :: "('w, stream_event) call list"
  cr_result :: "('w, assistant_message) call"

record 'w client =
  cl_listeners :: "(agent_event \<Rightarrow> 'w reaction) list"
  cl_now :: "'w agent \<Rightarrow> int"
  cl_uuid :: "'w agent \<Rightarrow> jstring"
  cl_pick :: "nat list \<Rightarrow> 'w agent \<Rightarrow> nat"
  cl_diagnostics :: "jstring \<Rightarrow> 'w agent \<Rightarrow> json list"
  cl_model :: loop_model
  cl_tools :: "'w client_tool list"
  cl_sequential :: bool
  cl_system :: "'w agent \<Rightarrow> jstring"
  cl_validate :: "jstring \<Rightarrow> json \<Rightarrow> jstring + json"
  cl_before :: "(assistant_message \<Rightarrow> tool_call \<Rightarrow> json \<Rightarrow> transcript \<Rightarrow> ('w, (bool \<times> jstring option) option) call) option"
  cl_after :: "(assistant_message \<Rightarrow> tool_call \<Rightarrow> json \<Rightarrow> tool_output \<Rightarrow> bool \<Rightarrow> transcript \<Rightarrow> ('w, after_result option) call) option"
  cl_transform :: "(transcript \<Rightarrow> ('w, transcript) call) option"
  cl_convert :: "(transcript \<Rightarrow> ('w, transcript) call) option"
  cl_key :: "(jstring \<Rightarrow> ('w, jstring option) call) option"
  cl_stream :: "llm_request \<Rightarrow> 'w agent \<Rightarrow> 'w client_response outcome \<times> command list \<times> 'w"
  cl_router :: "(nat \<Rightarrow> nat \<Rightarrow> transcript \<Rightarrow> ('w, pre_turn_reflex option) call) option"
  cl_max_reflexes :: "nat option"
  cl_continuation :: "(assistant_message \<Rightarrow> tool_result list \<Rightarrow> transcript \<Rightarrow> transcript \<Rightarrow> ('w, transcript) call) option"
  cl_stop_after :: "(assistant_message \<Rightarrow> tool_result list \<Rightarrow> transcript \<Rightarrow> transcript \<Rightarrow> ('w, bool) call) option"
  cl_stop_before :: "('w agent \<Rightarrow> bool) option"

definition default_convert_to_llm :: "transcript \<Rightarrow> transcript" where
  "default_convert_to_llm ms =
     filter (\<lambda>m. case m of User _ \<Rightarrow> True | Assistant _ \<Rightarrow> True | ToolResult _ \<Rightarrow> True | _ \<Rightarrow> False) ms"

section \<open>Events\<close>

fun reduce_event :: "agent_event \<Rightarrow> 'w agent \<Rightarrow> 'w agent" where
  "reduce_event (MessageStart m) a = a\<lparr>ag_partial := Some m\<rparr>"
| "reduce_event (MessageUpdate m) a = a\<lparr>ag_partial := Some m\<rparr>"
| "reduce_event (MessageEnd m) a = a\<lparr>ag_partial := None, ag_messages := ag_messages a @ [m]\<rparr>"
| "reduce_event (ToolStart i _ _) a = a\<lparr>ag_calls := insert i (ag_calls a)\<rparr>"
| "reduce_event (ToolEnd i _ _ _) a = a\<lparr>ag_calls := ag_calls a - {i}\<rparr>"
| "reduce_event (TurnEnd m _) a =
     (case am_error m of Some t \<Rightarrow> if t = [] then a else a\<lparr>ag_error := Some t\<rparr> | None \<Rightarrow> a)"
| "reduce_event (AgentEnd _) a = a\<lparr>ag_partial := None\<rparr>"
| "reduce_event _ a = a"

text \<open>The listeners are awaited one after the other.\<close>

definition process_events :: "'w client \<Rightarrow> agent_event \<Rightarrow> 'w agent \<Rightarrow> 'w agent" where
  "process_events c e a = fold (\<lambda>l. react (l e)) (cl_listeners c) (reduce_event e a)"

section \<open>The configuration of a loop\<close>

definition agent_tool :: "'w client_tool \<Rightarrow> 'w agent tool" where
  "agent_tool t =
     \<lparr>tl_name = ct_name t, tl_sequential = ct_sequential t, tl_prepare = ct_prepare t,
      tl_execute = (\<lambda>i args a. case ct_execute t i args a of
        (updates, settle) \<Rightarrow> (map (\<lambda>(r, out). (react r, out)) updates, perform settle))\<rparr>"

definition agent_response :: "'w client_response \<Rightarrow> 'w agent response" where
  "agent_response r = \<lparr>re_next = map perform (cr_next r), re_result = perform (cr_result r)\<rparr>"

fun map_outcome :: "('a \<Rightarrow> 'b) \<Rightarrow> 'a outcome \<Rightarrow> 'b outcome" where
  "map_outcome f (Value a) = Value (f a)"
| "map_outcome f (Cancelled e) = Cancelled e"
| "map_outcome f (Failure e) = Failure e"

definition get_steering_messages :: "('w agent, transcript) operation" where
  "get_steering_messages a =
     (if ag_skip a then (Value [], a\<lparr>ag_skip := False\<rparr>)
      else (case drain (ag_steering a) of (ms, q) \<Rightarrow> (Value ms, a\<lparr>ag_steering := q\<rparr>)))"

definition get_follow_up_messages :: "('w agent, transcript) operation" where
  "get_follow_up_messages a = (case drain (ag_follow_up a) of (ms, q) \<Rightarrow> (Value ms, a\<lparr>ag_follow_up := q\<rparr>))"

definition agent_host :: "'w client \<Rightarrow> 'w agent host" where
  "agent_host c =
     \<lparr>ho_aborted = ag_aborted, ho_emit = process_events c, ho_now = cl_now c, ho_uuid = cl_uuid c, ho_pick = cl_pick c,
      ho_model = cl_model c, ho_tools = map agent_tool (cl_tools c), ho_sequential = cl_sequential c,
      ho_validate = cl_validate c,
      ho_before = map_option (\<lambda>f m tc args ms. perform (f m tc args ms)) (cl_before c),
      ho_after = map_option (\<lambda>f m tc args out err ms. perform (f m tc args out err ms)) (cl_after c),
      ho_system = Some (cl_system c), ho_context_system = [],
      ho_transform = map_option (\<lambda>f ms. perform (f ms)) (cl_transform c),
      ho_convert = (case cl_convert c of
          Some f \<Rightarrow> (\<lambda>ms. perform (f ms))
        | None \<Rightarrow> (\<lambda>ms a. (Value (default_convert_to_llm ms), a))),
      ho_key = map_option (\<lambda>f p. perform (f p)) (cl_key c), ho_static_key = None,
      ho_stream = (\<lambda>r a. case perform (cl_stream c r) a of (x, a') \<Rightarrow> (map_outcome agent_response x, a')),
      ho_router = map_option (\<lambda>f i n ms. perform (f i n ms)) (cl_router c),
      ho_max_reflexes = cl_max_reflexes c,
      ho_steering = Some get_steering_messages, ho_follow_up = Some get_follow_up_messages,
      ho_continuation = Some (\<lambda>m rs ms ns. case cl_continuation c of
          Some f \<Rightarrow> perform (f m rs ms ns)
        | None \<Rightarrow> (\<lambda>a. (Value [], a))),
      ho_stop_after = Some (\<lambda>m rs ms ns. case cl_stop_after c of
          Some f \<Rightarrow> perform (f m rs ms ns)
        | None \<Rightarrow> (\<lambda>a. (Value False, a))),
      ho_stop_before = Some (\<lambda>a. case cl_stop_before c of Some f \<Rightarrow> f a | None \<Rightarrow> False)\<rparr>"

section \<open>The life cycle of a run\<close>

definition begin_run :: "'w agent \<Rightarrow> 'w agent" where
  "begin_run a =
     a\<lparr>ag_active := True, ag_aborted := False, ag_streaming := True, ag_partial := None, ag_error := None\<rparr>"

definition end_run :: "'w agent \<Rightarrow> 'w agent" where
  "end_run a = a\<lparr>ag_streaming := False, ag_partial := None, ag_calls := {}, ag_active := False\<rparr>"

definition failure_message :: "'w client \<Rightarrow> jstring \<Rightarrow> 'w agent \<Rightarrow> assistant_message" where
  "failure_message c t a =
     \<lparr>am_content = [TextBlock [] None], am_api = lm_api (cl_model c), am_provider = lm_provider (cl_model c),
      am_model = lm_id (cl_model c), am_response_model = None, am_response_id = None,
      am_diagnostics = (if ag_aborted a then None else Some (cl_diagnostics c t a)), am_usage = empty_usage,
      am_stop = (if ag_aborted a then Aborted else ErrorStop), am_stop_raw = None, am_error = Some t,
      am_time = cl_now c a\<rparr>"

definition failure_events :: "assistant_message \<Rightarrow> agent_event list" where
  "failure_events m = [MessageStart (Assistant m), MessageEnd (Assistant m), AgentEnd [Assistant m]]"

definition handle_run_failure :: "'w client \<Rightarrow> jstring \<Rightarrow> 'w agent \<Rightarrow> 'w agent \<times> agent_event list" where
  "handle_run_failure c t a =
     (let es = failure_events (failure_message c t a)
      in (fold (process_events c) es (a\<lparr>ag_error := Some t\<rparr>), es))"

datatype agent_error = AlreadyProcessing | Busy | NothingToContinue

text \<open>
  How a call of the agent ends: the error it throws, if any, the agent after it and the events of the
  run. \<open>None\<close> is a run that does not end.
\<close>

type_synonym 'w run_end = "(agent_error option \<times> 'w agent \<times> agent_event list) option"

definition run_with_lifecycle :: "'w client \<Rightarrow> ('w agent \<Rightarrow> 'w agent machine option) \<Rightarrow> 'w agent \<Rightarrow> 'w run_end" where
  "run_with_lifecycle c executor a =
     (if ag_active a then Some (Some AlreadyProcessing, a, [])
      else
        (case executor (begin_run a) of
           None \<Rightarrow> None
         | Some (Finished (Some t), s) \<Rightarrow>
             (case handle_run_failure c t (rs_world s) of
                (a', es) \<Rightarrow> Some (None, end_run a', rs_log s @ es))
         | Some (_, s) \<Rightarrow> Some (None, end_run (rs_world s), rs_log s)))"

definition run_prompt_messages :: "'w client \<Rightarrow> bool \<Rightarrow> transcript \<Rightarrow> 'w agent \<Rightarrow> 'w run_end" where
  "run_prompt_messages c skip ms a =
     run_with_lifecycle c (\<lambda>a. run_agent_loop (agent_host c) ms (ag_messages a) (a\<lparr>ag_skip := skip\<rparr>)) a"

definition run_continuation :: "'w client \<Rightarrow> 'w agent \<Rightarrow> 'w run_end" where
  "run_continuation c a =
     run_with_lifecycle c (\<lambda>a. run_agent_loop_continue (agent_host c) (ag_messages a) (a\<lparr>ag_skip := False\<rparr>)) a"

datatype prompt_input = Messages transcript | OneMessage message | Text jstring "part list"

fun normalize_prompt_input :: "'w client \<Rightarrow> prompt_input \<Rightarrow> 'w agent \<Rightarrow> transcript" where
  "normalize_prompt_input c (Messages ms) a = ms"
| "normalize_prompt_input c (OneMessage m) a = [m]"
| "normalize_prompt_input c (Text t images) a =
     [User \<lparr>um_content = Parts (TextPart t None # images), um_time = cl_now c a\<rparr>]"

definition prompt :: "'w client \<Rightarrow> prompt_input \<Rightarrow> 'w agent \<Rightarrow> 'w run_end" where
  "prompt c input a =
     (if ag_active a then Some (Some AlreadyProcessing, a, [])
      else run_prompt_messages c False (normalize_prompt_input c input a) a)"

text \<open>
  \<open>continue()\<close>: queued messages start a run when the last message does not ask for one; \<open>otherwise\<close> is
  what happens when both queues are empty.
\<close>

definition run_queued_messages :: "'w client \<Rightarrow> ('w agent \<Rightarrow> 'w run_end) \<Rightarrow> 'w agent \<Rightarrow> 'w run_end" where
  "run_queued_messages c otherwise a =
     (case drain (ag_steering a) of (steering, q) \<Rightarrow>
        let a1 = a\<lparr>ag_steering := q\<rparr> in
        if steering \<noteq> [] then run_prompt_messages c True steering a1
        else
          (case drain (ag_follow_up a1) of (follow, q') \<Rightarrow>
             let a2 = a1\<lparr>ag_follow_up := q'\<rparr> in
             if follow \<noteq> [] then run_prompt_messages c False follow a2 else otherwise a2))"

definition continue_run :: "'w client \<Rightarrow> 'w agent \<Rightarrow> 'w run_end" where
  "continue_run c a =
     (let refuse = (\<lambda>a. Some (Some NothingToContinue, a, [])) in
      if ag_active a then Some (Some Busy, a, [])
      else if ag_messages a = [] then run_queued_messages c refuse a
      else
        (case last (ag_messages a) of
           Assistant _ \<Rightarrow> run_queued_messages c refuse a
         | Custom _ \<Rightarrow> run_queued_messages c (run_continuation c) a
         | _ \<Rightarrow> run_continuation c a))"

end
