(* ===== verification/AgentLoopInvariant.thy ===== *)
theory AgentLoopInvariant
  imports AgentLoop
begin

text \<open>
  The agent loop's invariants: what an operation may add to the log, what a batch of tool calls gives
  back, the invariant of the machine over its reachable states, and the rank that bounds the run of a
  loop whose model answers.
\<close>

section \<open>What the log says\<close>

fun ended_message :: "agent_event \<Rightarrow> message option" where
  "ended_message (MessageEnd m) = Some m"
| "ended_message _ = None"

definition ended_messages :: "agent_event list \<Rightarrow> transcript" where
  "ended_messages es = List.map_filter ended_message es"

fun is_agent_end :: "agent_event \<Rightarrow> bool" where
  "is_agent_end (AgentEnd _) = True"
| "is_agent_end _ = False"

fun is_reflex_event :: "agent_event \<Rightarrow> bool" where
  "is_reflex_event (ReflexEvent _ _ _) = True"
| "is_reflex_event _ = False"

fun is_turn_end :: "agent_event \<Rightarrow> bool" where
  "is_turn_end (TurnEnd _ _) = True"
| "is_turn_end _ = False"

definition reflex_turns :: "agent_event list \<Rightarrow> nat" where
  "reflex_turns es = length (filter is_reflex_event es)"

definition turns :: "agent_event list \<Rightarrow> nat" where
  "turns es = length (filter is_turn_end es)"

lemma log_simps [simp]:
  "ended_messages [] = []" "ended_messages (es @ fs) = ended_messages es @ ended_messages fs"
  "ended_messages [e] = (case ended_message e of None \<Rightarrow> [] | Some m \<Rightarrow> [m])"
  "reflex_turns [] = 0" "reflex_turns (es @ fs) = reflex_turns es + reflex_turns fs"
  "reflex_turns [e] = (if is_reflex_event e then 1 else 0)"
  "turns [] = 0" "turns (es @ fs) = turns es + turns fs" "turns [e] = (if is_turn_end e then 1 else 0)"
  by (simp_all add: ended_messages_def reflex_turns_def turns_def List.map_filter_def split: option.split)

text \<open>The events inside a turn.\<close>

fun inner_event :: "agent_event \<Rightarrow> bool" where
  "inner_event (AgentEnd _) = False"
| "inner_event (ReflexEvent _ _ _) = False"
| "inner_event (TurnEnd _ _) = False"
| "inner_event _ = True"

lemma inner_event_not [simp]:
  "inner_event e \<Longrightarrow> \<not> is_agent_end e" "inner_event e \<Longrightarrow> \<not> is_reflex_event e" "inner_event e \<Longrightarrow> \<not> is_turn_end e"
  by (cases e; simp)+

lemma inner_events [simp]:
  assumes "list_all inner_event es"
  shows "filter is_agent_end es = []" "reflex_turns es = 0" "turns es = 0"
  using assms by (induction es) (auto simp: reflex_turns_def turns_def)

text \<open>
  A step that changes nothing but the world and the log, to which it adds inner events that end the
  messages \<open>ms\<close>.
\<close>

definition adds :: "transcript \<Rightarrow> 'w run_state \<Rightarrow> 'w run_state \<Rightarrow> bool" where
  "adds ms s s' \<longleftrightarrow>
     s' = s\<lparr>rs_world := rs_world s', rs_log := rs_log s'\<rparr> \<and>
     (\<exists>es. rs_log s' = rs_log s @ es \<and> list_all inner_event es \<and> ended_messages es = ms)"

lemma adds_refl [simp, intro]: "adds [] s s"
  by (simp add: adds_def)

lemma adds_trans:
  assumes "adds ms s t" "adds ns t u"
  shows "adds (ms @ ns) s u"
proof -
  from assms obtain es fs where es: "rs_log t = rs_log s @ es" "list_all inner_event es" "ended_messages es = ms"
    "rs_log u = rs_log t @ fs" "list_all inner_event fs" "ended_messages fs = ns"
    by (auto simp: adds_def)
  have t: "t = s\<lparr>rs_world := rs_world t, rs_log := rs_log t\<rparr>" using assms(1) by (simp add: adds_def)
  have "u = t\<lparr>rs_world := rs_world u, rs_log := rs_log u\<rparr>" using assms(2) by (simp add: adds_def)
  also have "\<dots> = s\<lparr>rs_world := rs_world u, rs_log := rs_log u\<rparr>"
    using arg_cong [OF t, of "\<lambda>x. x\<lparr>rs_world := rs_world u, rs_log := rs_log u\<rparr>"] by simp
  finally show ?thesis using es unfolding adds_def by (intro conjI exI [of _ "es @ fs"]) simp_all
qed

lemma adds_quiet_trans: "adds [] s t \<Longrightarrow> adds ns t u \<Longrightarrow> adds ns s u"
  using adds_trans [of "[]" s t ns u] by simp

lemma adds_trans_quiet: "adds ms s t \<Longrightarrow> adds [] t u \<Longrightarrow> adds ms s u"
  using adds_trans [of ms s t "[]" u] by simp

lemma adds_world [simp]: "adds [] s (s\<lparr>rs_world := w\<rparr>)"
  by (simp add: adds_def)

lemma adds_emit:
  "inner_event e \<Longrightarrow> adds (case ended_message e of None \<Rightarrow> [] | Some m \<Rightarrow> [m]) s (emit h e s)"
  by (simp add: adds_def emit_def)

lemma adds_quiet_emit: "inner_event e \<Longrightarrow> ended_message e = None \<Longrightarrow> adds [] s (emit h e s)"
  using adds_emit [of e s h] by simp

lemma adds_await: "await h op s = (r, s') \<Longrightarrow> adds [] s s'"
  by (auto simp: await_def split: prod.splits)

lemma adds_fields:
  assumes "adds ms s s'"
  shows "rs_context s' = rs_context s" "rs_new s' = rs_new s" "rs_pending s' = rs_pending s"
    "rs_first s' = rs_first s" "rs_last s' = rs_last s" "rs_turn s' = rs_turn s"
    "rs_reflexes s' = rs_reflexes s" "rs_more s' = rs_more s" "rs_partial s' = rs_partial s"
proof -
  have e: "s' = s\<lparr>rs_world := rs_world s', rs_log := rs_log s'\<rparr>" using assms by (simp add: adds_def)
  show "rs_context s' = rs_context s" using arg_cong [OF e, of rs_context] by simp
  show "rs_new s' = rs_new s" using arg_cong [OF e, of rs_new] by simp
  show "rs_pending s' = rs_pending s" using arg_cong [OF e, of rs_pending] by simp
  show "rs_first s' = rs_first s" using arg_cong [OF e, of rs_first] by simp
  show "rs_last s' = rs_last s" using arg_cong [OF e, of rs_last] by simp
  show "rs_turn s' = rs_turn s" using arg_cong [OF e, of rs_turn] by simp
  show "rs_reflexes s' = rs_reflexes s" using arg_cong [OF e, of rs_reflexes] by simp
  show "rs_more s' = rs_more s" using arg_cong [OF e, of rs_more] by simp
  show "rs_partial s' = rs_partial s" using arg_cong [OF e, of rs_partial] by simp
qed

lemma adds_log:
  assumes "adds ms s s'"
  obtains es where "rs_log s' = rs_log s @ es" "list_all inner_event es" "ended_messages es = ms"
  using assms by (auto simp: adds_def)

lemma adds_emit_message: "adds [m] s (emit_message h m s)"
proof -
  have "adds [] s (emit h (MessageStart m) s)" using adds_emit [of "MessageStart m" s h] by simp
  moreover have "adds [m] (emit h (MessageStart m) s) (emit_message h m s)"
    using adds_emit [of "MessageEnd m"] by (simp add: emit_message_def)
  ultimately show ?thesis by (rule adds_quiet_trans)
qed

section \<open>A batch of tool calls\<close>

lemma adds_prepare: "prepare_tool_call h m c s = (p, s') \<Longrightarrow> adds [] s s'"
  by (auto simp: prepare_tool_call_def Let_def dest: adds_await
      split: option.splits sum.splits prod.splits outcome.splits bool.splits if_splits)

lemma adds_updates: "adds [] s (run_updates h c us s)"
proof (induction us arbitrary: s)
  case (Cons u us)
  obtain change report where u: "u = (change, report)" by fastforce
  let ?s = "s\<lparr>rs_world := change (rs_world s)\<rparr>"
  let ?e = "ToolUpdate (call_id c) (call_name c) (call_args c) report"
  have "adds [] s (if signal_raised h ?s then ?s else emit h ?e ?s)"
    using adds_quiet_trans [OF adds_world adds_emit [of ?e ?s h]] by simp
  from adds_quiet_trans [OF this Cons.IH] show ?case by (simp add: u Let_def)
qed simp

lemma adds_execute: "execute_prepared_tool_call h c t args s = (x, s') \<Longrightarrow> adds [] s s'"
  by (auto simp: execute_prepared_tool_call_def Let_def
      intro: adds_quiet_trans [OF adds_updates adds_await]
      split: if_splits prod.splits outcome.splits)

lemma finalize_facts:
  "finalize_executed_tool_call h m c args x s = (f, s') \<Longrightarrow> adds [] s s' \<and> fn_call f = c"
  by (auto simp: finalize_executed_tool_call_def Let_def dest: adds_await split: option.splits prod.splits outcome.splits)

lemma execute_and_finalize_facts:
  assumes "execute_and_finalize h m c t args s = (f, s')"
  shows "adds [] s s' \<and> fn_call f = c"
proof -
  obtain x s1 where x: "execute_prepared_tool_call h c t args s = (x, s1)" by fastforce
  with assms have "finalize_executed_tool_call h m c args x s1 = (f, s')" by (simp add: execute_and_finalize_def)
  from finalize_facts [OF this] adds_quiet_trans [OF adds_execute [OF x]] show ?thesis by blast
qed

lemma adds_start: "adds [] s (emit_tool_start h c s)"
  using adds_emit [of "ToolStart (call_id c) (call_name c) (call_args c)" s h] by (simp add: emit_tool_start_def)

lemma adds_end: "adds [] s (emit_tool_execution_end h f s)"
  using adds_emit [of "ToolEnd (call_id (fn_call f)) (call_name (fn_call f)) (fn_output f) (fn_error f)" s h]
  by (simp add: emit_tool_execution_end_def)

lemma sequential_call_facts:
  assumes "sequential_call h m c s = (f, s')"
  shows "adds [] s s' \<and> fn_call f = c"
proof -
  obtain p s1 where p: "prepare_tool_call h m c (emit_tool_start h c s) = (p, s1)" by fastforce
  from adds_quiet_trans [OF adds_start adds_prepare [OF p]] have "adds [] s s1" .
  with p assms show ?thesis
    by (auto simp: sequential_call_def split: preparation.splits dest!: execute_and_finalize_facts
        intro: adds_quiet_trans)
qed

text \<open>The result of a finalized call names the call.\<close>

definition answers :: "tool_result \<Rightarrow> tool_call \<Rightarrow> bool" where
  "answers r c \<longleftrightarrow> tr_call_id r = call_id c \<and> tr_tool r = call_name c"

lemma answers_result: "answers (create_tool_result_message h f s) (fn_call f)"
  by (simp add: answers_def create_tool_result_message_def)

lemma sequential_calls_facts:
  "sequential_calls h m cs s = (frs, s') \<Longrightarrow>
     adds (map (\<lambda>x. ToolResult (snd x)) frs) s s' \<and> list_all2 answers (map snd frs) (take (length frs) cs)
     \<and> (length frs = length cs \<or> length frs < length cs \<and> signal_raised h s')"
proof (induction cs arbitrary: s s' frs)
  case (Cons c cs)
  show ?case
  proof (cases "signal_raised h s")
    case False
    obtain f s1 where f: "sequential_call h m c s = (f, s1)" by fastforce
    let ?s2 = "emit_tool_execution_end h f s1"
    let ?r = "create_tool_result_message h f ?s2"
    let ?s3 = "emit_message h (ToolResult ?r) ?s2"
    obtain rest s4 where rest: "sequential_calls h m cs ?s3 = (rest, s4)" by fastforce
    with False f Cons.prems have e: "frs = (f, ?r) # rest" "s' = s4" by (simp_all add: Let_def)
    from sequential_call_facts [OF f] have c: "adds [] s s1" "fn_call f = c" by auto
    have "adds [ToolResult ?r] s ?s3"
      by (rule adds_quiet_trans [OF c(1) adds_quiet_trans [OF adds_end adds_emit_message]])
    with Cons.IH [OF rest] have "adds ([ToolResult ?r] @ map (\<lambda>x. ToolResult (snd x)) rest) s s4" using adds_trans by blast
    then show ?thesis using Cons.IH [OF rest] answers_result [of h f ?s2] c(2) by (simp add: e)
  qed (use Cons.prems in simp)
qed simp

fun entry_call :: "'w batch_entry \<Rightarrow> tool_call" where
  "entry_call (Ready f) = fn_call f"
| "entry_call (Waiting c _ _) = c"

lemma prepare_calls_facts:
  "prepare_calls h m cs s = (es, s') \<Longrightarrow> adds [] s s' \<and> map entry_call es = cs"
proof (induction cs arbitrary: s s' es)
  case (Cons c cs)
  obtain p s1 where p: "prepare_tool_call h m c (emit_tool_start h c s) = (p, s1)" by fastforce
  let ?x = "case (p, s1) of
      (Immediate out err, s') \<Rightarrow>
        let f = \<lparr>fn_call = c, fn_output = out, fn_error = err\<rparr> in (Ready f, emit_tool_execution_end h f s')
    | (Prepared t args, s') \<Rightarrow> (Waiting c t args, s')"
  from adds_quiet_trans [OF adds_start adds_prepare [OF p]] have "adds [] s s1" .
  then have x: "adds [] s (snd ?x) \<and> entry_call (fst ?x) = c"
    by (auto simp: Let_def split: preparation.splits intro: adds_quiet_trans adds_end)
  obtain rest s3 where rest: "prepare_calls h m cs (snd ?x) = (rest, s3)" by fastforce
  with p Cons.prems have "es = fst ?x # rest" "s' = s3" by (auto split: prod.splits)
  with x Cons.IH [OF rest] show ?case by (auto intro: adds_quiet_trans)
qed simp

lemma finish_entry_facts:
  assumes "finish_entry h m e s = (f, s')"
  shows "adds [] s s' \<and> fn_call f = entry_call e"
  using assms by (cases e) (auto simp: finish_entry_def split: prod.splits dest!: execute_and_finalize_facts
      intro: adds_quiet_trans adds_end)

lemma run_entries_facts:
  "run_entries h m es is found s = (found', s') \<Longrightarrow> distinct is \<Longrightarrow>
     adds [] s s' \<and> (\<forall>i. i \<notin> set is \<longrightarrow> found' i = found i)
     \<and> (\<forall>i\<in>set is. \<exists>f. found' i = Some f \<and> fn_call f = entry_call (es ! i))"
proof (induction h m es "is" found s arbitrary: found' s' rule: run_entries.induct)
  case (1 h m es "is" found s)
  show ?case
  proof (cases "is = []")
    case False
    let ?i = "picked h is s"
    obtain f s1 where f: "finish_entry h m (es ! ?i) s = (f, s1)" by fastforce
    with False "1.prems"(1) have rest: "run_entries h m es (remove1 ?i is) (found(?i \<mapsto> f)) s1 = (found', s')"
      by (simp add: run_entries.simps [of h m es "is" found s] Let_def)
    have d: "distinct (remove1 ?i is)" "set (remove1 ?i is) = set is - {?i}" "?i \<in> set is"
      using "1.prems"(2) False by auto
    from "1.IH" [OF False refl f [symmetric] rest d(1)] finish_entry_facts [OF f]
    show ?thesis unfolding d(2) using d(3) by (auto intro: adds_quiet_trans)
  qed (use "1.prems" in \<open>simp add: run_entries.simps\<close>)
qed

lemma emit_results_facts:
  "emit_results h fs s = (rs, s') \<Longrightarrow>
     adds (map ToolResult rs) s s' \<and> list_all2 answers rs (map fn_call fs)"
proof (induction fs arbitrary: s s' rs)
  case (Cons f fs)
  let ?r = "create_tool_result_message h f s"
  obtain rest s1 where rest: "emit_results h fs (emit_message h (ToolResult ?r) s) = (rest, s1)" by fastforce
  with Cons.prems have "rs = ?r # rest" "s' = s1" by (simp_all add: Let_def)
  with adds_trans [OF adds_emit_message] Cons.IH [OF rest] answers_result [of h f s] show ?case by fastforce
qed simp

lemma map_filter_total:
  assumes "\<And>i. i \<in> set is \<Longrightarrow> \<exists>y. f i = Some y \<and> g y = k i"
  shows "map g (List.map_filter f is) = map k is"
  using assms by (induction "is") (fastforce simp: List.map_filter_def)+

lemma parallel_facts:
  assumes "execute_tool_calls_parallel h m cs s = (rs, t, s')"
  shows "adds (map ToolResult rs) s s' \<and> list_all2 answers rs cs"
proof -
  obtain es s1 where es: "prepare_calls h m cs s = (es, s1)" by fastforce
  obtain found s2 where found: "run_entries h m es [0..<length es] (\<lambda>_. None) s1 = (found, s2)" by fastforce
  let ?fs = "List.map_filter found [0..<length es]"
  obtain qs s3 where qs: "emit_results h ?fs s2 = (qs, s3)" by fastforce
  with assms es found have e: "rs = qs" "s' = s3" by (simp_all add: execute_tool_calls_parallel_def Let_def)
  have a: "adds [] s s1" "map entry_call es = cs" using prepare_calls_facts [OF es] by auto
  have b: "adds [] s1 s2" "\<forall>i<length es. \<exists>f. found i = Some f \<and> fn_call f = entry_call (es ! i)"
    using run_entries_facts [OF found] by auto
  have "map fn_call ?fs = map (\<lambda>i. entry_call (es ! i)) [0..<length es]"
    by (rule map_filter_total) (use b(2) in simp)
  also have "\<dots> = map entry_call es" by (rule nth_equalityI) auto
  finally have "map fn_call ?fs = cs" using a(2) by simp
  with emit_results_facts [OF qs] adds_quiet_trans [OF a(1) adds_quiet_trans [OF b(1)]] show ?thesis by (simp add: e)
qed

lemma execute_tool_calls_facts:
  assumes "execute_tool_calls h m s = (rs, t, s')"
  shows "adds (map ToolResult rs) s s'"
    "list_all2 answers rs (take (length rs) (tool_calls (am_content m)))"
    "length rs = length (tool_calls (am_content m)) \<or>
     length rs < length (tool_calls (am_content m)) \<and> runs_sequentially h (tool_calls (am_content m)) \<and> signal_raised h s'"
proof -
  let ?cs = "tool_calls (am_content m)"
  have "adds (map ToolResult rs) s s' \<and> list_all2 answers rs (take (length rs) ?cs)
     \<and> (length rs = length ?cs \<or> length rs < length ?cs \<and> runs_sequentially h ?cs \<and> signal_raised h s')"
  proof (cases "runs_sequentially h ?cs")
    case True
    obtain frs s1 where f: "sequential_calls h m ?cs s = (frs, s1)" by fastforce
    with True assms have "rs = map snd frs" "s' = s1"
      by (simp_all add: execute_tool_calls_def execute_tool_calls_sequential_def Let_def)
    with sequential_calls_facts [OF f] True show ?thesis by (simp add: comp_def)
  next
    case False
    with assms have "execute_tool_calls_parallel h m ?cs s = (rs, t, s')" by (simp add: execute_tool_calls_def Let_def)
    from parallel_facts [OF this] have f: "adds (map ToolResult rs) s s'" "list_all2 answers rs ?cs" by auto
    from list_all2_lengthD [OF f(2)] f show ?thesis by simp
  qed
  then show "adds (map ToolResult rs) s s'" "list_all2 answers rs (take (length rs) ?cs)"
    "length rs = length ?cs \<or> length rs < length ?cs \<and> runs_sequentially h ?cs \<and> signal_raised h s'" by auto
qed

section \<open>The invariant of the machine\<close>

text \<open>
  A turn of the provider also changes the context and the partial message; \<open>streams\<close> is \<open>adds\<close> up to
  these two.
\<close>

definition streams :: "transcript \<Rightarrow> 'w run_state \<Rightarrow> 'w run_state \<Rightarrow> bool" where
  "streams ms s s' \<longleftrightarrow> adds ms (s\<lparr>rs_context := rs_context s', rs_partial := rs_partial s'\<rparr>) s'"

lemma adds_streams: "adds ms s s' \<Longrightarrow> streams ms s s'"
  using adds_fields [of ms s s'] by (simp add: streams_def)

lemma streams_locals [simp]:
  "streams [] s (s\<lparr>rs_context := c\<rparr>)" "streams [] s (s\<lparr>rs_partial := p\<rparr>)"
  "streams [] s (s\<lparr>rs_partial := p, rs_context := c\<rparr>)"
  by (simp_all add: streams_def) (simp_all add: adds_def)

lemma adds_overwrite:
  "adds ms s s' \<Longrightarrow> adds ms (s\<lparr>rs_context := c, rs_partial := p\<rparr>) (s'\<lparr>rs_context := c, rs_partial := p\<rparr>)"
  unfolding adds_def
  by (elim conjE, intro conjI, drule arg_cong [where f = "\<lambda>x. x\<lparr>rs_context := c, rs_partial := p\<rparr>"]) simp_all

lemma streams_trans:
  assumes "streams ms s t" "streams ns t u"
  shows "streams (ms @ ns) s u"
proof -
  let ?set = "\<lambda>x. x\<lparr>rs_context := rs_context u, rs_partial := rs_partial u\<rparr>"
  from adds_overwrite [OF assms(1) [unfolded streams_def], where c = "rs_context u" and p = "rs_partial u"]
  have "adds ms (?set s) (?set t)" by simp
  from adds_trans [OF this assms(2) [unfolded streams_def]] show ?thesis by (simp add: streams_def)
qed

lemma streams_quiet_trans: "streams [] s t \<Longrightarrow> streams ns t u \<Longrightarrow> streams ns s u"
  using streams_trans [of "[]" s t ns u] by simp

lemma adds_measures:
  assumes "adds ms s s'"
  shows "ended_messages (rs_log s') = ended_messages (rs_log s) @ ms"
    "filter is_agent_end (rs_log s') = filter is_agent_end (rs_log s)"
    "reflex_turns (rs_log s') = reflex_turns (rs_log s)" "turns (rs_log s') = turns (rs_log s)"
    "filter is_turn_end (rs_log s') = filter is_turn_end (rs_log s)"
proof -
  from assms obtain es where es: "rs_log s' = rs_log s @ es" "list_all inner_event es" "ended_messages es = ms"
    by (rule adds_log)
  have "filter is_turn_end es = []" using es(2) by (induction es) auto
  with es show "ended_messages (rs_log s') = ended_messages (rs_log s) @ ms"
    "filter is_agent_end (rs_log s') = filter is_agent_end (rs_log s)"
    "reflex_turns (rs_log s') = reflex_turns (rs_log s)" "turns (rs_log s') = turns (rs_log s)"
    "filter is_turn_end (rs_log s') = filter is_turn_end (rs_log s)" by simp_all
qed

lemma streams_measures:
  assumes "streams ms s s'"
  shows "ended_messages (rs_log s') = ended_messages (rs_log s) @ ms"
    "filter is_agent_end (rs_log s') = filter is_agent_end (rs_log s)"
    "reflex_turns (rs_log s') = reflex_turns (rs_log s)" "turns (rs_log s') = turns (rs_log s)"
    "filter is_turn_end (rs_log s') = filter is_turn_end (rs_log s)"
    "rs_new s' = rs_new s" "rs_reflexes s' = rs_reflexes s" "rs_pending s' = rs_pending s" "rs_more s' = rs_more s"
  using adds_measures [OF assms [unfolded streams_def]] adds_fields [OF assms [unfolded streams_def]] by simp_all

lemma streams_final: "streams [Assistant m] s (put_final_message h m s)"
proof -
  let ?e = "MessageEnd (Assistant m)"
  have e: "streams [Assistant m] t (emit h ?e t)" for t
    using adds_streams [OF adds_emit [of ?e t h]] by simp
  show ?thesis
  proof (cases "rs_partial s")
    case None
    let ?t = "s\<lparr>rs_context := rs_context s @ [Assistant m]\<rparr>"
    have "streams [] s (emit h (MessageStart (Assistant m)) ?t)"
      using adds_streams [OF adds_emit [of "MessageStart (Assistant m)" ?t h]]
      by (auto intro: streams_quiet_trans [OF streams_locals(1)])
    with e None show ?thesis by (auto simp: put_final_message_def intro: streams_quiet_trans)
  next
    case Some
    have "streams [] s (replace_last (Assistant m) s)" by (simp add: replace_last_def)
    with e Some show ?thesis by (auto simp: put_final_message_def intro: streams_quiet_trans)
  qed
qed

definition stream_adds :: "assistant_message outcome \<Rightarrow> 'w run_state \<Rightarrow> 'w run_state \<Rightarrow> bool" where
  "stream_adds r s s' \<longleftrightarrow> streams (case r of Value m \<Rightarrow> [Assistant m] | _ \<Rightarrow> []) s s'"

lemma stream_adds_simps [simp]:
  "stream_adds (Value m) s s' = streams [Assistant m] s s'"
  "stream_adds (Cancelled e) s s' = streams [] s s'" "stream_adds (Failure e) s s' = streams [] s s'"
  by (simp_all add: stream_adds_def)

lemma stream_adds_after: "streams [] s t \<Longrightarrow> stream_adds r t u \<Longrightarrow> stream_adds r s u"
  by (cases r) (auto intro: streams_quiet_trans)

lemma stream_adds_await:
  assumes "await h op s = (x, t)" "\<And>a. x = Value a \<Longrightarrow> stream_adds r t u"
    "\<And>e. x = Cancelled e \<Longrightarrow> (r, u) = (Cancelled e, t)" "\<And>e. x = Failure e \<Longrightarrow> (r, u) = (Failure e, t)"
  shows "stream_adds r s u"
proof -
  have q: "streams [] s t" using adds_streams [OF adds_await [OF assms(1)]] .
  show ?thesis using assms(2-) q by (cases x) (auto intro: stream_adds_after)
qed

lemma stream_loop_facts: "stream_loop h r ns s = (x, s') \<Longrightarrow> stream_adds x s s'"
proof (induction ns arbitrary: s)
  case Nil
  obtain y t where y: "await h (re_result r) s = (y, t)" by fastforce
  show ?case
    by (rule stream_adds_await [OF y]) (use Nil y in \<open>auto simp: and_then_def streams_final\<close>)
next
  case (Cons n ns)
  obtain y t where y: "await h n s = (y, t)" by fastforce
  show ?case
  proof (rule stream_adds_await [OF y])
    fix event assume v: "y = Value event"
    show "stream_adds x t s'"
    proof (cases event)
      case (StreamStart p)
      let ?t = "t\<lparr>rs_partial := Some p, rs_context := rs_context t @ [Assistant p]\<rparr>"
      have "streams [] t (emit h (MessageStart (Assistant p)) ?t)"
        by (rule streams_quiet_trans [OF streams_locals(3) adds_streams [OF adds_quiet_emit]]) simp_all
      with Cons StreamStart v y show ?thesis by (auto simp: and_then_def intro: stream_adds_after)
    next
      case (StreamUpdate p)
      let ?t = "replace_last (Assistant p) (t\<lparr>rs_partial := Some p\<rparr>)"
      have "streams [] t ?t" by (simp add: replace_last_def)
      then have "streams [] t (emit h (MessageUpdate (Assistant p)) ?t)"
        using adds_streams [OF adds_emit [of "MessageUpdate (Assistant p)" ?t h]] by (auto intro: streams_quiet_trans)
      moreover have "streams [] t t" by (rule adds_streams) simp
      ultimately show ?thesis
        using Cons StreamUpdate v y by (auto simp: and_then_def intro: stream_adds_after split: if_splits)
    next
      case (StreamFinal m)
      obtain z u where z: "await h (re_result r) t = (z, u)" by fastforce
      have q: "streams [] t u" using adds_streams [OF adds_await [OF z]] .
      from Cons.prems StreamFinal v y z q show ?thesis
        by (auto simp: and_then_def split: outcome.splits if_splits
            intro: streams_quiet_trans [OF q streams_final])
    qed
  qed (use Cons.prems y in \<open>auto simp: and_then_def\<close>)
qed

lemma adds_request: "request_llm h s = (x, s') \<Longrightarrow> adds [] s s'"
  by (auto simp: request_llm_def and_then_def split: if_splits outcome.splits prod.splits option.splits
      dest!: adds_await intro: adds_quiet_trans)

lemma stream_response_facts:
  assumes "stream_assistant_response h s = (x, s')"
  shows "stream_adds x s s'"
proof -
  obtain y t where y: "request_llm h (s\<lparr>rs_partial := None\<rparr>) = (y, t)" by fastforce
  have q: "streams [] s t"
    by (rule streams_quiet_trans [OF streams_locals(2) adds_streams [OF adds_request [OF y]]])
  obtain z u where z: "and_then (y, t) (\<lambda>r s'. stream_loop h r (re_next r) s') = (z, u)" by fastforce
  have su: "stream_adds z s u"
  proof (cases y)
    case (Value r)
    with z have "stream_loop h r (re_next r) t = (z, u)" by (simp add: and_then_def)
    from stream_adds_after [OF q stream_loop_facts [OF this]] show ?thesis .
  qed (use z q in \<open>auto simp: and_then_def\<close>)
  with assms y z show ?thesis
    by (cases z) (auto simp: stream_assistant_response_def Let_def split: if_splits
        intro: streams_quiet_trans [OF _ streams_final])
qed

text \<open>
  In a run that goes on, the messages that ended are the new messages, which begin with the prompts;
  no end of the run was reported; reflex turns are at most \<open>max\<close> for each other turn and \<open>rs_reflexes\<close>
  more; and every call of a turn that ended is answered.
\<close>

definition log_inv :: "transcript \<Rightarrow> 'w run_state \<Rightarrow> bool" where
  "log_inv prompts s \<longleftrightarrow>
     ended_messages (rs_log s) = rs_new s \<and> filter is_agent_end (rs_log s) = []
     \<and> (\<exists>ms. rs_new s = prompts @ ms)"

definition count_inv :: "'w host \<Rightarrow> 'w run_state \<Rightarrow> bool" where
  "count_inv h s \<longleftrightarrow>
     rs_reflexes s \<le> max_reflexes h
     \<and> Suc (max_reflexes h) * reflex_turns (rs_log s) \<le> max_reflexes h * turns (rs_log s) + rs_reflexes s"

definition answered_inv :: "'w run_state \<Rightarrow> bool" where
  "answered_inv s \<longleftrightarrow>
     list_all (\<lambda>e. case e of TurnEnd m rs \<Rightarrow> list_all2 answers rs (tool_calls (am_content m)) | _ \<Rightarrow> True)
       (filter is_turn_end (rs_log s))"

definition ended_inv :: "'w host \<Rightarrow> transcript \<Rightarrow> 'w run_state \<Rightarrow> bool" where
  "ended_inv h prompts s \<longleftrightarrow> log_inv prompts s \<and> count_inv h s"

definition run_inv :: "'w host \<Rightarrow> transcript \<Rightarrow> 'w run_state \<Rightarrow> bool" where
  "run_inv h prompts s \<longleftrightarrow> ended_inv h prompts s \<and> answered_inv s"

fun machine_inv :: "'w host \<Rightarrow> transcript \<Rightarrow> 'w machine \<Rightarrow> bool" where
  "machine_inv h prompts (Finished None, s) \<longleftrightarrow>
     (\<exists>t. ended_inv h prompts t \<and> s = emit h (AgentEnd (rs_new t)) t)"
| "machine_inv h prompts (p, s) \<longleftrightarrow> run_inv h prompts s"

lemmas invs = log_inv_def count_inv_def answered_inv_def ended_inv_def run_inv_def

lemma inv_locals [simp]:
  "run_inv h prompts (s\<lparr>rs_pending := ms\<rparr>) = run_inv h prompts s"
  "run_inv h prompts (s\<lparr>rs_more := b\<rparr>) = run_inv h prompts s"
  "run_inv h prompts (s\<lparr>rs_first := b\<rparr>) = run_inv h prompts s"
  "run_inv h prompts (s\<lparr>rs_last := l\<rparr>) = run_inv h prompts s"
  "run_inv h prompts (s\<lparr>rs_turn := n\<rparr>) = run_inv h prompts s"
  "run_inv h prompts (s\<lparr>rs_world := w\<rparr>) = run_inv h prompts s"
  "ended_inv h prompts (s\<lparr>rs_turn := n\<rparr>) = ended_inv h prompts s"
  by (simp_all add: invs)

lemma inv_streams:
  assumes "streams ms s s'" "run_inv h prompts s"
  shows "run_inv h prompts (s'\<lparr>rs_new := rs_new s' @ ms\<rparr>)"
  using assms(2) streams_measures [OF assms(1)] by (auto simp: invs)

lemma inv_quiet: "adds [] s s' \<Longrightarrow> run_inv h prompts s \<Longrightarrow> run_inv h prompts s'"
  using inv_streams [OF adds_streams, of "[]" s s' h prompts] by simp

lemma inv_await: "await h op s = (x, s') \<Longrightarrow> run_inv h prompts s \<Longrightarrow> run_inv h prompts s'"
  by (rule inv_quiet [OF adds_await])

lemma inv_finish: "ended_inv h prompts s \<Longrightarrow> machine_inv h prompts (finish_run h s)"
  by (auto simp: finish_run_def)

lemma inv_ended: "run_inv h prompts s \<Longrightarrow> ended_inv h prompts s"
  by (simp add: run_inv_def)

lemma inv_settle:
  assumes "run_inv h prompts s" "\<And>v. x = Value v \<Longrightarrow> machine_inv h prompts (continue v s)"
  shows "machine_inv h prompts (settle_post_turn h (x, s) continue)"
  using assms by (cases x) (simp_all add: settle_post_turn_def inv_finish inv_ended)

lemma inv_poll: "poll_messages_unless_aborted h p s = (x, s') \<Longrightarrow> run_inv h prompts s \<Longrightarrow> run_inv h prompts s'"
  by (auto simp: poll_messages_unless_aborted_def inv_await split: option.splits if_splits)

lemma inv_start_turn: "run_inv h prompts s \<Longrightarrow> run_inv h prompts (start_turn h s)"
  using inv_quiet [OF adds_quiet_emit [of TurnStart s h]] by (simp add: start_turn_def)

lemma inv_inject: "run_inv h prompts s \<Longrightarrow> run_inv h prompts (inject h m s)"
  using inv_streams [OF adds_streams [OF adds_emit_message [of m s h]], of h prompts]
  by (simp add: inject_def record_message_def invs)

lemma inv_inject_pending: "run_inv h prompts s \<Longrightarrow> run_inv h prompts (inject_pending h s)"
proof -
  have "run_inv h prompts s \<Longrightarrow> run_inv h prompts (fold (inject h) ms s)" for ms
    by (induction ms arbitrary: s) (simp_all add: inv_inject)
  then show "run_inv h prompts s \<Longrightarrow> run_inv h prompts (inject_pending h s)" by (simp add: inject_pending_def)
qed

section \<open>The steps keep the invariant\<close>

lemma record_results_eq:
  "record_results rs s = s\<lparr>rs_context := rs_context s @ map ToolResult rs, rs_new := rs_new s @ map ToolResult rs\<rparr>"
  by (induction rs arbitrary: s) (simp_all add: record_results_def record_message_def)

lemma count_arith:
  "r < mx \<Longrightarrow> Suc mx * a \<le> mx * b + r \<Longrightarrow> Suc mx * Suc a \<le> mx * Suc b + Suc r"
  "r \<le> mx \<Longrightarrow> Suc mx * a \<le> mx * b + r \<Longrightarrow> Suc mx * a \<le> mx * Suc b"
  for mx a b r :: nat
  by simp_all

lemma batch_answered:
  assumes "execute_tool_calls h m s = (rs, t, s')" "\<not> signal_raised h s'"
  shows "list_all2 answers rs (tool_calls (am_content m))"
  using execute_tool_calls_facts(2,3) [OF assms(1)] assms(2) by auto

lemma signal_fields:
  "signal_raised h (s\<lparr>rs_turn := n\<rparr>) = signal_raised h s" "signal_raised h (s\<lparr>rs_new := ms\<rparr>) = signal_raised h s"
  "signal_raised h (s\<lparr>rs_context := ms\<rparr>) = signal_raised h s" "signal_raised h (s\<lparr>rs_more := b\<rparr>) = signal_raised h s"
  by (simp_all add: signal_raised_def)

text \<open>
  A turn that ends after a batch of calls. Unless the signal was raised during the batch or by a
  listener of the last event, all its calls are answered, so the invariant needs the signal to stay
  raised once it is.
\<close>

definition signal_stays :: "'w host \<Rightarrow> bool" where
  "signal_stays h \<longleftrightarrow> (\<forall>e w. ho_aborted h w \<longrightarrow> ho_aborted h (ho_emit h e w))"

lemma emit_fields [simp]:
  "rs_context (emit h e s) = rs_context s" "rs_new (emit h e s) = rs_new s" "rs_reflexes (emit h e s) = rs_reflexes s"
  "rs_turn (emit h e s) = rs_turn s" "rs_log (emit h e s) = rs_log s @ [e]" "rs_pending (emit h e s) = rs_pending s"
  "rs_first (emit h e s) = rs_first s" "rs_more (emit h e s) = rs_more s" "rs_last (emit h e s) = rs_last s"
  by (simp_all add: emit_def)

lemma emit_update [simp]:
  "emit h e (s\<lparr>rs_new := ms\<rparr>) = (emit h e s)\<lparr>rs_new := ms\<rparr>" "emit h e (s\<lparr>rs_context := ms\<rparr>) = (emit h e s)\<lparr>rs_context := ms\<rparr>"
  "emit h e (s\<lparr>rs_more := b\<rparr>) = (emit h e s)\<lparr>rs_more := b\<rparr>" "emit h e (s\<lparr>rs_first := b\<rparr>) = (emit h e s)\<lparr>rs_first := b\<rparr>"
  by (simp_all add: emit_def)

lemma start_turn_adds:
  "\<exists>t. start_turn h s = t\<lparr>rs_first := False\<rparr> \<and> adds [] s t"
proof (cases "rs_first s")
  case False
  then have "emit h TurnStart s = (emit h TurnStart s)\<lparr>rs_first := False\<rparr>" by (simp add: emit_def)
  moreover have "adds [] s (emit h TurnStart s)" by (rule adds_quiet_emit) simp_all
  ultimately show ?thesis using False by (metis start_turn_def)
qed (auto simp: start_turn_def)

lemma raised_after_turn_end:
  assumes "signal_stays h" "signal_raised h s"
  shows "signal_raised h (emit h e (record_results rs s))"
  using assms by (simp add: signal_stays_def signal_raised_def emit_def record_results_eq)

lemma start_turn_measures:
  "ended_messages (rs_log (start_turn h s)) = ended_messages (rs_log s)"
  "filter is_agent_end (rs_log (start_turn h s)) = filter is_agent_end (rs_log s)"
  "reflex_turns (rs_log (start_turn h s)) = reflex_turns (rs_log s)" "turns (rs_log (start_turn h s)) = turns (rs_log s)"
  "filter is_turn_end (rs_log (start_turn h s)) = filter is_turn_end (rs_log s)"
  "rs_new (start_turn h s) = rs_new s" "rs_reflexes (start_turn h s) = rs_reflexes s"
  by (simp_all add: start_turn_def)

lemma if_either: "(c \<Longrightarrow> P x) \<Longrightarrow> (\<not> c \<Longrightarrow> P y) \<Longrightarrow> P (if c then x else y)"
  by simp

lemma inv_reflex_turn:
  assumes "run_inv h prompts s" "rs_reflexes s < max_reflexes h" "signal_stays h"
  shows "machine_inv h prompts (reflex_turn h r s)"
proof -
  let ?s1 = "s\<lparr>rs_reflexes := rs_reflexes s + 1\<rparr>"
  let ?s2 = "start_turn h (emit h (ReflexEvent (rx_tool r) (rs_turn ?s1) (rs_reflexes ?s1)) ?s1)"
  let ?m = "create_reflex_assistant_message h r ?s2"
  let ?s3 = "record_message (Assistant ?m) (emit_message h (Assistant ?m) ?s2)"
  obtain rs terminate s4 where b: "execute_tool_calls h ?m ?s3 = (rs, terminate, s4)" by (metis prod_cases3)
  note a = execute_tool_calls_facts(1) [OF b]
  note e = adds_emit_message [of "Assistant ?m" ?s2 h]
  let ?s5 = "emit h (TurnEnd ?m rs) (record_results rs s4)"
  let ?s6 = "?s5\<lparr>rs_turn := rs_turn ?s5 + 1\<rparr>"
  have ended: "ended_inv h prompts ?s6"
    using assms(1,2) adds_measures [OF a] adds_measures [OF e] adds_fields [OF a] adds_fields [OF e]
    by (auto simp: invs record_results_eq record_message_def start_turn_measures count_arith)
  have answered: "answered_inv ?s6" if "\<not> signal_raised h ?s6"
  proof -
    have "\<not> signal_raised h s4"
      using raised_after_turn_end [OF assms(3), of s4 "TurnEnd ?m rs" rs] that by (auto simp: signal_fields)
    from batch_answered [OF b this] show ?thesis
      using assms(1) adds_measures(5) [OF a] adds_measures(5) [OF e]
      by (simp add: invs record_results_eq record_message_def start_turn_measures)
  qed
  have run: "run_inv h prompts (?s6\<lparr>rs_more := \<not> terminate\<rparr>)" if "\<not> signal_raised h ?s6"
    unfolding inv_locals(2) unfolding run_inv_def using ended answered [OF that] by (rule conjI)
  have e: "reflex_turn h r s =
      (if signal_raised h ?s6 then finish_run h ?s6 else (TurnTop, ?s6\<lparr>rs_more := \<not> terminate\<rparr>))"
    using b by (simp only: reflex_turn_def Let_def prod.case)
  show ?thesis unfolding e
  proof (rule if_either)
    show "machine_inv h prompts (finish_run h ?s6)" by (rule inv_finish [OF ended])
    show "machine_inv h prompts (TurnTop, ?s6\<lparr>rs_more := \<not> terminate\<rparr>)" if "\<not> signal_raised h ?s6"
      unfolding machine_inv.simps by (rule run [OF that])
  qed
qed

lemma inv_after_turn:
  assumes "run_inv h prompts s"
  shows "machine_inv h prompts (after_turn h m rs s)"
proof -
  let ?op = "case ho_stop_after h of None \<Rightarrow> (\<lambda>w. (Value False, w)) | Some f \<Rightarrow> f m rs (rs_context s) (rs_new s)"
  obtain x s1 where x: "await h ?op s = (x, s1)" by fastforce
  have s1: "run_inv h prompts s1" by (rule inv_await [OF x assms])
  obtain y s2 where y: "poll_messages_unless_aborted h (ho_steering h) s1 = (y, s2)" by fastforce
  have s2: "run_inv h prompts s2" by (rule inv_poll [OF y s1])
  have "machine_inv h prompts
      (settle_post_turn h (y, s2) (\<lambda>ms s2.
         let s3 = s2\<lparr>rs_pending := ms\<rparr> in
         if ms = [] \<and> should_stop_before_turn h s3 then finish_run h s3 else (TurnTop, s3)))"
    by (rule inv_settle [OF s2]) (use s2 in \<open>simp add: Let_def inv_finish inv_ended\<close>)
  then have "machine_inv h prompts
      (if stop \<or> should_stop_before_turn h s1 then finish_run h s1
       else settle_post_turn h (poll_messages_unless_aborted h (ho_steering h) s1) (\<lambda>ms s2.
         let s3 = s2\<lparr>rs_pending := ms\<rparr> in
         if ms = [] \<and> should_stop_before_turn h s3 then finish_run h s3 else (TurnTop, s3)))" for stop
    using s1 y by (simp add: inv_finish inv_ended)
  then show ?thesis unfolding after_turn_def x by (rule inv_settle [OF s1])
qed

text \<open>The turn of an assistant message the provider gave, whose events are in the log already.\<close>

lemma inv_answer_turn:
  assumes "streams [Assistant m] t s" "run_inv h prompts t" "signal_stays h"
  shows "machine_inv h prompts (answer_turn h m s)"
proof -
  let ?s = "s\<lparr>rs_reflexes := 0, rs_turn := rs_turn s + 1, rs_new := rs_new s @ [Assistant m]\<rparr>"
  note q = streams_measures [OF assms(1)]
  have failed: "ended_inv h prompts (emit h (TurnEnd m []) ?s)"
    using assms(2) q by (auto simp: invs count_arith)
  obtain rs terminate s1 where b:
    "(if tool_calls (am_content m) = [] then ([], True, ?s) else execute_tool_calls h m ?s) = (rs, terminate, s1)"
    by (metis prod_cases3)
  have a: "adds (map ToolResult rs) ?s s1"
    using b execute_tool_calls_facts(1) [of h m ?s rs terminate s1] by (auto split: if_splits)
  let ?s2 = "emit h (TurnEnd m rs) (record_results rs (s1\<lparr>rs_more := \<not> terminate\<rparr>))"
  have ended: "ended_inv h prompts ?s2"
    using assms(2) q adds_measures [OF a] adds_fields [OF a] by (auto simp: invs record_results_eq count_arith)
  have run: "run_inv h prompts (?s2\<lparr>rs_last := Some (m, rs)\<rparr>)" if "\<not> signal_raised h ?s2"
  proof -
    have "\<not> signal_raised h s1"
      using raised_after_turn_end [OF assms(3), of "s1\<lparr>rs_more := \<not> terminate\<rparr>" "TurnEnd m rs" rs] that
      by (auto simp: signal_fields)
    with b have "list_all2 answers rs (tool_calls (am_content m))"
      using batch_answered [of h m ?s rs terminate s1] by (auto split: if_splits)
    then have "answered_inv ?s2"
      using assms(2) q adds_measures(5) [OF a] by (simp add: invs record_results_eq)
    with ended show ?thesis unfolding inv_locals(4) by (simp only: run_inv_def)
  qed
  have "answer_turn h m s =
      (if am_stop m = ErrorStop \<or> am_stop m = Aborted then finish_run h (emit h (TurnEnd m []) ?s)
       else if signal_raised h ?s2 then finish_run h ?s2
       else after_turn h m rs (?s2\<lparr>rs_last := Some (m, rs)\<rparr>))"
    using b by (simp only: answer_turn_def Let_def prod.case)
  with inv_finish [OF failed] inv_finish [OF ended] inv_after_turn [OF run] show ?thesis by presburger
qed

lemma inv_provider_turn:
  assumes "run_inv h prompts s" "signal_stays h"
  shows "machine_inv h prompts (provider_turn h s)"
proof -
  let ?t = "inject_pending h (start_turn h s)"
  have t: "run_inv h prompts ?t" by (rule inv_inject_pending [OF inv_start_turn [OF assms(1)]])
  obtain x u where x: "stream_assistant_response h ?t = (x, u)" by fastforce
  note a = stream_response_facts [OF x]
  show ?thesis
  proof (cases x)
    case (Value m)
    with a have "streams [Assistant m] ?t u" by simp
    from inv_answer_turn [OF this t assms(2)] Value x show ?thesis by (simp add: provider_turn_def)
  next
    case (Cancelled e)
    with a have "streams [] ?t u" by simp
    from inv_streams [OF this t] Cancelled x show ?thesis by (simp add: provider_turn_def)
  next
    case (Failure e)
    with a have "streams [] ?t u" by simp
    from inv_streams [OF this t] Failure x show ?thesis by (simp add: provider_turn_def)
  qed
qed

lemma next_reflex_facts:
  assumes "next_reflex h s = (r, t)"
  shows "adds [] s t" "r \<noteq> None \<Longrightarrow> rs_reflexes t < max_reflexes h"
proof -
  show a: "adds [] s t"
    using assms by (auto simp: next_reflex_def resolve_pre_turn_reflex_def dest: adds_await
        split: if_splits option.splits prod.splits outcome.splits)
  show "r \<noteq> None \<Longrightarrow> rs_reflexes t < max_reflexes h"
    using assms adds_fields(7) [OF a] by (auto simp: next_reflex_def split: if_splits)
qed

lemma inv_turn_top:
  assumes "run_inv h prompts s" "signal_stays h"
  shows "machine_inv h prompts (turn_top h s)"
proof -
  obtain r t where r: "next_reflex h s = (r, t)" by fastforce
  have t: "run_inv h prompts t" by (rule inv_quiet [OF next_reflex_facts(1) [OF r] assms(1)])
  show ?thesis
    using assms r inv_provider_turn [OF t assms(2)] inv_reflex_turn [OF t _ assms(2)] next_reflex_facts(2) [OF r]
    by (cases r) (simp_all add: turn_top_def)
qed

lemma inv_between:
  assumes "run_inv h prompts s"
  shows "machine_inv h prompts (between_turns h s)"
proof -
  obtain x s1 where x: "poll_messages_unless_aborted h (ho_follow_up h) s = (x, s1)" by fastforce
  have s1: "run_inv h prompts s1" by (rule inv_poll [OF x assms])
  let ?last = "\<lambda>s. case rs_last s of None \<Rightarrow> (Value [], s)
      | Some (m, rs) \<Rightarrow>
          await h (case ho_continuation h of None \<Rightarrow> (\<lambda>w. (Value [], w)) | Some f \<Rightarrow> f m rs (rs_context s) (rs_new s)) s"
  let ?on = "\<lambda>ms s. if ms \<noteq> [] then (LoopTop, s\<lparr>rs_pending := ms\<rparr>) else finish_run h s"
  obtain y s2 where y: "?last s1 = (y, s2)" by fastforce
  have s2: "run_inv h prompts s2" using y s1 by (auto dest: inv_await split: option.splits prod.splits)
  have "machine_inv h prompts (settle_post_turn h (?last s1) ?on)"
    unfolding y by (rule inv_settle [OF s2]) (use s2 in \<open>simp add: inv_finish inv_ended\<close>)
  then have "machine_inv h prompts
      (settle_post_turn h (x, s1) (\<lambda>ms s. if ms \<noteq> [] then (LoopTop, s\<lparr>rs_pending := ms\<rparr>)
         else if should_stop_before_turn h s then finish_run h s else settle_post_turn h (?last s) ?on))"
    by (intro inv_settle [OF s1]) (use s1 in \<open>simp add: inv_finish inv_ended\<close>)
  with assms show ?thesis by (simp add: between_turns_def x inv_finish inv_ended)
qed

lemma inv_step:
  assumes "machine_inv h prompts x" "signal_stays h"
  shows "machine_inv h prompts (loop_step h x)"
proof (cases x)
  case (Pair p s)
  show ?thesis
  proof (cases p)
    case (Finished e)
    with assms(1) Pair show ?thesis by simp
  qed (use assms inv_turn_top inv_between Pair in auto)
qed

section \<open>Runs\<close>

text \<open>The states a run goes through.\<close>

inductive loop_reachable :: "'w host \<Rightarrow> transcript \<Rightarrow> transcript \<Rightarrow> 'w \<Rightarrow> 'w machine \<Rightarrow> bool"
  for h :: "'w host" and prompts :: transcript and base :: transcript and w :: "'w" where
  reach_start: "poll_messages_unless_aborted h (ho_steering h) (start_run h prompts base w) = (Value ms, s) \<Longrightarrow>
     loop_reachable h prompts base w (LoopTop, s\<lparr>rs_pending := ms\<rparr>)"
| reach_step: "loop_reachable h prompts base w x \<Longrightarrow> loop_reachable h prompts base w (loop_step h x)"

lemma start_run_inv: "run_inv h prompts (start_run h prompts base w)"
proof -
  have prompts: "adds ms s (fold (emit_message h) ms s)" for ms and s :: "'a run_state"
  proof (induction ms arbitrary: s)
    case (Cons m ms)
    from adds_trans [OF adds_emit_message Cons.IH] show ?case by simp
  qed simp
  let ?s = "(fresh_run (base @ prompts) w)\<lparr>rs_new := prompts\<rparr>"
  let ?t = "emit h TurnStart (emit h AgentStart ?s)"
  have t: "adds [] ?s ?t" by (rule adds_quiet_trans [OF adds_quiet_emit adds_quiet_emit]) simp_all
  from adds_quiet_trans [OF t prompts [of prompts ?t]]
  have a: "adds prompts ?s (start_run h prompts base w)" by (simp add: start_run_def Let_def)
  have l: "rs_log ?s = []" "rs_new ?s = prompts" "rs_reflexes ?s = 0" by (simp_all add: fresh_run_def)
  show ?thesis
    using adds_measures [OF a] adds_fields(2,7) [OF a] unfolding l by (simp add: invs)
qed

lemma reachable_inv:
  assumes "loop_reachable h prompts base w x" "signal_stays h"
  shows "machine_inv h prompts x"
  using assms(1)
proof induction
  case (reach_start ms s)
  from inv_poll [OF this start_run_inv] show ?case by simp
next
  case (reach_step x)
  show ?case by (rule inv_step [OF reach_step.IH assms(2)])
qed

lemma run_reachable:
  assumes "run_agent_loop h prompts base w = Some (p, s)"
  shows "loop_reachable h prompts base w (p, s) \<or> (\<exists>e. p = Finished (Some e)) \<and> run_inv h prompts s"
proof -
  obtain x t where x: "poll_messages_unless_aborted h (ho_steering h) (start_run h prompts base w) = (x, t)" by fastforce
  have t: "run_inv h prompts t" by (rule inv_poll [OF x start_run_inv])
  show ?thesis
  proof (cases x)
    case (Value ms)
    with assms x have w: "while_option running (loop_step h) (LoopTop, t\<lparr>rs_pending := ms\<rparr>) = Some (p, s)"
      by (simp add: run_agent_loop_def run_loop_def)
    from Value x have start: "loop_reachable h prompts base w (LoopTop, t\<lparr>rs_pending := ms\<rparr>)"
      by (auto intro: reach_start)
    have "loop_reachable h prompts base w (p, s)"
      by (rule while_option_rule [where P = "loop_reachable h prompts base w", OF _ w start]) (erule reach_step)
    then show ?thesis ..
  qed (use assms x t in \<open>auto simp: run_agent_loop_def run_loop_def\<close>)
qed

lemma run_machine_inv:
  assumes "run_agent_loop h prompts base w = Some (p, s)" "signal_stays h"
  shows "machine_inv h prompts (p, s)"
  using run_reachable [OF assms(1)] reachable_inv [OF _ assms(2)] by auto

section \<open>Reflex turns and the hooks\<close>

text \<open>A host with other stop hooks and another steering queue.\<close>

definition rehooked ::
  "'w host \<Rightarrow> 'w host \<Rightarrow> 'w host" where
  "rehooked g h = h\<lparr>ho_stop_after := ho_stop_after g, ho_stop_before := ho_stop_before g, ho_steering := ho_steering g\<rparr>"

lemma rehooked_host [simp]:
  "ho_aborted (rehooked g h) = ho_aborted h" "ho_emit (rehooked g h) = ho_emit h" "ho_now (rehooked g h) = ho_now h"
  "ho_uuid (rehooked g h) = ho_uuid h" "ho_pick (rehooked g h) = ho_pick h" "ho_model (rehooked g h) = ho_model h"
  "ho_tools (rehooked g h) = ho_tools h" "ho_sequential (rehooked g h) = ho_sequential h"
  "ho_validate (rehooked g h) = ho_validate h" "ho_before (rehooked g h) = ho_before h" "ho_after (rehooked g h) = ho_after h"
  by (simp_all add: rehooked_def)

lemma rehooked_basics [simp]:
  "emit (rehooked g h) = emit h" "signal_raised (rehooked g h) = signal_raised h" "await (rehooked g h) = await h"
  "emit_message (rehooked g h) = emit_message h" "find_tool (rehooked g h) = find_tool h"
  "create_tool_result_message (rehooked g h) = create_tool_result_message h" "picked (rehooked g h) = picked h"
  "emit_tool_start (rehooked g h) = emit_tool_start h" "emit_tool_execution_end (rehooked g h) = emit_tool_execution_end h"
  "start_turn (rehooked g h) = start_turn h" "runs_sequentially (rehooked g h) = runs_sequentially h"
  "create_reflex_assistant_message (rehooked g h) = create_reflex_assistant_message h"
  "finish_run (rehooked g h) = finish_run h"
  by (simp_all add: fun_eq_iff emit_def signal_raised_def await_def emit_message_def find_tool_def start_turn_def
      create_tool_result_message_def picked_def emit_tool_start_def emit_tool_execution_end_def runs_sequentially_def
      create_reflex_assistant_message_def finish_run_def)

lemma rehooked_call:
  "prepare_tool_call (rehooked g h) = prepare_tool_call h"
  "finalize_executed_tool_call (rehooked g h) = finalize_executed_tool_call h"
  unfolding prepare_tool_call_def finalize_executed_tool_call_def rehooked_host rehooked_basics by (rule refl)+

lemma rehooked_updates: "run_updates (rehooked g h) = run_updates h"
proof (intro ext)
  show "run_updates (rehooked g h) c us s = run_updates h c us s" for c us s
    by (induction us arbitrary: s) (auto simp: Let_def)
qed

lemma rehooked_execute:
  "execute_prepared_tool_call (rehooked g h) = execute_prepared_tool_call h"
  unfolding execute_prepared_tool_call_def rehooked_basics rehooked_updates by (rule refl)

lemma rehooked_execute_and_finalize: "execute_and_finalize (rehooked g h) = execute_and_finalize h"
  unfolding execute_and_finalize_def rehooked_execute rehooked_call by (rule refl)

lemma rehooked_entry:
  "sequential_call (rehooked g h) = sequential_call h" "finish_entry (rehooked g h) = finish_entry h"
  unfolding sequential_call_def finish_entry_def rehooked_basics rehooked_call rehooked_execute_and_finalize
  by (rule refl)+

lemma rehooked_loops [simp]:
  "sequential_calls (rehooked g h) m cs s = sequential_calls h m cs s"
  "prepare_calls (rehooked g h) m cs s = prepare_calls h m cs s"
  "emit_results (rehooked g h) fs s = emit_results h fs s"
proof -
  show "sequential_calls (rehooked g h) m cs s = sequential_calls h m cs s"
    by (induction cs arbitrary: s) (simp_all add: rehooked_entry Let_def split: prod.split)
  show "prepare_calls (rehooked g h) m cs s = prepare_calls h m cs s"
    by (induction cs arbitrary: s) (simp_all add: rehooked_call Let_def split: prod.split preparation.split)
  show "emit_results (rehooked g h) fs s = emit_results h fs s"
    by (induction fs arbitrary: s) (simp_all add: Let_def)
qed

lemma rehooked_entries [simp]: "run_entries (rehooked g h) m es is found s = run_entries h m es is found s"
proof (induction h m es "is" found s rule: run_entries.induct)
  case (1 h m es "is" found s)
  show ?case
  proof (cases "is = []")
    case False
    obtain f t where f: "finish_entry h m (es ! picked h is s) s = (f, t)" by fastforce
    from "1.IH" [OF False refl f [symmetric]] f False show ?thesis
      by (subst (1 2) run_entries.simps) (simp only: Let_def rehooked_entry rehooked_basics if_False prod.case)
  qed (simp add: run_entries.simps)
qed

lemma rehooked_batch [simp]: "execute_tool_calls (rehooked g h) = execute_tool_calls h"
  by (simp add: fun_eq_iff execute_tool_calls_def execute_tool_calls_sequential_def execute_tool_calls_parallel_def
      Let_def split: prod.split)

section \<open>Termination\<close>

text \<open>A source of messages that has none.\<close>

definition no_messages :: "('w, transcript) operation \<Rightarrow> bool" where
  "no_messages f \<longleftrightarrow> (\<forall>w ms. fst (f w) = Value ms \<longrightarrow> ms = [])"

definition quiet_queues :: "'w host \<Rightarrow> bool" where
  "quiet_queues h \<longleftrightarrow>
     (\<forall>f. ho_steering h = Some f \<longrightarrow> no_messages f) \<and> (\<forall>f. ho_follow_up h = Some f \<longrightarrow> no_messages f)
     \<and> (\<forall>f m rs c n. ho_continuation h = Some f \<longrightarrow> no_messages (f m rs c n))"

definition model_answers :: "'w host \<Rightarrow> bool" where
  "model_answers h \<longleftrightarrow>
     (\<forall>s m s'. stream_assistant_response h s = (Value m, s') \<longrightarrow> tool_calls (am_content m) = [])"

text \<open>The machine goes down in rank: a reflex turn uses up one of the reflexes left.\<close>

fun rank :: "'w host \<Rightarrow> 'w machine \<Rightarrow> nat" where
  "rank h (LoopTop, s) = max_reflexes h + 4"
| "rank h (TurnTop, s) =
     (if rs_more s \<or> rs_pending s \<noteq> [] then 3 + (max_reflexes h - rs_reflexes s) else 2)"
| "rank h (Between, s) = 1"
| "rank h (Finished e, s) = 0"

definition lower :: "'w host \<Rightarrow> nat \<Rightarrow> 'w machine \<Rightarrow> bool" where
  "lower h n x \<longleftrightarrow> rs_reflexes (snd x) \<le> max_reflexes h \<and> rank h x < n"

lemma lower_finished: "rs_reflexes s \<le> max_reflexes h \<Longrightarrow> 0 < n \<Longrightarrow> lower h n (Finished e, s)"
  by (simp add: lower_def)

lemma lower_finish: "rs_reflexes s \<le> max_reflexes h \<Longrightarrow> 0 < n \<Longrightarrow> lower h n (finish_run h s)"
  by (simp add: lower_def finish_run_def)

lemma lower_settle:
  assumes "rs_reflexes s \<le> max_reflexes h" "0 < n" "\<And>v. x = Value v \<Longrightarrow> lower h n (continue v s)"
  shows "lower h n (settle_post_turn h (x, s) continue)"
  using assms by (cases x) (simp_all add: settle_post_turn_def lower_finish lower_finished)

lemma await_no_messages: "await h f s = (Value ms, s') \<Longrightarrow> no_messages f \<Longrightarrow> ms = []"
  unfolding await_def race_def no_messages_def
  by (auto split: prod.splits if_splits) (metis fst_conv)

lemma poll_quiet:
  assumes "poll_messages_unless_aborted h p s = (x, s')" "\<And>f. p = Some f \<Longrightarrow> no_messages f"
  shows "adds [] s s'" "x = Value ms \<Longrightarrow> ms = []"
  using assms by (auto simp: poll_messages_unless_aborted_def dest: adds_await await_no_messages
      split: option.splits if_splits)

lemma lower_after_turn:
  assumes "quiet_queues h" "rs_reflexes s = 0" "\<not> rs_more s"
  shows "lower h 3 (after_turn h m rs s)"
proof -
  let ?op = "case ho_stop_after h of None \<Rightarrow> (\<lambda>w. (Value False, w)) | Some f \<Rightarrow> f m rs (rs_context s) (rs_new s)"
  obtain x s1 where x: "await h ?op s = (x, s1)" by fastforce
  obtain y s2 where y: "poll_messages_unless_aborted h (ho_steering h) s1 = (y, s2)" by fastforce
  have q: "adds [] s1 s2" "\<And>ms. y = Value ms \<Longrightarrow> ms = []"
    using poll_quiet [OF y] assms(1) by (auto simp: quiet_queues_def)
  have f: "rs_reflexes s1 = 0" "\<not> rs_more s1" "rs_reflexes s2 = 0" "\<not> rs_more s2"
    using assms adds_fields [OF adds_await [OF x]] adds_fields [OF q(1)] by simp_all
  show ?thesis
    unfolding after_turn_def x
  proof (rule lower_settle)
    fix v
    have "lower h 3 (settle_post_turn h (y, s2) (\<lambda>ms s2. let s3 = s2\<lparr>rs_pending := ms\<rparr> in
        if ms = [] \<and> should_stop_before_turn h s3 then finish_run h s3 else (TurnTop, s3)))"
      by (rule lower_settle) (use f q(2) in \<open>auto simp: Let_def finish_run_def lower_def\<close>)
    with y f show "lower h 3 (if v \<or> should_stop_before_turn h s1 then finish_run h s1
        else settle_post_turn h (poll_messages_unless_aborted h (ho_steering h) s1) (\<lambda>ms s2.
          let s3 = s2\<lparr>rs_pending := ms\<rparr> in
          if ms = [] \<and> should_stop_before_turn h s3 then finish_run h s3 else (TurnTop, s3)))"
      by (simp add: lower_finish)
  qed (use f in simp_all)
qed

lemma lower_provider:
  assumes "quiet_queues h" "model_answers h" "rs_reflexes s \<le> max_reflexes h"
  shows "lower h 3 (provider_turn h s)"
proof -
  have start: "rs_reflexes (start_turn h s) = rs_reflexes s" by (simp add: start_turn_def)
  have "rs_reflexes (fold (inject h) ms t) = rs_reflexes t" for ms t
    by (induction ms arbitrary: t) (simp_all add: inject_def record_message_def emit_message_def)
  then have r: "rs_reflexes (inject_pending h (start_turn h s)) \<le> max_reflexes h"
    using assms(3) start by (simp add: inject_pending_def)
  obtain x u where x: "stream_assistant_response h (inject_pending h (start_turn h s)) = (x, u)" by fastforce
  show ?thesis
  proof (cases x)
    case (Value m)
    with x assms(2) have t: "tool_calls (am_content m) = []" unfolding model_answers_def by blast
    have a: "lower h 3 (after_turn h m [] t)" if "rs_reflexes t = 0" "\<not> rs_more t" for t
      by (rule lower_after_turn [OF assms(1) that])
    show ?thesis
      using x Value t
      by (simp add: provider_turn_def answer_turn_def Let_def record_results_def lower_finish a)
  next
    case (Cancelled e)
    with stream_response_facts [OF x] streams_measures(7) x r show ?thesis
      by (fastforce simp: provider_turn_def lower_finished)
  next
    case (Failure e)
    with stream_response_facts [OF x] streams_measures(7) x r show ?thesis
      by (fastforce simp: provider_turn_def lower_finished)
  qed
qed

lemma lower_reflex:
  assumes "rs_reflexes s < max_reflexes h" "rs_pending s = []"
  shows "lower h (3 + (max_reflexes h - rs_reflexes s)) (reflex_turn h r s)"
proof -
  let ?s1 = "s\<lparr>rs_reflexes := rs_reflexes s + 1\<rparr>"
  let ?s2 = "start_turn h (emit h (ReflexEvent (rx_tool r) (rs_turn ?s1) (rs_reflexes ?s1)) ?s1)"
  let ?m = "create_reflex_assistant_message h r ?s2"
  let ?s3 = "record_message (Assistant ?m) (emit_message h (Assistant ?m) ?s2)"
  obtain rs terminate s4 where b: "execute_tool_calls h ?m ?s3 = (rs, terminate, s4)" by (metis prod_cases3)
  note a = adds_fields [OF execute_tool_calls_facts(1) [OF b]] adds_fields [OF adds_emit_message [of "Assistant ?m" ?s2 h]]
  have s4: "rs_reflexes s4 = Suc (rs_reflexes s)" "rs_pending s4 = []"
    using a assms(2) by (simp_all add: record_message_def start_turn_def)
  let ?s5 = "emit h (TurnEnd ?m rs) (record_results rs s4)"
  let ?s6 = "?s5\<lparr>rs_turn := rs_turn ?s5 + 1\<rparr>"
  have "reflex_turn h r s =
      (if signal_raised h ?s6 then finish_run h ?s6 else (TurnTop, ?s6\<lparr>rs_more := \<not> terminate\<rparr>))"
    using b by (simp only: reflex_turn_def Let_def prod.case)
  also have "lower h (3 + (max_reflexes h - rs_reflexes s)) \<dots>"
  proof (rule if_either)
    show "lower h (3 + (max_reflexes h - rs_reflexes s)) (finish_run h ?s6)"
      by (rule lower_finish) (use s4 assms(1) in \<open>simp_all add: record_results_eq\<close>)
    show "lower h (3 + (max_reflexes h - rs_reflexes s)) (TurnTop, ?s6\<lparr>rs_more := \<not> terminate\<rparr>)"
      using s4 assms(1) by (simp add: lower_def record_results_eq) arith
  qed
  finally show ?thesis .
qed

lemma lower_step:
  assumes "quiet_queues h" "model_answers h" "rs_reflexes (snd x) \<le> max_reflexes h" "running x"
  shows "lower h (rank h x) (loop_step h x)"
proof (cases x)
  case (Pair p s)
  then have r: "rs_reflexes s \<le> max_reflexes h" using assms(3) by simp
  show ?thesis
  proof (cases p)
    case LoopTop
    with Pair r show ?thesis by (simp add: lower_def lower_finished) arith
  next
    case TurnTop
    obtain o1 t where n: "next_reflex h s = (o1, t)" by fastforce
    note t = adds_fields [OF next_reflex_facts(1) [OF n]]
    have p: "rs_pending s = []" if "o1 \<noteq> None" using n that by (auto simp: next_reflex_def split: if_splits)
    have "lower h 3 (provider_turn h t)" by (rule lower_provider) (use assms r t in simp_all)
    then have "lower h (3 + (max_reflexes h - rs_reflexes s)) (provider_turn h t)" by (simp add: lower_def)
    moreover have "lower h (3 + (max_reflexes h - rs_reflexes s)) (reflex_turn h q t)" if "o1 = Some q" for q
      using lower_reflex [of t h q] next_reflex_facts(2) [OF n] p t that by simp
    ultimately show ?thesis
      using TurnTop Pair r n by (cases o1) (auto simp: turn_top_def lower_def)
  next
    case Between
    obtain y s1 where y: "poll_messages_unless_aborted h (ho_follow_up h) s = (y, s1)" by fastforce
    have q: "adds [] s s1" "\<And>ms. y = Value ms \<Longrightarrow> ms = []"
      using poll_quiet [OF y] assms(1) by (auto simp: quiet_queues_def)
    let ?last = "\<lambda>s. case rs_last s of None \<Rightarrow> (Value [], s)
        | Some (m, rs) \<Rightarrow>
            await h (case ho_continuation h of None \<Rightarrow> (\<lambda>w. (Value [], w)) | Some f \<Rightarrow> f m rs (rs_context s) (rs_new s)) s"
    obtain z s2 where z: "?last s1 = (z, s2)" by fastforce
    have none: "no_messages (\<lambda>w. (Value [], w) :: transcript outcome \<times> 'a)" by (simp add: no_messages_def)
    have c: "no_messages (case ho_continuation h of None \<Rightarrow> (\<lambda>w. (Value [], w)) | Some f \<Rightarrow> f m rs c n)" for m rs c n
      using assms(1) none by (auto simp: quiet_queues_def split: option.split)
    have q2: "adds [] s1 s2" "\<And>ms. z = Value ms \<Longrightarrow> ms = []"
      using z c by (auto dest: adds_await await_no_messages split: option.splits prod.splits)
    have f: "rs_reflexes s1 \<le> max_reflexes h" "rs_reflexes s2 \<le> max_reflexes h"
      using r adds_fields(7) [OF q(1)] adds_fields(7) [OF q2(1)] by simp_all
    let ?on = "\<lambda>ms s. if ms \<noteq> [] then (LoopTop, s\<lparr>rs_pending := ms\<rparr>) else finish_run h s"
    have "lower h 1 (settle_post_turn h (?last s1) ?on)"
      unfolding z by (rule lower_settle) (use f q2(2) in \<open>auto simp: lower_finish\<close>)
    then have "lower h 1 (settle_post_turn h (y, s1) (\<lambda>ms s. if ms \<noteq> [] then (LoopTop, s\<lparr>rs_pending := ms\<rparr>)
         else if should_stop_before_turn h s then finish_run h s else settle_post_turn h (?last s) ?on))"
      by (intro lower_settle) (use f q(2) in \<open>auto simp: lower_finish\<close>)
    with Between Pair r y show ?thesis by (simp add: between_turns_def lower_finish)
  next
    case (Finished e)
    with assms(4) Pair show ?thesis by (simp add: running_def)
  qed
qed

end
