(* ===== verification/AgentLoopWorld.thy ===== *)
theory AgentLoopWorld
  imports AgentLoopInvariant
begin

text \<open>
  What a loop does to the world of its host: a relation between the world and the events emitted so
  far that the host's operations keep holds at every point of a run. The host that an \<open>Agent\<close> gives
  the loop is the instance of this contract.
\<close>

definition keeps :: "('w \<Rightarrow> 'l \<Rightarrow> bool) \<Rightarrow> ('w, 'a) operation \<Rightarrow> bool" where
  "keeps P operation \<longleftrightarrow> (\<forall>w l. P w l \<longrightarrow> P (snd (operation w)) l)"

locale observed_host =
  fixes h :: "'w host" and P :: "'w \<Rightarrow> agent_event list \<Rightarrow> bool"
  assumes keeps_emit: "P w l \<Longrightarrow> P (ho_emit h e w) (l @ [e])"
    and keeps_updates: "t \<in> set (ho_tools h) \<Longrightarrow> tl_execute t i args w0 = (us, settle) \<Longrightarrow> (f, out) \<in> set us \<Longrightarrow>
      P w l \<Longrightarrow> P (f w) l"
    and keeps_execute: "t \<in> set (ho_tools h) \<Longrightarrow> tl_execute t i args w0 = (us, settle) \<Longrightarrow> keeps P settle"
    and keeps_before: "ho_before h = Some b \<Longrightarrow> keeps P (b m c args ms)"
    and keeps_after: "ho_after h = Some a \<Longrightarrow> keeps P (a m c args out err ms)"
    and keeps_transform: "ho_transform h = Some tr \<Longrightarrow> keeps P (tr ms)"
    and keeps_convert: "keeps P (ho_convert h ms)"
    and keeps_key: "ho_key h = Some ky \<Longrightarrow> keeps P (ky pr)"
    and keeps_stream: "keeps P (ho_stream h rq)"
    and keeps_next: "ho_stream h rq w0 = (Value r, w1) \<Longrightarrow> nx \<in> set (re_next r) \<Longrightarrow> keeps P nx"
    and keeps_result: "ho_stream h rq w0 = (Value r, w1) \<Longrightarrow> keeps P (re_result r)"
    and keeps_router: "ho_router h = Some ro \<Longrightarrow> keeps P (ro n k ms)"
    and keeps_steering: "ho_steering h = Some q \<Longrightarrow> keeps P q"
    and keeps_follow_up: "ho_follow_up h = Some q \<Longrightarrow> keeps P q"
    and keeps_continuation: "ho_continuation h = Some co \<Longrightarrow> keeps P (co m rs ms ns)"
    and keeps_stop_after: "ho_stop_after h = Some st \<Longrightarrow> keeps P (st m rs ms ns)"
begin

definition ok :: "'w run_state \<Rightarrow> bool" where
  "ok s \<longleftrightarrow> P (rs_world s) (rs_log s)"

lemma ok_locals [simp]:
  "ok (s\<lparr>rs_context := ms\<rparr>) = ok s" "ok (s\<lparr>rs_new := ms\<rparr>) = ok s" "ok (s\<lparr>rs_pending := ms\<rparr>) = ok s"
  "ok (s\<lparr>rs_first := b\<rparr>) = ok s" "ok (s\<lparr>rs_last := x\<rparr>) = ok s" "ok (s\<lparr>rs_turn := n\<rparr>) = ok s"
  "ok (s\<lparr>rs_reflexes := n\<rparr>) = ok s" "ok (s\<lparr>rs_more := b\<rparr>) = ok s" "ok (s\<lparr>rs_partial := p\<rparr>) = ok s"
  by (simp_all add: ok_def)

lemma ok_emit [simp]: "ok s \<Longrightarrow> ok (emit h e s)"
  by (simp add: ok_def emit_def keeps_emit)

lemma ok_emit_message [simp]: "ok s \<Longrightarrow> ok (emit_message h m s)"
  by (simp add: emit_message_def)

lemma ok_await: "await h f s = (x, s') \<Longrightarrow> keeps P f \<Longrightarrow> ok s \<Longrightarrow> ok s'"
  by (auto simp: await_def race_def ok_def keeps_def split: prod.splits) (metis snd_conv)

lemma ok_record [simp]: "ok (record_message m s) = ok s"
  by (simp add: record_message_def)

lemma ok_record_results [simp]: "ok (record_results rs s) = ok s"
  by (simp add: record_results_eq)

section \<open>Tool calls\<close>

lemma find_tool_in: "find_tool h c = Some t \<Longrightarrow> t \<in> set (ho_tools h)"
  by (auto simp: find_tool_def find_Some_iff)

lemma ok_prepare:
  assumes "prepare_tool_call h m c s = (p, s')" "ok s"
  shows "ok s'" "p = Prepared t args \<Longrightarrow> t \<in> set (ho_tools h)"
  using assms by (auto simp: prepare_tool_call_def Let_def dest: ok_await [OF _ keeps_before] find_tool_in
      split: option.splits sum.splits prod.splits outcome.splits bool.splits if_splits)

definition updates_ok :: "(('w \<Rightarrow> 'w) \<times> tool_output) list \<Rightarrow> bool" where
  "updates_ok us \<longleftrightarrow> list_all (\<lambda>u. \<forall>w l. P w l \<longrightarrow> P (fst u w) l) us"

lemma ok_updates: "updates_ok us \<Longrightarrow> ok s \<Longrightarrow> ok (run_updates h c us s)"
proof (induction us arbitrary: s)
  case (Cons u us)
  obtain f out where u: "u = (f, out)" by fastforce
  with Cons.prems have "ok (s\<lparr>rs_world := f (rs_world s)\<rparr>)" "updates_ok us" by (simp_all add: ok_def updates_ok_def)
  with Cons.IH show ?case by (simp add: u Let_def)
qed simp

lemma ok_execute:
  assumes "execute_prepared_tool_call h c t args s = (x, s')" "t \<in> set (ho_tools h)" "ok s"
  shows "ok s'"
proof -
  obtain us settle where e: "tl_execute t (call_id c) args (rs_world s) = (us, settle)" by fastforce
  have "updates_ok us" using keeps_updates [OF assms(2) e] by (auto simp: updates_ok_def list_all_iff)
  from ok_updates [OF this assms(3)] have "ok (run_updates h c us s)" .
  with assms e keeps_execute [OF assms(2) e] show ?thesis
    by (auto simp: execute_prepared_tool_call_def Let_def dest: ok_await split: if_splits prod.splits outcome.splits)
qed

lemma ok_finalize: "finalize_executed_tool_call h m c args x s = (f, s') \<Longrightarrow> ok s \<Longrightarrow> ok s'"
  by (auto simp: finalize_executed_tool_call_def Let_def dest: ok_await [OF _ keeps_after]
      split: option.splits prod.splits outcome.splits)

lemma ok_execute_and_finalize:
  "execute_and_finalize h m c t args s = (f, s') \<Longrightarrow> t \<in> set (ho_tools h) \<Longrightarrow> ok s \<Longrightarrow> ok s'"
  by (auto simp: execute_and_finalize_def dest: ok_execute ok_finalize split: prod.splits)

lemma ok_start [simp]: "ok s \<Longrightarrow> ok (emit_tool_start h c s)"
  by (simp add: emit_tool_start_def)

lemma ok_end [simp]: "ok s \<Longrightarrow> ok (emit_tool_execution_end h f s)"
  by (simp add: emit_tool_execution_end_def)

lemma ok_sequential_call:
  assumes "sequential_call h m c s = (f, s')" "ok s"
  shows "ok s'"
proof -
  obtain p s1 where p: "prepare_tool_call h m c (emit_tool_start h c s) = (p, s1)" by fastforce
  note q = ok_prepare [OF p ok_start [OF assms(2)]]
  show ?thesis using assms p q(1) ok_execute_and_finalize q(2)
    by (cases p) (auto simp: sequential_call_def)
qed

lemma ok_sequential_calls: "sequential_calls h m cs s = (frs, s') \<Longrightarrow> ok s \<Longrightarrow> ok s'"
proof (induction cs arbitrary: s s' frs)
  case (Cons c cs)
  show ?case
  proof (cases "signal_raised h s")
    case False
    obtain f s1 where f: "sequential_call h m c s = (f, s1)" by fastforce
    let ?s2 = "emit_tool_execution_end h f s1"
    let ?s3 = "emit_message h (ToolResult (create_tool_result_message h f ?s2)) ?s2"
    obtain rest s4 where rest: "sequential_calls h m cs ?s3 = (rest, s4)" by fastforce
    with False f Cons.prems(1) have "s' = s4" by (simp add: Let_def)
    with Cons.IH [OF rest] ok_sequential_call [OF f Cons.prems(2)] show ?thesis by simp
  qed (use Cons.prems in simp)
qed simp

text \<open>The tools of the waiting entries of a batch are tools of the host.\<close>

definition entries_ok :: "'w batch_entry list \<Rightarrow> bool" where
  "entries_ok es \<longleftrightarrow> list_all (\<lambda>e. case e of Waiting c t args \<Rightarrow> t \<in> set (ho_tools h) | Ready f \<Rightarrow> True) es"

lemma ok_prepare_calls: "prepare_calls h m cs s = (es, s') \<Longrightarrow> ok s \<Longrightarrow> ok s' \<and> entries_ok es"
proof (induction cs arbitrary: s s' es)
  case (Cons c cs)
  obtain p s1 where p: "prepare_tool_call h m c (emit_tool_start h c s) = (p, s1)" by fastforce
  note q = ok_prepare [OF p ok_start [OF Cons.prems(2)]]
  let ?x = "case (p, s1) of
      (Immediate out err, s') \<Rightarrow>
        let f = \<lparr>fn_call = c, fn_output = out, fn_error = err\<rparr> in (Ready f, emit_tool_execution_end h f s')
    | (Prepared t args, s') \<Rightarrow> (Waiting c t args, s')"
  have x: "ok (snd ?x)" "entries_ok [fst ?x]"
    using q by (auto simp: entries_ok_def Let_def split: preparation.splits)
  obtain rest s3 where rest: "prepare_calls h m cs (snd ?x) = (rest, s3)" by fastforce
  with p Cons.prems have "es = fst ?x # rest" "s' = s3" by (auto split: prod.splits)
  with x Cons.IH [OF rest] show ?case by (simp add: entries_ok_def)
qed (simp add: entries_ok_def)

lemma ok_finish_entry:
  "finish_entry h m e s = (f, s') \<Longrightarrow> entries_ok es \<Longrightarrow> e \<in> set es \<Longrightarrow> ok s \<Longrightarrow> ok s'"
  by (cases e) (auto simp: finish_entry_def entries_ok_def list_all_iff split: prod.splits batch_entry.splits
      dest!: ok_execute_and_finalize bspec)

lemma ok_run_entries:
  assumes "entries_ok es"
  shows "run_entries h m es is found s = (found', s') \<Longrightarrow> set is \<subseteq> {..<length es} \<Longrightarrow> ok s \<Longrightarrow> ok s'"
proof (induction "length is" arbitrary: "is" found s)
  case 0
  then show ?case by (simp add: run_entries.simps)
next
  case (Suc n)
  let ?i = "picked h is s"
  have i: "is \<noteq> []" using Suc.hyps(2) by auto
  then have picked: "?i \<in> set is" by simp
  obtain f s1 where f: "finish_entry h m (es ! ?i) s = (f, s1)" by fastforce
  with Suc.prems(1) i have rest: "run_entries h m es (remove1 ?i is) (found(?i \<mapsto> f)) s1 = (found', s')"
    by (simp add: run_entries.simps [of h m es "is" found s] Let_def)
  have "es ! ?i \<in> set es" using picked Suc.prems(2) by auto
  from ok_finish_entry [OF f assms this Suc.prems(3)] have s1: "ok s1" .
  have l: "n = length (remove1 ?i is)" "set (remove1 ?i is) \<subseteq> {..<length es}"
    using Suc.hyps(2) picked Suc.prems(2) set_remove1_subset [of ?i "is"] by (auto simp: length_remove1)
  show ?case by (rule Suc.hyps(1) [OF l(1) rest l(2) s1])
qed

lemma ok_emit_results: "emit_results h fs s = (rs, s') \<Longrightarrow> ok s \<Longrightarrow> ok s'"
proof (induction fs arbitrary: s s' rs)
  case (Cons f fs)
  let ?r = "create_tool_result_message h f s"
  obtain rest s1 where rest: "emit_results h fs (emit_message h (ToolResult ?r) s) = (rest, s1)" by fastforce
  with Cons.prems Cons.IH [OF rest] show ?case by (simp add: Let_def)
qed simp

lemma ok_execute_tool_calls:
  assumes "execute_tool_calls h m s = (rs, t, s')" "ok s"
  shows "ok s'"
proof (cases "runs_sequentially h (tool_calls (am_content m))")
  case True
  with assms ok_sequential_calls show ?thesis
    by (auto simp: execute_tool_calls_def execute_tool_calls_sequential_def Let_def split: prod.splits)
next
  case False
  obtain es s1 where es: "prepare_calls h m (tool_calls (am_content m)) s = (es, s1)" by fastforce
  obtain found s2 where found: "run_entries h m es [0..<length es] (\<lambda>_. None) s1 = (found, s2)" by fastforce
  from ok_prepare_calls [OF es assms(2)] have s1: "ok s1" "entries_ok es" by simp_all
  have "ok s2" by (rule ok_run_entries [OF s1(2) found _ s1(1)]) auto
  with assms False es found ok_emit_results show ?thesis
    by (auto simp: execute_tool_calls_def execute_tool_calls_parallel_def Let_def split: prod.splits)
qed

section \<open>The provider turn\<close>

lemma ok_put_final [simp]: "ok s \<Longrightarrow> ok (put_final_message h m s)"
  by (simp add: put_final_message_def replace_last_def)

lemma ok_stream_loop:
  assumes "list_all (keeps P) ns" "keeps P (re_result r)"
  shows "stream_loop h r ns s = (x, s') \<Longrightarrow> ok s \<Longrightarrow> ok s'"
  using assms(1)
proof (induction ns arbitrary: s)
  case Nil
  then show ?case
    by (auto simp: and_then_def dest: ok_await [OF _ assms(2)] split: prod.splits outcome.splits)
next
  case (Cons n ns)
  obtain e s1 where e: "await h n s = (e, s1)" by fastforce
  from ok_await [OF e _ Cons.prems(2)] Cons.prems(3) have s1: "ok s1" by simp
  have "list_all (keeps P) ns" using Cons.prems(3) by simp
  note IH = Cons.IH [OF _ _ this]
  show ?case
  proof (cases e)
    case (Value ev)
    with Cons.prems(1) e s1 show ?thesis
      by (cases ev) (auto simp: and_then_def replace_last_def dest: IH ok_await [OF _ assms(2)]
          split: prod.splits outcome.splits if_splits)
  qed (use Cons.prems(1) e s1 in \<open>simp_all add: and_then_def\<close>)
qed

lemma ok_and_then:
  assumes "and_then (x, s) f = (y, s')" "ok s" "\<And>v. x = Value v \<Longrightarrow> f v s = (y, s') \<Longrightarrow> ok s'"
  shows "ok s'"
  using assms by (cases x) (simp_all add: and_then_def)

text \<open>What a request keeps, and that its response comes from the stream of the host.\<close>

lemma ok_request:
  assumes "request_llm h s = (x, s')" "ok s"
  shows "ok s' \<and> (\<forall>r. x = Value r \<longrightarrow> list_all (keeps P) (re_next r) \<and> keeps P (re_result r))"
proof -
  have stream: "ok s2 \<and> (\<forall>r. y = Value r \<longrightarrow> list_all (keeps P) (re_next r) \<and> keeps P (re_result r))"
    if "await h (ho_stream h rq) s1 = (y, s2)" "ok s1" for rq s1 y s2
    using that ok_await [OF that(1) keeps_stream] keeps_next [of rq "rs_world s1"] keeps_result [of rq "rs_world s1"]
    by (auto simp: await_def race_def list_all_iff split: prod.splits if_splits)
  let ?x1 = "(if signal_raised h s then Cancelled abort_error_message else Value (), s)"
  show ?thesis
  proof (cases "signal_raised h s")
    case True
    with assms show ?thesis by (auto simp: request_llm_def and_then_def)
  next
    case False
    obtain ms s2 where 2: "(case ho_transform h of None \<Rightarrow> (Value (rs_context s), s)
        | Some f \<Rightarrow> await h (f (rs_context s)) s) = (ms, s2)" by fastforce
    then have s2: "ok s2" using assms(2) by (auto dest: ok_await [OF _ keeps_transform] split: option.splits)
    show ?thesis
    proof (cases ms)
      case (Value v)
      obtain llm s3 where 3: "await h (ho_convert h v) s2 = (llm, s3)" by fastforce
      from ok_await [OF this keeps_convert s2] have s3: "ok s3" .
      show ?thesis
      proof (cases llm)
        case (Value u)
        obtain k s4 where 4: "(case ho_key h of None \<Rightarrow> (Value None, s3)
            | Some f \<Rightarrow> await h (f (lm_provider (ho_model h))) s3) = (k, s4)" by fastforce
        then have s4: "ok s4" using s3 by (auto dest: ok_await [OF _ keeps_key] split: option.splits)
        from assms(1) False 2 \<open>ms = Value v\<close> 3 Value 4 s4 show ?thesis
          by (cases k) (auto simp: request_llm_def and_then_def dest!: stream)
      qed (use assms(1) False 2 \<open>ms = Value v\<close> 3 s3 in \<open>auto simp: request_llm_def and_then_def\<close>)
    qed (use assms(1) False 2 s2 in \<open>auto simp: request_llm_def and_then_def\<close>)
  qed
qed

lemma ok_stream_response:
  assumes "stream_assistant_response h s = (x, s')" "ok s"
  shows "ok s'"
proof -
  obtain r s1 where r: "request_llm h (s\<lparr>rs_partial := None\<rparr>) = (r, s1)" by fastforce
  have s1: "ok s1" using ok_request [OF r] assms(2) by simp
  obtain y s2 where y: "and_then (r, s1) (\<lambda>r s'. stream_loop h r (re_next r) s') = (y, s2)" by fastforce
  have s2: "ok s2"
    by (rule ok_and_then [OF y s1]) (use ok_request [OF r] assms(2) ok_stream_loop s1 in auto)
  with assms r y show ?thesis
    by (auto simp: stream_assistant_response_def Let_def split: outcome.splits if_splits)
qed

section \<open>The loop\<close>

abbreviation fine :: "'w machine \<Rightarrow> bool" where
  "fine x \<equiv> ok (snd x)"

lemma fine_finish [simp]: "ok s \<Longrightarrow> fine (finish_run h s)"
  by (simp add: finish_run_def)

lemma fine_settle: "ok s \<Longrightarrow> (\<And>v. fine (continue v s)) \<Longrightarrow> fine (settle_post_turn h (x, s) continue)"
  by (cases x) (simp_all add: settle_post_turn_def)

lemma ok_poll:
  "poll_messages_unless_aborted h p s = (x, s') \<Longrightarrow> (\<And>f. p = Some f \<Longrightarrow> keeps P f) \<Longrightarrow> ok s \<Longrightarrow> ok s'"
  by (auto simp: poll_messages_unless_aborted_def dest: ok_await split: option.splits if_splits)

lemma ok_start_turn [simp]: "ok s \<Longrightarrow> ok (start_turn h s)"
  by (simp add: start_turn_def)

lemma ok_inject_pending [simp]: "ok s \<Longrightarrow> ok (inject_pending h s)"
proof -
  have "ok s \<Longrightarrow> ok (fold (inject h) ms s)" for ms s
    by (induction ms arbitrary: s) (simp_all add: inject_def)
  then show "ok s \<Longrightarrow> ok (inject_pending h s)" by (simp add: inject_pending_def)
qed

lemma fine_reflex_turn:
  assumes "ok s"
  shows "fine (reflex_turn h r s)"
proof -
  let ?s1 = "s\<lparr>rs_reflexes := rs_reflexes s + 1\<rparr>"
  let ?s2 = "start_turn h (emit h (ReflexEvent (rx_tool r) (rs_turn ?s1) (rs_reflexes ?s1)) ?s1)"
  let ?m = "create_reflex_assistant_message h r ?s2"
  let ?s3 = "record_message (Assistant ?m) (emit_message h (Assistant ?m) ?s2)"
  obtain rs terminate s4 where b: "execute_tool_calls h ?m ?s3 = (rs, terminate, s4)" by (metis prod_cases3)
  have s4: "ok s4" by (rule ok_execute_tool_calls [OF b]) (use assms in simp)
  let ?s5 = "emit h (TurnEnd ?m rs) (record_results rs s4)"
  let ?s6 = "?s5\<lparr>rs_turn := rs_turn ?s5 + 1\<rparr>"
  have "reflex_turn h r s =
      (if signal_raised h ?s6 then finish_run h ?s6 else (TurnTop, ?s6\<lparr>rs_more := \<not> terminate\<rparr>))"
    using b by (simp only: reflex_turn_def Let_def prod.case)
  with s4 show ?thesis by simp
qed

lemma fine_after_turn:
  assumes "ok s"
  shows "fine (after_turn h m rs s)"
proof -
  let ?op = "case ho_stop_after h of None \<Rightarrow> (\<lambda>w. (Value False, w)) | Some f \<Rightarrow> f m rs (rs_context s) (rs_new s)"
  have op: "keeps P ?op"
    using keeps_stop_after by (auto simp: keeps_def split: option.split)
  obtain x s1 where x: "await h ?op s = (x, s1)" by fastforce
  have s1: "ok s1" by (rule ok_await [OF x op assms])
  obtain y s2 where y: "poll_messages_unless_aborted h (ho_steering h) s1 = (y, s2)" by fastforce
  have s2: "ok s2" by (rule ok_poll [OF y keeps_steering s1])
  show ?thesis
    unfolding after_turn_def x
    by (rule fine_settle [OF s1]) (use y s1 s2 in \<open>auto simp: Let_def intro!: fine_settle\<close>)
qed

lemma fine_answer_turn:
  assumes "ok s"
  shows "fine (answer_turn h m s)"
proof -
  let ?s = "s\<lparr>rs_reflexes := 0, rs_turn := rs_turn s + 1, rs_new := rs_new s @ [Assistant m]\<rparr>"
  obtain rs terminate s1 where b:
    "(if tool_calls (am_content m) = [] then ([], True, ?s) else execute_tool_calls h m ?s) = (rs, terminate, s1)"
    by (metis prod_cases3)
  have s1: "ok s1"
    using b assms ok_execute_tool_calls [of m ?s rs terminate s1] by (auto split: if_splits)
  let ?s2 = "emit h (TurnEnd m rs) (record_results rs (s1\<lparr>rs_more := \<not> terminate\<rparr>))"
  have "answer_turn h m s =
      (if am_stop m = ErrorStop \<or> am_stop m = Aborted then finish_run h (emit h (TurnEnd m []) ?s)
       else if signal_raised h ?s2 then finish_run h ?s2
       else after_turn h m rs (?s2\<lparr>rs_last := Some (m, rs)\<rparr>))"
    using b by (simp only: answer_turn_def Let_def prod.case)
  with assms s1 fine_after_turn show ?thesis by simp
qed

lemma fine_turn_top:
  assumes "ok s"
  shows "fine (turn_top h s)"
proof -
  obtain r t where r: "next_reflex h s = (r, t)" by fastforce
  have t: "ok t"
    using r assms by (auto simp: next_reflex_def resolve_pre_turn_reflex_def dest: ok_await [OF _ keeps_router]
        split: if_splits option.splits prod.splits outcome.splits)
  obtain x u where x: "stream_assistant_response h (inject_pending h (start_turn h t)) = (x, u)" by fastforce
  from ok_stream_response [OF x] t have "ok u" by simp
  with x have "fine (provider_turn h t)" by (cases x) (simp_all add: provider_turn_def fine_answer_turn)
  with assms r t fine_reflex_turn show ?thesis by (simp add: turn_top_def split: option.split)
qed

lemma fine_between:
  assumes "ok s"
  shows "fine (between_turns h s)"
proof -
  obtain x s1 where x: "poll_messages_unless_aborted h (ho_follow_up h) s = (x, s1)" by fastforce
  have s1: "ok s1" by (rule ok_poll [OF x keeps_follow_up assms])
  let ?last = "case rs_last s1 of None \<Rightarrow> (Value [], s1)
      | Some (m, rs) \<Rightarrow>
          await h (case ho_continuation h of None \<Rightarrow> (\<lambda>w. (Value [], w)) | Some f \<Rightarrow> f m rs (rs_context s1) (rs_new s1)) s1"
  obtain y s2 where y: "?last = (y, s2)" by fastforce
  have "keeps P (case ho_continuation h of None \<Rightarrow> (\<lambda>w. (Value [], w)) | Some f \<Rightarrow> f m rs c n)" for m rs c n
    using keeps_continuation by (auto simp: keeps_def split: option.split)
  then have s2: "ok s2" using y s1 by (auto dest: ok_await split: option.splits prod.splits)
  show ?thesis
    using assms x s1 y s2 by (auto simp: between_turns_def intro!: fine_settle)
qed

lemma fine_step: "fine x \<Longrightarrow> fine (loop_step h x)"
  by (cases "(h, x)" rule: loop_step.cases) (auto simp: fine_turn_top fine_between)

text \<open>What holds when the run starts holds at all its points.\<close>

lemma start_ok:
  assumes "P w []"
  shows "ok (start_run h prompts base w)"
proof -
  have "ok s \<Longrightarrow> ok (fold (emit_message h) ms s)" for ms s
    by (induction ms arbitrary: s) simp_all
  moreover have "ok ((fresh_run (base @ prompts) w)\<lparr>rs_new := prompts\<rparr>)"
    using assms by (simp add: ok_def fresh_run_def)
  ultimately show ?thesis by (simp add: start_run_def Let_def)
qed

lemma reachable_ok:
  assumes "P w []" "loop_reachable h prompts base w x"
  shows "fine x"
  using assms(2)
proof induction
  case (reach_start ms s)
  from ok_poll [OF this keeps_steering start_ok [OF assms(1)]] show ?case by simp
next
  case (reach_step x)
  from reach_step.IH show ?case by (rule fine_step)
qed

lemma ok_run_loop:
  assumes "run_loop h s = Some (p, s')" "ok s"
  shows "ok s'"
proof -
  obtain x t where x: "poll_messages_unless_aborted h (ho_steering h) s = (x, t)" by fastforce
  have t: "ok t" by (rule ok_poll [OF x keeps_steering assms(2)])
  show ?thesis
  proof (cases x)
    case (Value ms)
    with assms x have "while_option running (loop_step h) (LoopTop, t\<lparr>rs_pending := ms\<rparr>) = Some (p, s')"
      by (simp add: run_loop_def)
    then have "fine (p, s')" by (rule while_option_rule [where P = fine, rotated]) (use t in \<open>auto intro: fine_step\<close>)
    then show ?thesis by simp
  qed (use assms(1) x t in \<open>auto simp: run_loop_def\<close>)
qed

lemma run_ok:
  assumes "P w []" "run_agent_loop h prompts base w = Some (p, s)"
  shows "P (rs_world s) (rs_log s)"
  using ok_run_loop [OF assms(2) [unfolded run_agent_loop_def] start_ok [OF assms(1)]] by (simp add: ok_def)

lemma continue_ok:
  assumes "P w []" "run_agent_loop_continue h base w = Some (p, s)"
  shows "P (rs_world s) (rs_log s)"
proof -
  have "ok (fresh_run base w)" using assms(1) by (simp add: ok_def fresh_run_def)
  then have "ok s"
    using assms(2) ok_run_loop [OF _ start_ok [OF assms(1)]]
    by (auto simp: run_agent_loop_continue_def split: if_splits)
  then show ?thesis by (simp add: ok_def)
qed

end

end
