(* ===== verification/AgentLoopProps.thy ===== *)
theory AgentLoopProps
  imports AgentLoopInvariant
begin

text \<open>
  Properties of the agent loop, proved from its invariants, and runs of sample hosts that show that
  their hypotheses can hold.
\<close>

section \<open>Sample runs\<close>

definition sample_output :: tool_output where
  "sample_output = \<lparr>to_content = [TextPart ([]) None], to_details = None, to_terminate = None\<rparr>"

definition sample_tool :: "nat tool" where
  "sample_tool = \<lparr>tl_name = js ''read'', tl_sequential = False, tl_prepare = None,
     tl_execute = (\<lambda>_ _ w. ([(\<lambda>w. w, sample_output)], \<lambda>w. (Value sample_output, w)))\<rparr>"

text \<open>
  The world counts the answers of the provider: the first one asks for two tools, which finish in
  reverse order, and the second one ends the run.
\<close>

definition plain_answer :: "block list \<Rightarrow> stop_reason \<Rightarrow> assistant_message" where
  "plain_answer bs r =
     \<lparr>am_content = bs, am_api = [], am_provider = [], am_model = [], am_response_model = None,
      am_response_id = None, am_diagnostics = None, am_usage = empty_usage,
      am_stop = r, am_stop_raw = None, am_error = None, am_time = 0\<rparr>"

definition two_calls :: assistant_message where
  "two_calls = plain_answer [call_block ([]) ([]) JNull, call_block ([]) ([]) JNull] ToolUse"

definition sample_host :: "(nat \<Rightarrow> assistant_message) \<Rightarrow> bool \<Rightarrow> nat host" where
  "sample_host answer reflexes =
     \<lparr>ho_aborted = (\<lambda>_. False), ho_emit = (\<lambda>_ w. w), ho_now = (\<lambda>_. 0), ho_uuid = (\<lambda>_. js ''u''),
      ho_pick = (\<lambda>is _. last is), ho_model = \<lparr>lm_api = [], lm_provider = [], lm_id = []\<rparr>,
      ho_tools = [sample_tool], ho_sequential = False, ho_validate = (\<lambda>_ j. Inr j), ho_before = None, ho_after = None,
      ho_system = None, ho_context_system = [], ho_transform = None, ho_convert = (\<lambda>ms w. (Value ms, w)),
      ho_key = None, ho_static_key = None,
      ho_stream = (\<lambda>_ w. (Value \<lparr>re_next = [], re_result = (\<lambda>w. (Value (answer w), w + 1))\<rparr>, w)),
      ho_router = (if reflexes then Some (\<lambda>_ _ _ w. (Value (Some \<lparr>rx_tool = js ''read'', rx_args = None\<rparr>), w)) else None),
      ho_max_reflexes = None, ho_steering = None, ho_follow_up = None, ho_continuation = None,
      ho_stop_after = None, ho_stop_before = None\<rparr>"

definition busy_host :: "nat host" where
  "busy_host = sample_host (\<lambda>w. if w = 0 then two_calls else plain_answer [] Stop) False"

definition reflex_host :: "nat host" where
  "reflex_host = sample_host (\<lambda>_. plain_answer [] Stop) True"

definition plain_host :: "nat host" where
  "plain_host = sample_host (\<lambda>_. plain_answer [] Stop) False"

lemma sample_signal: "signal_stays busy_host" "signal_stays reflex_host" "signal_stays plain_host"
  by (simp_all add: signal_stays_def busy_host_def reflex_host_def plain_host_def sample_host_def)

definition sample_prompt :: transcript where
  "sample_prompt = [user_msg [TextPart ([]) None]]"

text \<open>The equations that run the loop of a sample host.\<close>

lemmas loop_defs = eval_nat_numeral turn_top_def next_reflex_def resolve_pre_turn_reflex_def reflex_turn_def
  start_run_def fresh_run_def sample_prompt_def emit_message_def emit_def signal_raised_def
  busy_host_def plain_host_def reflex_host_def sample_host_def sample_tool_def sample_output_def plain_answer_def two_calls_def
  max_reflexes_def default_max_consecutive_reflexes_def
  await_def race_def start_turn_def record_message_def create_reflex_assistant_message_def
  execute_tool_calls_def runs_sequentially_def find_tool_def execute_tool_calls_parallel_def
  prepare_tool_call_def emit_tool_start_def prepare_tool_call_arguments_def tool_calls_def call_block_def
  run_entries.simps picked_def finish_entry_def execute_and_finalize_def execute_prepared_tool_call_def
  finalize_executed_tool_call_def emit_tool_execution_end_def create_tool_result_message_def
  map_filter_simps should_terminate_tool_batch_def record_results_def Let_def nullish_def
  provider_turn_def stream_assistant_response_def and_then_def request_llm_def put_final_message_def replace_last_def
  inject_pending_def inject_def answer_turn_def after_turn_def settle_post_turn_def should_stop_before_turn_def
  poll_messages_unless_aborted_def between_turns_def finish_run_def reflex_turns_def running_def

lemma plain_run: "map_option fst (run_agent_loop plain_host sample_prompt [] 0) = Some (Finished None)"
  by code_simp

section \<open>Properties\<close>

text \<open>
  Nothing stops a reflex turn. What a reflex turn does, and the point at which the loop goes on,
  are the same whatever the hooks \<open>shouldStopAfterTurn\<close> and \<open>shouldStopBeforeTurn\<close> say and whatever
  messages wait in the steering queue: neither hook is asked and the queue is not polled after it.
\<close>

theorem reflex_turns_ignore_stop_hooks_and_steering:
  "reflex_turn (h\<lparr>ho_stop_after := stop_after, ho_stop_before := stop_before, ho_steering := steering\<rparr>) r s
   = reflex_turn h r s"
proof -
  let ?g = "h\<lparr>ho_stop_after := stop_after, ho_stop_before := stop_before, ho_steering := steering\<rparr>"
  have "reflex_turn (rehooked ?g h) r s = reflex_turn h r s"
    unfolding reflex_turn_def rehooked_basics rehooked_batch by (rule refl)
  moreover have "rehooked ?g h = ?g" by (simp add: rehooked_def)
  ultimately show ?thesis by simp
qed

text \<open>
  C2. A run reports exactly its messages. Whatever the tools, the provider and the hooks do, the
  messages that ended, in the order of their events, are the new messages of the run, which begin
  with the prompts; a run that returns reports its end once, as its last event, with exactly these
  messages, and a run that throws does not report an end.
\<close>

theorem run_reports_exactly_its_messages:
  assumes "signal_stays h" "run_agent_loop h prompts base w = Some (Finished e, s)"
  shows "ended_messages (rs_log s) = rs_new s \<and> (\<exists>ms. rs_new s = prompts @ ms)
    \<and> filter is_agent_end (rs_log s) = (if e = None then [AgentEnd (rs_new s)] else [])
    \<and> (e = None \<longrightarrow> last (rs_log s) = AgentEnd (rs_new s))"
  using run_machine_inv [OF assms(2,1)] by (cases e) (auto simp: invs)

theorem run_reports_exactly_its_messages_witness:
  "\<exists>s. run_agent_loop plain_host sample_prompt [] 0 = Some (Finished None, s) \<and> last (rs_log s) = AgentEnd (rs_new s)"
proof -
  from plain_run obtain s where s: "run_agent_loop plain_host sample_prompt [] 0 = Some (Finished None, s)" by auto
  from run_reports_exactly_its_messages [OF sample_signal(3) s] s show ?thesis by auto
qed

text \<open>
  C3. The results of a batch of tool calls follow the calls in source order, in whatever order
  concurrent calls finish, each naming its call. Every call has a result, unless the batch runs
  sequentially and the signal was raised.
\<close>

theorem batch_results_follow_the_calls:
  assumes "execute_tool_calls h m s = (rs, terminate, s')"
  shows "list_all2 answers rs (take (length rs) (tool_calls (am_content m)))
    \<and> (length rs = length (tool_calls (am_content m)) \<or>
       runs_sequentially h (tool_calls (am_content m)) \<and> signal_raised h s')
    \<and> ended_messages (rs_log s') = ended_messages (rs_log s) @ map ToolResult rs"
  using execute_tool_calls_facts [OF assms] adds_measures(1) by blast

theorem batch_results_follow_the_calls_witness:
  "\<exists>rs t s. execute_tool_calls busy_host two_calls (fresh_run [] 0) = (rs, t, s)
     \<and> length rs = 2 \<and> list_all2 answers rs (tool_calls (am_content two_calls))"
proof -
  obtain rs t s where e: "execute_tool_calls busy_host two_calls (fresh_run [] 0) = (rs, t, s)" by (metis prod_cases3)
  have "\<not> signal_raised busy_host s" by (simp add: signal_raised_def busy_host_def sample_host_def)
  with batch_results_follow_the_calls [OF e] e show ?thesis by (auto simp: two_calls_def plain_answer_def tool_calls_def call_block_def)
qed

text \<open>
  C1. A run goes on past a turn only when every tool call of the turn is answered, in order, and so
  does a run that throws: the unanswered calls of a raised signal are in the last turn of a run that
  returned.
\<close>

theorem turns_leave_no_call_unanswered:
  assumes "signal_stays h" "loop_reachable h prompts base w (p, s)" "p \<noteq> Finished None"
    "TurnEnd m rs \<in> set (rs_log s)"
  shows "list_all2 answers rs (tool_calls (am_content m))"
proof -
  have "run_inv h prompts s"
    using reachable_inv [OF assms(2,1)] assms(3) by (cases p; cases "case p of Finished e \<Rightarrow> e | _ \<Rightarrow> None") auto
  moreover have "TurnEnd m rs \<in> set (filter is_turn_end (rs_log s))" using assms(4) by simp
  ultimately show ?thesis unfolding invs list_all_iff by fastforce
qed

lemma no_steering: "poll_messages_unless_aborted busy_host (ho_steering busy_host) s = (Value [], s)"
  "poll_messages_unless_aborted reflex_host (ho_steering reflex_host) s = (Value [], s)"
  by (simp_all add: poll_messages_unless_aborted_def busy_host_def reflex_host_def sample_host_def)

lemma sample_reachable:
  assumes "\<And>s. poll_messages_unless_aborted h (ho_steering h) s = (Value [], s)"
  shows "loop_reachable h sample_prompt [] 0
     ((loop_step h ^^ k) (LoopTop, (start_run h sample_prompt [] 0)\<lparr>rs_pending := []\<rparr>))"
  by (induction k) (auto intro: loop_reachable.intros assms)

lemma busy_steps:
  "(case (loop_step busy_host ^^ 2) (LoopTop, (start_run busy_host sample_prompt [] 0)\<lparr>rs_pending := []\<rparr>) of
      (p, s) \<Rightarrow> p = TurnTop \<and> list_ex (\<lambda>e. case e of TurnEnd m rs \<Rightarrow> length rs = 2 | _ \<Rightarrow> False) (rs_log s))"
  by (simp add: loop_defs)

theorem turns_leave_no_call_unanswered_witness:
  "\<exists>s m rs. loop_reachable busy_host sample_prompt [] 0 (TurnTop, s) \<and> TurnEnd m rs \<in> set (rs_log s)
     \<and> length rs = 2 \<and> list_all2 answers rs (tool_calls (am_content m))"
proof -
  obtain s where x: "(loop_step busy_host ^^ 2) (LoopTop, (start_run busy_host sample_prompt [] 0)\<lparr>rs_pending := []\<rparr>) = (TurnTop, s)"
    and e: "list_ex (\<lambda>e. case e of TurnEnd m rs \<Rightarrow> length rs = 2 | _ \<Rightarrow> False) (rs_log s)"
    using busy_steps by (auto split: prod.splits)
  have r: "loop_reachable busy_host sample_prompt [] 0 (TurnTop, s)"
    using sample_reachable [OF no_steering(1), of 2] unfolding x .
  from e obtain x where x: "x \<in> set (rs_log s)" "case x of TurnEnd m rs \<Rightarrow> length rs = 2 | _ \<Rightarrow> False"
    by (auto simp: list_ex_iff)
  from x(2) obtain m rs where "x = TurnEnd m rs" "length rs = 2" by (cases x) simp_all
  with x(1) have t: "TurnEnd m rs \<in> set (rs_log s)" "length rs = 2" by simp_all
  from turns_leave_no_call_unanswered [OF sample_signal(1) r _ t(1)] r t show ?thesis by blast
qed

text \<open>
  C4. A router cannot keep the model out: at every point of a run the reflex turns are at most
  \<open>maxConsecutiveReflexes\<close> for each other turn that ended, and one more round of them.
\<close>

theorem reflexes_never_crowd_out_the_model:
  assumes "signal_stays h" "loop_reachable h prompts base w (p, s)"
  shows "reflex_turns (rs_log s) \<le> max_reflexes h * (turns (rs_log s) + 1 - reflex_turns (rs_log s))"
proof -
  have "\<exists>r. r \<le> max_reflexes h \<and>
      Suc (max_reflexes h) * reflex_turns (rs_log s) \<le> max_reflexes h * turns (rs_log s) + r"
    using reachable_inv [OF assms(2,1)]
    by (cases p; cases "case p of Finished e \<Rightarrow> e | _ \<Rightarrow> None") (auto simp: invs)
  then show ?thesis by (auto simp: diff_mult_distrib2)
qed

lemma reflex_steps:
  "(case (loop_step reflex_host ^^ 4) (LoopTop, (start_run reflex_host sample_prompt [] 0)\<lparr>rs_pending := []\<rparr>) of
      (p, s) \<Rightarrow> reflex_turns (rs_log s) = 3)"
  by (simp add: loop_defs)

theorem reflexes_never_crowd_out_the_model_witness:
  "\<exists>p s. loop_reachable reflex_host sample_prompt [] 0 (p, s) \<and> reflex_turns (rs_log s) = 3
     \<and> 3 \<le> max_reflexes reflex_host * (turns (rs_log s) + 1 - 3)"
proof -
  obtain p s where x: "(loop_step reflex_host ^^ 4) (LoopTop, (start_run reflex_host sample_prompt [] 0)\<lparr>rs_pending := []\<rparr>) = (p, s)"
    by fastforce
  then have n: "reflex_turns (rs_log s) = 3" using reflex_steps by simp
  have r: "loop_reachable reflex_host sample_prompt [] 0 (p, s)"
    using sample_reachable [OF no_steering(2), of 4] unfolding x .
  from reflexes_never_crowd_out_the_model [OF sample_signal(2) r] r n show ?thesis by auto
qed

text \<open>
  C5. A run ends when the model answers. If the queues have no messages and no provider turn asks for
  tools, a run returns or throws, whatever the router does: the reflexes left bound its turns.
\<close>

theorem run_ends_when_the_model_answers:
  assumes "quiet_queues h" "model_answers h"
  shows "\<exists>x. run_agent_loop h prompts base w = Some x"
proof -
  obtain x t where x: "poll_messages_unless_aborted h (ho_steering h) (start_run h prompts base w) = (x, t)" by fastforce
  have q: "adds [] (start_run h prompts base w) t"
    using poll_quiet(1) [OF x] assms(1) by (simp add: quiet_queues_def)
  have "rs_reflexes (fold (emit_message h) ms s) = rs_reflexes s" for ms and s :: "'a run_state"
    by (induction ms arbitrary: s) (simp_all add: emit_message_def)
  then have r: "rs_reflexes t = 0"
    using adds_fields(7) [OF q] by (simp add: start_run_def fresh_run_def Let_def)
  show ?thesis
  proof (cases x)
    case (Value ms)
    have "\<exists>y. while_option running (loop_step h) (LoopTop, t\<lparr>rs_pending := ms\<rparr>) = Some y"
    proof (rule measure_while_option_Some [where P = "\<lambda>y. rs_reflexes (snd y) \<le> max_reflexes h" and f = "rank h"])
      show "rs_reflexes (snd (loop_step h y)) \<le> max_reflexes h \<and> rank h (loop_step h y) < rank h y"
        if "rs_reflexes (snd y) \<le> max_reflexes h" "running y" for y
        using lower_step [OF assms that] by (simp add: lower_def)
    qed (use r in simp)
    with Value x show ?thesis by (simp add: run_agent_loop_def run_loop_def)
  qed (use x in \<open>simp_all add: run_agent_loop_def run_loop_def\<close>)
qed

lemma reflex_host_answers: "model_answers reflex_host" "quiet_queues reflex_host"
  by (auto simp: model_answers_def quiet_queues_def reflex_host_def sample_host_def stream_assistant_response_def
      request_llm_def and_then_def await_def race_def signal_raised_def plain_answer_def)

theorem run_ends_when_the_model_answers_witness:
  "\<exists>x. run_agent_loop reflex_host sample_prompt [] 0 = Some x"
  by (rule run_ends_when_the_model_answers [OF reflex_host_answers(2,1)])

end
