(* ===== verification/AgentProps.thy ===== *)
theory AgentProps
  imports Agent AgentLoopWorld AgentLoopProps
begin

text \<open>
  Properties of the \<open>Agent\<close>: its visible state is the fold of the loop's events, whatever its client
  does; a call extends the transcript by what its run reported and leaves the agent idle; and what
  becomes of queued messages.
\<close>

section \<open>What a client cannot change\<close>

definition visible :: "'w agent \<Rightarrow> transcript \<times> message option \<times> jstring set \<times> jstring option \<times> bool \<times> bool \<times> bool" where
  "visible a = (ag_messages a, ag_partial a, ag_calls a, ag_error a, ag_streaming a, ag_active a, ag_skip a)"

lemma visible_fields:
  assumes "visible a = visible b"
  shows "ag_messages a = ag_messages b" "ag_partial a = ag_partial b" "ag_calls a = ag_calls b"
    "ag_error a = ag_error b" "ag_streaming a = ag_streaming b" "ag_active a = ag_active b" "ag_skip a = ag_skip b"
  using assms by (simp_all add: visible_def)

lemma visible_updates [simp]:
  "visible (a\<lparr>ag_env := w\<rparr>) = visible a" "visible (a\<lparr>ag_steering := q\<rparr>) = visible a"
  "visible (a\<lparr>ag_follow_up := q\<rparr>) = visible a" "visible (a\<lparr>ag_aborted := b\<rparr>) = visible a"
  by (simp_all add: visible_def)

lemma command_keeps:
  "visible (run_command x a) = visible a \<and> (ag_aborted a \<longrightarrow> ag_aborted (run_command x a))"
  by (cases x) (simp_all add: steer_def follow_up_def clear_steering_queue_def clear_follow_up_queue_def
      remove_queued_messages_def abort_def set_steering_mode_def set_follow_up_mode_def split: prod.split)

lemma commands_keep [simp]:
  "visible (fold run_command cs a) = visible a" "ag_aborted a \<Longrightarrow> ag_aborted (fold run_command cs a)"
  by (induction cs arbitrary: a) (simp_all add: command_keeps)

lemma react_keeps [simp]: "visible (react r a) = visible a" "ag_aborted a \<Longrightarrow> ag_aborted (react r a)"
  by (simp_all add: react_def split: prod.split)

lemma perform_keeps [simp]: "visible (snd (perform f a)) = visible a"
  by (simp add: perform_def split: prod.split)

lemma listeners_keep [simp]:
  "visible (fold (\<lambda>l. react (l e)) ls a) = visible a"
  "ag_aborted a \<Longrightarrow> ag_aborted (fold (\<lambda>l. react (l e)) ls a)"
  by (induction ls arbitrary: a) simp_all

lemma reduce_aborted [simp]: "ag_aborted (reduce_event e a) = ag_aborted a"
  by (cases e) (simp_all split: option.split)

lemma reduce_visible:
  assumes "visible a = visible b"
  shows "visible (reduce_event e a) = visible (reduce_event e b)"
  using assms by (cases e) (simp_all add: visible_def split: option.split)

lemma process_visible: "visible (process_events c e a) = visible (reduce_event e a)"
  by (simp add: process_events_def)

lemma process_fold_visible: "visible (fold (process_events c) es a) = visible (fold reduce_event es a)"
proof (induction es rule: rev_induct)
  case (snoc e es)
  from reduce_visible [OF snoc] show ?case by (simp add: process_visible)
qed simp

lemma agent_signal_stays: "signal_stays (agent_host c)"
  by (simp add: signal_stays_def agent_host_def process_events_def)

text \<open>The host that an agent gives its loop keeps the visible state the fold of the events.\<close>

definition reduced :: "'w agent \<Rightarrow> 'w agent \<Rightarrow> agent_event list \<Rightarrow> bool" where
  "reduced a0 a es \<longleftrightarrow> visible (a\<lparr>ag_skip := False\<rparr>) = visible ((fold reduce_event es a0)\<lparr>ag_skip := False\<rparr>)"

lemma skip_irrelevant: "visible a = visible b \<Longrightarrow> visible (a\<lparr>ag_skip := x\<rparr>) = visible (b\<lparr>ag_skip := x\<rparr>)"
  by (simp add: visible_def)

lemma reduced_visible: "visible a = visible b \<Longrightarrow> reduced a0 a es = reduced a0 b es"
  using skip_irrelevant [of a b False] by (simp add: reduced_def)

lemma reduced_skip [simp]: "reduced a0 (a\<lparr>ag_skip := x\<rparr>) es = reduced a0 a es"
  by (simp add: reduced_def)

lemma reduced_step:
  assumes "reduced a0 a es"
  shows "reduced a0 (process_events c e a) (es @ [e])"
proof -
  have skip: "visible ((reduce_event e b)\<lparr>ag_skip := False\<rparr>) = visible (reduce_event e (b\<lparr>ag_skip := False\<rparr>))" for b :: "'a agent"
    unfolding visible_def by (cases e; simp split: option.split)
  have "reduced a0 (reduce_event e a) (es @ [e])"
    using reduce_visible [OF assms [unfolded reduced_def]] by (simp add: reduced_def skip)
  then show ?thesis using reduced_visible [OF process_visible] by blast
qed

lemma reduced_perform: "keeps (reduced a0) (perform f)"
  unfolding keeps_def by (metis perform_keeps reduced_visible)

lemma reduced_queues: "keeps (reduced a0) get_steering_messages" "keeps (reduced a0) get_follow_up_messages"
proof -
  have "visible (snd (get_steering_messages a)) = visible (a\<lparr>ag_skip := False\<rparr>) \<or>
      visible (snd (get_steering_messages a)) = visible a" for a :: "'a agent"
    by (simp add: get_steering_messages_def split: prod.split)
  then show "keeps (reduced a0) get_steering_messages"
    unfolding keeps_def by (metis reduced_skip reduced_visible)
  have "visible (snd (get_follow_up_messages a)) = visible a" for a :: "'a agent"
    by (simp add: get_follow_up_messages_def split: prod.split)
  then show "keeps (reduced a0) get_follow_up_messages"
    unfolding keeps_def by (metis reduced_visible)
qed

lemma reduced_idle: "keeps (reduced a0) (\<lambda>a. (x, a))"
  by (simp add: keeps_def)

lemma reduced_stream:
  assumes "ho_stream (agent_host c) rq a = (Value r, a')"
  shows "\<exists>q. r = agent_response q"
  using assms by (auto simp: agent_host_def split: prod.splits elim: map_outcome.elims)

interpretation agent: observed_host "agent_host c" "reduced a0" for c a0
proof
  fix t i args a us settle f out b l
  assume "t \<in> set (ho_tools (agent_host c))"
  then obtain k where t: "t = agent_tool k" by (auto simp: agent_host_def)
  assume e: "tl_execute t i args a = (us, settle)"
  from e show "keeps (reduced a0) settle" by (auto simp: t agent_tool_def reduced_perform split: prod.splits)
  assume "(f, out) \<in> set us" "reduced a0 b l"
  with e show "reduced a0 (f b) l"
    by (auto simp: t agent_tool_def reduced_visible [OF react_keeps(1)] split: prod.splits)
next
  fix rq
  show "keeps (reduced a0) (ho_stream (agent_host c) rq)"
    using reduced_perform [of a0 "cl_stream c rq"]
    by (simp add: keeps_def agent_host_def split_beta)
next
  fix rq a r a' nx
  assume "ho_stream (agent_host c) rq a = (Value r, a')"
  then obtain q where r: "r = agent_response q" using reduced_stream by blast
  then show "keeps (reduced a0) (re_result r)" by (simp add: agent_response_def reduced_perform)
  assume "nx \<in> set (re_next r)"
  with r show "keeps (reduced a0) nx" by (auto simp: agent_response_def reduced_perform)
qed (auto simp: agent_host_def reduced_step reduced_perform reduced_idle reduced_queues split: option.splits)

section \<open>A call and its run\<close>

definition idle :: "'w agent \<Rightarrow> bool" where
  "idle a \<longleftrightarrow> \<not> ag_active a \<and> \<not> ag_streaming a \<and> ag_partial a = None \<and> ag_calls a = {}"

lemma fold_reduce_messages: "ag_messages (fold reduce_event es a) = ag_messages a @ ended_messages es"
proof (induction es rule: rev_induct)
  case (snoc e es)
  then show ?case by (cases e) (simp_all split: option.split)
qed simp

lemma reduced_messages: "reduced a0 a es \<Longrightarrow> ag_messages a = ag_messages a0 @ ended_messages es"
  unfolding reduced_def by (drule visible_fields(1)) (simp add: fold_reduce_messages)

lemma end_run_idle [simp]: "idle (end_run a)" "ag_messages (end_run a) = ag_messages a"
  by (simp_all add: end_run_def idle_def)

lemma failure_events_simps [simp]: "ended_messages (failure_events m) = [Assistant m]"
  by (simp add: failure_events_def ended_messages_def map_filter_simps)

lemma lifecycle_appends:
  assumes "run_with_lifecycle c executor a = Some (None, a', es)"
    "\<And>p s. executor (begin_run a) = Some (p, s) \<Longrightarrow> reduced (begin_run a) (rs_world s) (rs_log s)"
  shows "ag_messages a' = ag_messages a @ ended_messages es \<and> idle a'"
proof -
  have no: "\<not> ag_active a" using assms(1) by (auto simp: run_with_lifecycle_def)
  obtain p s where x: "executor (begin_run a) = Some (p, s)"
    using assms(1) no by (auto simp: run_with_lifecycle_def split: option.splits prod.splits)
  have m: "ag_messages (rs_world s) = ag_messages a @ ended_messages (rs_log s)"
    using reduced_messages [OF assms(2) [OF x]] by (simp add: begin_run_def)
  have f: "ag_messages (fold (process_events c) fs b) = ag_messages b @ ended_messages fs" for fs and b :: "'a agent"
    using visible_fields(1) [OF process_fold_visible] by (simp add: fold_reduce_messages)
  show ?thesis
    using assms(1) no x m
    by (auto simp: run_with_lifecycle_def handle_run_failure_def Let_def f split: phase.splits option.splits)
qed

lemma prompt_run_appends:
  assumes "run_prompt_messages c skip ms a = Some (None, a', es)"
  shows "ag_messages a' = ag_messages a @ ended_messages es \<and> idle a'"
  using assms unfolding run_prompt_messages_def
  by (rule lifecycle_appends) (erule agent.run_ok [rotated], simp add: reduced_def)

lemma continuation_appends:
  assumes "run_continuation c a = Some (None, a', es)"
  shows "ag_messages a' = ag_messages a @ ended_messages es \<and> idle a'"
  using assms unfolding run_continuation_def
  by (rule lifecycle_appends) (erule agent.continue_ok [rotated], simp add: reduced_def)

lemma machine_messages:
  "machine_inv h prompts (p, s) \<Longrightarrow> ended_messages (rs_log s) = rs_new s \<and> (\<exists>ms. rs_new s = prompts @ ms)"
  by (cases p; cases "case p of Finished e \<Rightarrow> e | _ \<Rightarrow> None") (auto simp: invs)

lemma prompt_run_begins:
  assumes "run_prompt_messages c skip ms a = Some (None, a', es)"
  shows "\<exists>ns. ended_messages es = ms @ ns"
proof -
  have no: "\<not> ag_active a" using assms by (auto simp: run_prompt_messages_def run_with_lifecycle_def)
  let ?run = "run_agent_loop (agent_host c) ms (ag_messages (begin_run a)) ((begin_run a)\<lparr>ag_skip := skip\<rparr>)"
  obtain p s where x: "?run = Some (p, s)"
    using assms no by (auto simp: run_prompt_messages_def run_with_lifecycle_def split: option.splits prod.splits)
  obtain rest where "es = rs_log s @ rest"
    using assms no x
    by (auto simp: run_prompt_messages_def run_with_lifecycle_def handle_run_failure_def Let_def split: phase.splits option.splits)
  with machine_messages [OF run_machine_inv [OF x agent_signal_stays]] show ?thesis by auto
qed

section \<open>Sample clients\<close>

text \<open>
  A client without tools and hooks, whose provider settles each request the same way and whose one
  listener queues a message when a run starts.
\<close>

definition sample_client :: "nat client_response outcome \<Rightarrow> nat client" where
  "sample_client response =
     \<lparr>cl_listeners = [\<lambda>e a. (case e of AgentStart \<Rightarrow> [FollowUp [user_msg [TextPart (js ''more'') None]]] | _ \<Rightarrow> [], Suc (ag_env a))],
      cl_now = (\<lambda>_. 0), cl_uuid = (\<lambda>_. []), cl_pick = (\<lambda>_ _. 0), cl_diagnostics = (\<lambda>_ _. []),
      cl_model = \<lparr>lm_api = [], lm_provider = [], lm_id = []\<rparr>, cl_tools = [], cl_sequential = False,
      cl_system = (\<lambda>_. []), cl_validate = (\<lambda>_ j. Inr j), cl_before = None, cl_after = None, cl_transform = None,
      cl_convert = None, cl_key = None, cl_stream = (\<lambda>_ a. (response, [], ag_env a)), cl_router = None,
      cl_max_reflexes = None, cl_continuation = None, cl_stop_after = None, cl_stop_before = None\<rparr>"

definition answering_client :: "nat client" where
  "answering_client = sample_client (Value \<lparr>cr_next = [], cr_result = (\<lambda>a. (Value (plain_answer [] Stop), [], ag_env a))\<rparr>)"

definition failing_client :: "nat client" where
  "failing_client = sample_client (Failure (js ''no key''))"

definition new_agent :: "nat agent" where
  "new_agent =
     \<lparr>ag_messages = [], ag_streaming = False, ag_partial = None, ag_calls = {}, ag_error = None,
      ag_steering = \<lparr>pq_mode = OneAtATime, pq_batches = []\<rparr>, ag_follow_up = \<lparr>pq_mode = OneAtATime, pq_batches = []\<rparr>,
      ag_active = False, ag_aborted = False, ag_skip = False, ag_env = 0\<rparr>"

lemma answering_run:
  "map_option (\<lambda>(e, a, es). (e, ended_messages es)) (prompt answering_client (Messages sample_prompt) new_agent) =
   Some (None, sample_prompt @ [Assistant (plain_answer [] Stop), user_msg [TextPart (js ''more'') None], Assistant (plain_answer [] Stop)])"
  by code_simp

lemma failing_run:
  "map_option fst (run_agent_loop (agent_host failing_client) sample_prompt [] ((begin_run new_agent)\<lparr>ag_skip := False\<rparr>))
   = Some (Finished (Some (js ''no key'')))"
  by code_simp

section \<open>Properties\<close>



text \<open>
  C7. A prompt appends to the transcript exactly the messages its run reported, the prompt first, and
  leaves the agent idle: no run, no message being streamed, no open tool call.
\<close>

theorem prompt_appends_the_messages_of_its_run:
  assumes "prompt c input a = Some (None, a', es)"
  shows "ag_messages a' = ag_messages a @ ended_messages es \<and> idle a'
    \<and> (\<exists>ms. ended_messages es = normalize_prompt_input c input a @ ms)"
proof -
  have r: "run_prompt_messages c False (normalize_prompt_input c input a) a = Some (None, a', es)"
    using assms by (auto simp: prompt_def split: if_splits)
  from prompt_run_appends [OF r] prompt_run_begins [OF r] show ?thesis by simp
qed

theorem prompt_appends_the_messages_of_its_run_witness:
  "\<exists>a es. prompt answering_client (Messages sample_prompt) new_agent = Some (None, a, es)
     \<and> ag_messages a = sample_prompt @ [Assistant (plain_answer [] Stop), user_msg [TextPart (js ''more'') None], Assistant (plain_answer [] Stop)]"
proof -
  from answering_run obtain a es where r: "prompt answering_client (Messages sample_prompt) new_agent = Some (None, a, es)"
    and es: "ended_messages es =
      sample_prompt @ [Assistant (plain_answer [] Stop), user_msg [TextPart (js ''more'') None], Assistant (plain_answer [] Stop)]"
    by auto
  from prompt_appends_the_messages_of_its_run [OF r] r es show ?thesis by (simp add: new_agent_def)
qed

text \<open>
  A run that throws still ends with \<open>agent_end\<close>, but that event carries the failure message alone,
  not the messages of the run, although all of them are in the transcript.
\<close>

theorem a_failed_run_reports_only_its_failure:
  assumes "\<not> ag_active a"
    "run_agent_loop (agent_host c) ms (ag_messages a) ((begin_run a)\<lparr>ag_skip := False\<rparr>) = Some (Finished (Some t), s)"
  shows "\<exists>a' es m. prompt c (Messages ms) a = Some (None, a', es) \<and> am_error m = Some t
    \<and> last es = AgentEnd [Assistant m] \<and> filter is_agent_end es = [AgentEnd [Assistant m]]
    \<and> ag_messages a' = ag_messages a @ rs_new s @ [Assistant m]"
proof -
  let ?m = "failure_message c t (rs_world s)"
  let ?a = "end_run (fold (process_events c) (failure_events ?m) ((rs_world s)\<lparr>ag_error := Some t\<rparr>))"
  let ?es = "rs_log s @ failure_events ?m"
  have b: "ag_messages (begin_run a) = ag_messages a" by (simp add: begin_run_def)
  have p: "prompt c (Messages ms) a = Some (None, ?a, ?es)"
    using assms by (simp add: prompt_def run_prompt_messages_def run_with_lifecycle_def handle_run_failure_def Let_def b)
  have inv: "machine_inv (agent_host c) ms (Finished (Some t), s)"
    by (rule run_machine_inv [OF assms(2) agent_signal_stays])
  then have "filter is_agent_end ?es = [AgentEnd [Assistant ?m]]" by (simp add: failure_events_def invs)
  moreover have "ag_messages ?a = ag_messages a @ rs_new s @ [Assistant ?m]"
    using prompt_run_appends p machine_messages [OF inv] assms(1)
    by (fastforce simp: prompt_def)
  moreover have "last ?es = AgentEnd [Assistant ?m]" "am_error ?m = Some t"
    by (simp_all add: failure_events_def failure_message_def)
  ultimately show ?thesis using p by blast
qed

theorem a_failed_run_reports_only_its_failure_witness:
  "\<exists>a es m. prompt failing_client (Messages sample_prompt) new_agent = Some (None, a, es)
     \<and> last es = AgentEnd [Assistant m] \<and> (\<exists>ms. ag_messages a = sample_prompt @ ms @ [Assistant m])"
proof -
  have no: "\<not> ag_active new_agent" "ag_messages new_agent = []" by (simp_all add: new_agent_def)
  from failing_run obtain s where s: "run_agent_loop (agent_host failing_client) sample_prompt (ag_messages new_agent)
      ((begin_run new_agent)\<lparr>ag_skip := False\<rparr>) = Some (Finished (Some (js ''no key'')), s)"
    by (auto simp: no)
  from a_failed_run_reports_only_its_failure [OF no(1) s] obtain a es m
    where r: "prompt failing_client (Messages sample_prompt) new_agent = Some (None, a, es)" "last es = AgentEnd [Assistant m]"
      "ag_messages a = rs_new s @ [Assistant m]" by (auto simp: no)
  moreover from machine_messages [OF run_machine_inv [OF s agent_signal_stays]] obtain ms where "rs_new s = sample_prompt @ ms"
    by blast
  ultimately show ?thesis by auto
qed

text \<open>
  \<open>continue()\<close> throws exactly when a run is active or there is nothing to go on from: the transcript
  is empty or ends with an answer, and no message is queued. It then changes nothing.
\<close>

theorem continue_refuses_without_work:
  assumes "solid (ag_steering a)" "solid (ag_follow_up a)"
  shows "(continue_run c a = Some (Some e, a', es)) =
    (a' = a \<and> es = [] \<and>
     (if ag_active a then e = Busy
      else e = NothingToContinue \<and> \<not> has_queued_messages a
        \<and> (case rev (ag_messages a) of Assistant _ # _ \<Rightarrow> True | [] \<Rightarrow> True | _ \<Rightarrow> False)))"
proof -
  have run: "run_prompt_messages c skip ms b \<noteq> Some (Some f, x)" if "\<not> ag_active b" for skip ms b f x
    using that by (auto simp: run_prompt_messages_def run_with_lifecycle_def split: option.splits prod.splits phase.splits)
  have cont: "run_continuation c b \<noteq> Some (Some f, x)" if "\<not> ag_active b" for b f x
    using that by (auto simp: run_continuation_def run_with_lifecycle_def split: option.splits prod.splits phase.splits)
  have empty: "drain q = ([], q)" if "\<not> has_items q" for q
    using that by (cases "pq_mode q") (simp_all add: has_items_def drain_def)
  have taken: "fst (drain q) \<noteq> []" if "solid q" "has_items q" for q
    using that by (cases "pq_mode q"; cases "pq_batches q") (auto simp: has_items_def solid_def drain_def)
  have queued: "(run_queued_messages c otherwise a = Some (Some e, a', es)) =
      (\<not> has_queued_messages a \<and> otherwise a = Some (Some e, a', es))" if "\<not> ag_active a" for otherwise
  proof -
    obtain ms q ns r where d: "drain (ag_steering a) = (ms, q)" "drain (ag_follow_up a) = (ns, r)" by fastforce
    have same: "a\<lparr>ag_steering := ag_steering a, ag_follow_up := ag_follow_up a\<rparr> = a" by simp
    show ?thesis
      using that d empty taken [OF assms(1)] taken [OF assms(2)] run
      by (cases "has_items (ag_steering a)"; cases "has_items (ag_follow_up a)")
        (auto simp: run_queued_messages_def has_queued_messages_def)
  qed
  show ?thesis
  proof (cases "ag_messages a" rule: rev_cases)
    case Nil
    then show ?thesis using queued by (auto simp: continue_run_def)
  next
    case (snoc ms m)
    then show ?thesis using queued cont by (cases m) (auto simp: continue_run_def)
  qed
qed

theorem continue_refuses_without_work_witness:
  "continue_run answering_client new_agent = Some (Some NothingToContinue, new_agent, [])"
  by (subst continue_refuses_without_work) (simp_all add: new_agent_def solid_def has_queued_messages_def has_items_def)

text \<open>
  A run that \<open>continue()\<close> starts with a batch of the steering queue does not take another one
  before its first answer: its first poll finds nothing and leaves the queue as it was.
\<close>

theorem continue_steers_one_batch:
  "fst (poll_messages_unless_aborted (agent_host c) (ho_steering (agent_host c))
          (start_run (agent_host c) ms base (a\<lparr>ag_skip := True\<rparr>))) = Value []
   \<and> ag_steering (rs_world (snd (poll_messages_unless_aborted (agent_host c) (ho_steering (agent_host c))
          (start_run (agent_host c) ms base (a\<lparr>ag_skip := True\<rparr>)))))
     = ag_steering (rs_world (start_run (agent_host c) ms base (a\<lparr>ag_skip := True\<rparr>)))"
proof -
  let ?h = "agent_host c"
  have emit: "ag_skip (rs_world (emit ?h e s)) = ag_skip (rs_world s)" for e s
    using visible_fields(7) [OF process_visible [of c e]] visible_fields(7) [OF reduce_visible]
    by (cases e) (simp_all add: emit_def agent_host_def split: option.split)
  have "ag_skip (rs_world (fold (emit_message ?h) ms s)) = ag_skip (rs_world s)" for s
    by (induction ms arbitrary: s) (simp_all add: emit_message_def emit)
  then have skip: "ag_skip (rs_world (start_run ?h ms base (a\<lparr>ag_skip := True\<rparr>)))"
    by (simp add: start_run_def emit Let_def fresh_run_def)
  show ?thesis
    using skip by (simp add: poll_messages_unless_aborted_def signal_raised_def await_def race_def get_steering_messages_def agent_host_def)
qed

text \<open>
  The queues of an agent are first in, first out. Whatever is enqueued and drained in whatever
  order, what the drains handed out is a prefix of what was in the queue and what was enqueued, and
  the rest is still there: no message is lost, doubled or overtaken.
\<close>

theorem queues_are_first_in_first_out:
  assumes "queue.history q given taken q'"
  shows "queue_content q @ given = taken @ queue_content q'"
  by (rule queue.history_conserves [OF assms])

theorem queues_are_first_in_first_out_witness:
  "queue_content \<lparr>pq_mode = OneAtATime, pq_batches = []\<rparr> @ ([] @ sample_prompt) @ [user_msg []] =
   ([] @ sample_prompt) @ queue_content \<lparr>pq_mode = OneAtATime, pq_batches = [[user_msg []]]\<rparr>"
proof (rule queues_are_first_in_first_out)
  let ?q = "\<lparr>pq_mode = OneAtATime, pq_batches = []\<rparr>"
  have "queue.history ?q (([] @ sample_prompt) @ [user_msg []]) [] (enqueue [user_msg []] (enqueue sample_prompt ?q))"
    by (intro queue.given queue.untouched)
  from queue.taken [OF this, of sample_prompt "\<lparr>pq_mode = OneAtATime, pq_batches = [[user_msg []]]\<rparr>"]
  show "queue.history ?q (([] @ sample_prompt) @ [user_msg []]) ([] @ sample_prompt)
      \<lparr>pq_mode = OneAtATime, pq_batches = [[user_msg []]]\<rparr>"
    by (simp add: drain_def enqueue_def sample_prompt_def)
qed

end
