(* ===== verification/EditDiff.thy ===== *)
theory EditDiff
  imports JsValues "HOL-Library.Sublist" "HOL-Library.Multiset"
begin

text \<open>
  The text side of the edit tool (coding-agent/src/core/tools/edit-diff.ts and the body of \<open>execute\<close>
  in edit.ts): line endings, finding the text to replace, applying a batch of edits, and the diff that
  is shown. Unicode compatibility normalization (\<open>normalize("NFKC")\<close>) and the line diff of the package
  diff are arguments.
\<close>

section \<open>Line endings\<close>

abbreviation return_unit :: code_unit where
  "return_unit \<equiv> 13"

fun join_crlf :: "jstring \<Rightarrow> jstring" where
  "join_crlf (c # d # s) = (if c = return_unit \<and> d = newline then newline # join_crlf s else c # join_crlf (d # s))"
| "join_crlf s = s"

definition normalize_to_lf :: "jstring \<Rightarrow> jstring" where
  "normalize_to_lf s = map (\<lambda>c. if c = return_unit then newline else c) (join_crlf s)"

datatype line_ending = Lf | CrLf

fun find_sub :: "jstring \<Rightarrow> jstring \<Rightarrow> nat option" where
  "find_sub p [] = (if p = [] then Some 0 else None)"
| "find_sub p (c # s) = (if prefix p (c # s) then Some 0 else map_option Suc (find_sub p s))"

definition detect_line_ending :: "jstring \<Rightarrow> line_ending" where
  "detect_line_ending s =
     (case find_sub [newline] s of
        None \<Rightarrow> Lf
      | Some lf \<Rightarrow> (case find_sub [return_unit, newline] s of None \<Rightarrow> Lf | Some crlf \<Rightarrow> if crlf < lf then CrLf else Lf))"

definition restore_line_endings :: "jstring \<Rightarrow> line_ending \<Rightarrow> jstring" where
  "restore_line_endings s e =
     (case e of CrLf \<Rightarrow> concat (map (\<lambda>c. if c = newline then [return_unit, newline] else [c]) s) | Lf \<Rightarrow> s)"

definition byte_order_mark :: code_unit where
  "byte_order_mark = 0xFEFF"

definition strip_bom :: "jstring \<Rightarrow> jstring \<times> jstring" where
  "strip_bom s = (case s of c # t \<Rightarrow> if c = byte_order_mark then ([c], t) else ([], s) | [] \<Rightarrow> ([], s))"

section \<open>Finding a text\<close>

definition trim_end :: "jstring \<Rightarrow> jstring" where
  "trim_end s = rev (dropWhile js_space (rev s))"

definition ascii_unit :: "code_unit \<Rightarrow> code_unit" where
  "ascii_unit c =
     (if c \<in> {0x2018, 0x2019, 0x201A, 0x201B} then 0x27
      else if c \<in> {0x201C, 0x201D, 0x201E, 0x201F} then 0x22
      else if c \<in> {0x2010, 0x2011, 0x2012, 0x2013, 0x2014, 0x2015, 0x2212} then 0x2D
      else if c = 0xA0 \<or> 0x2002 \<le> c \<and> c \<le> 0x200A \<or> c \<in> {0x202F, 0x205F, 0x3000} then 0x20
      else c)"

definition normalize_for_fuzzy_match :: "(jstring \<Rightarrow> jstring) \<Rightarrow> jstring \<Rightarrow> jstring" where
  "normalize_for_fuzzy_match nfkc s = map ascii_unit (join_with [newline] (map trim_end (split_on newline (nfkc s))))"

record fuzzy_match =
  fm_found :: bool
  fm_index :: int
  fm_length :: nat
  fm_fuzzy :: bool
  fm_content :: jstring

definition fuzzy_find_text :: "(jstring \<Rightarrow> jstring) \<Rightarrow> jstring \<Rightarrow> jstring \<Rightarrow> fuzzy_match" where
  "fuzzy_find_text nfkc content old =
     (case find_sub old content of
        Some i \<Rightarrow> \<lparr>fm_found = True, fm_index = int i, fm_length = length old, fm_fuzzy = False, fm_content = content\<rparr>
      | None \<Rightarrow>
          let fuzzy_content = normalize_for_fuzzy_match nfkc content; fuzzy_old = normalize_for_fuzzy_match nfkc old in
          (case find_sub fuzzy_old fuzzy_content of
             None \<Rightarrow> \<lparr>fm_found = False, fm_index = - 1, fm_length = 0, fm_fuzzy = False, fm_content = content\<rparr>
           | Some i \<Rightarrow> \<lparr>fm_found = True, fm_index = int i, fm_length = length fuzzy_old, fm_fuzzy = True,
                        fm_content = fuzzy_content\<rparr>))"

text \<open>\<open>s.split(p).length - 1\<close>: occurrences that do not overlap, and for an empty \<open>p\<close> the code units.\<close>

function count_sub :: "jstring \<Rightarrow> jstring \<Rightarrow> nat" where
  "count_sub p s =
     (if p = [] \<or> s = [] then 0
      else if prefix p s then Suc (count_sub p (drop (length p) s)) else count_sub p (tl s))"
  by pat_completeness auto
termination
  by (relation "measure (\<lambda>(p, s). length s)") auto

declare count_sub.simps [simp del]

definition split_count :: "jstring \<Rightarrow> jstring \<Rightarrow> int" where
  "split_count p s = (if p = [] then int (length s) - 1 else int (count_sub p s))"

definition count_occurrences :: "(jstring \<Rightarrow> jstring) \<Rightarrow> jstring \<Rightarrow> jstring \<Rightarrow> int" where
  "count_occurrences nfkc content old =
     split_count (normalize_for_fuzzy_match nfkc old) (normalize_for_fuzzy_match nfkc content)"

section \<open>Applying edits\<close>

record edit =
  ed_old :: jstring
  ed_new :: jstring

record matched_edit =
  me_edit :: nat
  me_index :: nat
  me_length :: nat
  me_new :: jstring

datatype edit_error =
    EmptyOldText nat nat
  | NotFound nat nat
  | Duplicate nat nat int
  | Overlap nat nat
  | NoChange nat

fun edit_error_message :: "jstring \<Rightarrow> edit_error \<Rightarrow> jstring" where
  "edit_error_message path (NotFound i n) =
     (if n = 1 then js ''Could not find the exact text in '' @ path @ js ''. The old text must match exactly including all whitespace and newlines.''
      else js ''Could not find edits['' @ dec_nat i @ js ''] in '' @ path @ js ''. The oldText must match exactly including all whitespace and newlines.'')"
| "edit_error_message path (Duplicate i n k) =
     (if n = 1 then js ''Found '' @ dec_int k @ js '' occurrences of the text in '' @ path @ js ''. The text must be unique. Please provide more context to make it unique.''
      else js ''Found '' @ dec_int k @ js '' occurrences of edits['' @ dec_nat i @ js ''] in '' @ path @ js ''. Each oldText must be unique. Please provide more context to make it unique.'')"
| "edit_error_message path (EmptyOldText i n) =
     (if n = 1 then js ''oldText must not be empty in '' @ path @ js ''.''
      else js ''edits['' @ dec_nat i @ js ''].oldText must not be empty in '' @ path @ js ''.'')"
| "edit_error_message path (NoChange n) =
     (if n = 1 then js ''No changes made to '' @ path @ js ''. The replacement produced identical content. This might indicate an issue with special characters or the text not existing as expected.''
      else js ''No changes made to '' @ path @ js ''. The replacements produced identical content.'')"
| "edit_error_message path (Overlap i j) =
     js ''edits['' @ dec_nat i @ js ''] and edits['' @ dec_nat j @ js ''] overlap in '' @ path @ js ''. Merge them into one edit or target disjoint regions.''"

definition normalize_edit :: "edit \<Rightarrow> edit" where
  "normalize_edit e = \<lparr>ed_old = normalize_to_lf (ed_old e), ed_new = normalize_to_lf (ed_new e)\<rparr>"

definition match_edit :: "(jstring \<Rightarrow> jstring) \<Rightarrow> jstring \<Rightarrow> nat \<Rightarrow> nat \<Rightarrow> edit \<Rightarrow> edit_error + matched_edit" where
  "match_edit nfkc base n i e =
     (let r = fuzzy_find_text nfkc base (ed_old e); k = count_occurrences nfkc base (ed_old e) in
      if \<not> fm_found r then Inl (NotFound i n)
      else if k > 1 then Inl (Duplicate i n k)
      else Inr \<lparr>me_edit = i, me_index = nat (fm_index r), me_length = fm_length r, me_new = ed_new e\<rparr>)"

fun match_edits :: "(jstring \<Rightarrow> jstring) \<Rightarrow> jstring \<Rightarrow> nat \<Rightarrow> nat \<Rightarrow> edit list \<Rightarrow> edit_error + matched_edit list" where
  "match_edits nfkc base n i [] = Inr []"
| "match_edits nfkc base n i (e # es) =
     (case match_edit nfkc base n i e of
        Inl err \<Rightarrow> Inl err
      | Inr m \<Rightarrow> (case match_edits nfkc base n (Suc i) es of Inl err \<Rightarrow> Inl err | Inr ms \<Rightarrow> Inr (m # ms)))"

fun find_overlap :: "matched_edit list \<Rightarrow> edit_error option" where
  "find_overlap (a # b # ms) =
     (if me_index a + me_length a > me_index b then Some (Overlap (me_edit a) (me_edit b)) else find_overlap (b # ms))"
| "find_overlap _ = None"

definition replace_range :: "matched_edit \<Rightarrow> jstring \<Rightarrow> jstring" where
  "replace_range m s = take (me_index m) s @ me_new m @ drop (me_index m + me_length m) s"

text \<open>The loop runs from the last match to the first.\<close>

definition replace_matches :: "matched_edit list \<Rightarrow> jstring \<Rightarrow> jstring" where
  "replace_matches ms s = foldr replace_range ms s"

definition apply_edits :: "(jstring \<Rightarrow> jstring) \<Rightarrow> jstring \<Rightarrow> edit list \<Rightarrow> edit_error + jstring \<times> jstring" where
  "apply_edits nfkc content edits =
     (let es = map normalize_edit edits; n = length es in
      case first_index (\<lambda>e. ed_old e = []) es of
        Some i \<Rightarrow> Inl (EmptyOldText i n)
      | None \<Rightarrow>
          (let base = (if list_ex (\<lambda>e. fm_fuzzy (fuzzy_find_text nfkc content (ed_old e))) es
                       then normalize_for_fuzzy_match nfkc content else content)
           in case match_edits nfkc base n 0 es of
                Inl err \<Rightarrow> Inl err
              | Inr ms \<Rightarrow>
                  (let sorted = sort_key me_index ms
                   in case find_overlap sorted of
                        Some err \<Rightarrow> Inl err
                      | None \<Rightarrow>
                          (let new = replace_matches sorted base
                           in if base = new then Inl (NoChange n) else Inr (base, new)))))"

text \<open>The body of the tool: what is written for a file that reads as \<open>raw\<close>.\<close>

definition edit_file :: "(jstring \<Rightarrow> jstring) \<Rightarrow> jstring \<Rightarrow> edit list \<Rightarrow> edit_error + jstring" where
  "edit_file nfkc raw edits =
     (case strip_bom raw of (bom, content) \<Rightarrow>
        (case apply_edits nfkc (normalize_to_lf content) edits of
           Inl err \<Rightarrow> Inl err
         | Inr (base, new) \<Rightarrow> Inr (bom @ restore_line_endings new (detect_line_ending content))))"

section \<open>The diff\<close>

datatype part_kind = Added | Removed | Same

record diff_part =
  dp_kind :: part_kind
  dp_value :: jstring

datatype diff_line = Shown part_kind nat jstring | Gap

definition part_lines :: "diff_part \<Rightarrow> jstring list" where
  "part_lines p = (let raw = split_on newline (dp_value p) in if last raw = [] then butlast raw else raw)"

text \<open>The lines \<open>ls\<close> from number \<open>n\<close> on.\<close>

definition numbered :: "part_kind \<Rightarrow> nat \<Rightarrow> jstring list \<Rightarrow> diff_line list" where
  "numbered k n ls = map (\<lambda>(i, l). Shown k i l) (enumerate n ls)"

definition unchanged_lines :: "nat \<Rightarrow> bool \<Rightarrow> bool \<Rightarrow> nat \<Rightarrow> jstring list \<Rightarrow> diff_line list" where
  "unchanged_lines ctx leading trailing n raw =
     (if leading \<and> trailing then
        if length raw \<le> ctx * 2 then numbered Same n raw
        else numbered Same n (take ctx raw) @ [Gap] @ numbered Same (n + (length raw - ctx)) (drop (length raw - ctx) raw)
      else if leading then
        numbered Same n (take ctx raw) @ (if length raw > ctx then [Gap] else [])
      else if trailing then
        (if length raw > ctx then [Gap] else []) @ numbered Same (n + (length raw - ctx)) (drop (length raw - ctx) raw)
      else [])"

fun diff_loop :: "nat \<Rightarrow> diff_part list \<Rightarrow> nat \<Rightarrow> nat \<Rightarrow> bool \<Rightarrow> diff_line list" where
  "diff_loop ctx [] old_n new_n last_change = []"
| "diff_loop ctx (p # ps) old_n new_n last_change =
     (let raw = part_lines p; k = length raw in
      case dp_kind p of
        Added \<Rightarrow> numbered Added new_n raw @ diff_loop ctx ps old_n (new_n + k) True
      | Removed \<Rightarrow> numbered Removed old_n raw @ diff_loop ctx ps (old_n + k) new_n True
      | Same \<Rightarrow>
          unchanged_lines ctx last_change (case ps of q # _ \<Rightarrow> dp_kind q \<noteq> Same | [] \<Rightarrow> False) old_n raw
          @ diff_loop ctx ps (old_n + k) (new_n + k) False)"

fun first_changed_line :: "diff_part list \<Rightarrow> nat \<Rightarrow> nat option" where
  "first_changed_line [] n = None"
| "first_changed_line (p # ps) n =
     (if dp_kind p = Same then first_changed_line ps (n + length (part_lines p)) else Some n)"

definition pad_start :: "nat \<Rightarrow> jstring \<Rightarrow> jstring" where
  "pad_start w s = replicate (w - length s) 32 @ s"

fun render_line :: "nat \<Rightarrow> diff_line \<Rightarrow> jstring" where
  "render_line w (Shown k n l) =
     (case k of Added \<Rightarrow> [43] | Removed \<Rightarrow> [45] | Same \<Rightarrow> [32]) @ pad_start w (dec_nat n) @ [32] @ l"
| "render_line w Gap = [32] @ pad_start w [] @ js '' ...''"

definition generate_diff_string ::
  "(jstring \<Rightarrow> jstring \<Rightarrow> diff_part list) \<Rightarrow> jstring \<Rightarrow> jstring \<Rightarrow> nat \<Rightarrow> nat \<Rightarrow> jstring \<times> nat option" where
  "generate_diff_string diff_lines old new ctx start =
     (let parts = diff_lines old new;
          width = length (dec_int (int start - 1 + int (max (length (split_on newline old)) (length (split_on newline new)))))
      in (join_with [newline] (map (render_line width) (diff_loop ctx parts start start False)),
          first_changed_line parts start))"

end
