(* ===== verification/EditDiffProps.thy ===== *)
theory EditDiffProps
  imports EditDiff
begin

text \<open>
  Properties of the edit tool: line endings survive, a batch of edits replaces disjoint regions and
  nothing between them, and the diff shows the lines it says it shows.
\<close>

section \<open>Line endings\<close>

lemma join_crlf_plain: "return_unit \<notin> set s \<Longrightarrow> join_crlf s = s"
  by (induction s rule: join_crlf.induct) auto

lemma join_crlf_restored:
  "return_unit \<notin> set s \<Longrightarrow> join_crlf (concat (map (\<lambda>c. if c = newline then [return_unit, newline] else [c]) s)) = s"
proof (induction s)
  case (Cons c s)
  then show ?case
    by (cases "concat (map (\<lambda>c. if c = newline then [return_unit, newline] else [c]) s)") auto
qed simp

lemma map_return_plain: "return_unit \<notin> set s \<Longrightarrow> map (\<lambda>c. if c = return_unit then newline else c) s = s"
  by (induction s) auto

lemma normalize_restored:
  assumes "return_unit \<notin> set s"
  shows "normalize_to_lf (restore_line_endings s e) = s"
  using assms by (cases e)
    (simp_all add: normalize_to_lf_def restore_line_endings_def join_crlf_restored join_crlf_plain map_return_plain)

lemma normalized_no_return: "return_unit \<notin> set (normalize_to_lf s)"
  by (auto simp: normalize_to_lf_def)

lemma find_sub_None_iff: "find_sub [c] s = None \<longleftrightarrow> c \<notin> set s"
  by (induction s) auto

lemma find_crlf_None: "return_unit \<notin> set s \<Longrightarrow> find_sub [return_unit, newline] s = None"
  by (induction s) auto

lemma find_restored:
  assumes "return_unit \<notin> set s" "newline \<in> set s"
  shows "\<exists>i. find_sub [return_unit, newline] (restore_line_endings s CrLf) = Some i
    \<and> find_sub [newline] (restore_line_endings s CrLf) = Some (Suc i)"
  using assms by (induction s) (auto simp: restore_line_endings_def)

lemma detect_restored:
  assumes "return_unit \<notin> set s" "newline \<in> set s"
  shows "detect_line_ending (restore_line_endings s e) = e"
proof (cases e)
  case Lf
  then show ?thesis
    using find_crlf_None [OF assms(1)] by (simp add: detect_line_ending_def restore_line_endings_def split: option.split)
next
  case CrLf
  then show ?thesis using find_restored [OF assms] by (auto simp: detect_line_ending_def)
qed

lemma restore_single_line: "newline \<notin> set s \<Longrightarrow> restore_line_endings s e = s"
  by (induction s) (auto simp: restore_line_endings_def split: line_ending.split)

section \<open>Finding\<close>

lemma find_sub_Some:
  "find_sub p s = Some i \<Longrightarrow> i + length p \<le> length s \<and> take (length p) (drop i s) = p"
proof (induction s arbitrary: i)
  case (Cons c s)
  show ?case
  proof (cases "prefix p (c # s)")
    case True
    then show ?thesis using Cons.prems prefix_length_le [OF True] by (auto simp: prefix_def)
  qed (use Cons in auto)
qed (simp split: if_splits)

lemma find_sub_Nil [simp]: "find_sub [] s = Some 0"
  by (cases s) simp_all

section \<open>Normalization is idempotent\<close>

text \<open>What the code relies on: compatibility normalization leaves the normal form alone.\<close>

definition stable :: "(jstring \<Rightarrow> jstring) \<Rightarrow> bool" where
  "stable nfkc \<longleftrightarrow> (\<forall>s. nfkc (normalize_for_fuzzy_match nfkc s) = normalize_for_fuzzy_match nfkc s)"

lemma ascii_unit_idem [simp]: "ascii_unit (ascii_unit c) = ascii_unit c"
  by (simp add: ascii_unit_def)

lemma ascii_unit_newline [simp]: "ascii_unit c = newline \<longleftrightarrow> c = newline"
  by (cases "c = newline") (simp_all add: ascii_unit_def)

lemma ascii_unit_space: "js_space (ascii_unit c) \<Longrightarrow> js_space c"
proof -
  have range: "js_space c" if "0x2002 \<le> c" "c \<le> 0x200A"
  proof -
    have "(0x2000 :: code_unit) \<le> 0x2002" by simp
    from order.trans [OF this that(1)] that(2) show ?thesis by (simp add: js_space_def)
  qed
  assume "js_space (ascii_unit c)"
  then show "js_space c"
    by (auto simp: ascii_unit_def split: if_splits intro: range) (auto simp: js_space_def)
qed

lemma split_map_ascii: "split_on newline (map ascii_unit s) = map (map ascii_unit) (split_on newline s)"
  by (induction s) (auto split: list.splits)

lemma join_map_ascii: "join_with [newline] (map (map ascii_unit) ls) = map ascii_unit (join_with [newline] ls)"
  by (induction "[newline]" ls rule: join_with.induct) simp_all

lemma trim_end_ascii: "trim_end (map ascii_unit (trim_end l)) = map ascii_unit (trim_end l)"
proof -
  have "dropWhile js_space (map ascii_unit (dropWhile js_space r)) = map ascii_unit (dropWhile js_space r)" for r
    by (induction r) (auto dest: ascii_unit_space)
  then show ?thesis by (simp add: trim_end_def rev_map)
qed

lemma trim_end_keeps_line: "newline \<notin> set l \<Longrightarrow> newline \<notin> set (trim_end l)"
  by (auto simp: trim_end_def dest: set_dropWhileD)

lemma normalize_idem:
  assumes "stable nfkc"
  shows "normalize_for_fuzzy_match nfkc (normalize_for_fuzzy_match nfkc s) = normalize_for_fuzzy_match nfkc s"
proof -
  let ?ls = "map trim_end (split_on newline (nfkc s))"
  have "split_on newline (join_with [newline] ?ls) = ?ls"
    by (rule split_join) (auto dest: split_on_no_sep trim_end_keeps_line)
  then have "split_on newline (normalize_for_fuzzy_match nfkc s) = map (map ascii_unit) ?ls"
    by (simp add: normalize_for_fuzzy_match_def split_map_ascii)
  then have "normalize_for_fuzzy_match nfkc (normalize_for_fuzzy_match nfkc s) =
      map ascii_unit (join_with [newline] (map trim_end (map (map ascii_unit) ?ls)))"
    using assms by (simp add: stable_def normalize_for_fuzzy_match_def [of nfkc "normalize_for_fuzzy_match nfkc s"])
  also have "map trim_end (map (map ascii_unit) ?ls) = map (map ascii_unit) ?ls"
    by (simp add: trim_end_ascii)
  also have "join_with [newline] (map (map ascii_unit) ?ls) = map ascii_unit (join_with [newline] ?ls)"
    by (rule join_map_ascii)
  also have "map ascii_unit (map ascii_unit (join_with [newline] ?ls)) = normalize_for_fuzzy_match nfkc s"
    by (simp add: normalize_for_fuzzy_match_def)
  finally show ?thesis .
qed

section \<open>Replacing\<close>

text \<open>Regions of a text: a gap and a region, over and over, and the rest.\<close>

definition weave :: "('a list \<times> 'a list) list \<Rightarrow> 'a list \<Rightarrow> 'a list" where
  "weave ps rest = concat (map (\<lambda>(gap, region). gap @ region) ps) @ rest"

fun gaps :: "jstring \<Rightarrow> nat \<Rightarrow> matched_edit list \<Rightarrow> jstring list" where
  "gaps base off [] = []"
| "gaps base off (m # ms) = take (me_index m - off) (drop off base) # gaps base (me_index m + me_length m) ms"

fun gap_end :: "nat \<Rightarrow> matched_edit list \<Rightarrow> nat" where
  "gap_end off [] = off"
| "gap_end off (m # ms) = gap_end (me_index m + me_length m) ms"

definition region :: "jstring \<Rightarrow> matched_edit \<Rightarrow> jstring" where
  "region base m = take (me_length m) (drop (me_index m) base)"

text \<open>Matches in order, without an overlap, and inside the text.\<close>

fun disjoint_from :: "jstring \<Rightarrow> nat \<Rightarrow> matched_edit list \<Rightarrow> bool" where
  "disjoint_from base off [] = (off \<le> length base)"
| "disjoint_from base off (m # ms) =
     (off \<le> me_index m \<and> me_index m + me_length m \<le> length base \<and> disjoint_from base (me_index m + me_length m) ms)"

lemma length_gaps [simp]: "length (gaps base off ms) = length ms"
  by (induction ms arbitrary: off) simp_all

lemma drop_split: "i \<le> j \<Longrightarrow> drop i xs = take (j - i) (drop i xs) @ drop j xs"
  by (metis append_take_drop_id drop_drop le_add_diff_inverse2)

lemma weave_Cons: "weave ((g, r) # ps) rest = g @ r @ weave ps rest"
  by (simp add: weave_def)

lemma base_is_woven:
  "disjoint_from base off ms \<Longrightarrow>
   drop off base = weave (zip (gaps base off ms) (map (region base) ms)) (drop (gap_end off ms) base)"
proof (induction ms arbitrary: off)
  case (Cons m ms)
  have "drop off base = take (me_index m - off) (drop off base) @ drop (me_index m) base"
    using Cons.prems by (intro drop_split) simp
  also have "drop (me_index m) base = region base m @ drop (me_index m + me_length m) base"
    using drop_split [of "me_index m" "me_index m + me_length m" base] by (simp add: region_def)
  finally show ?case using Cons.IH [of "me_index m + me_length m"] Cons.prems by (simp add: weave_Cons)
qed (simp add: weave_def)

lemma replaced_is_woven:
  "disjoint_from base off ms \<Longrightarrow>
   replace_matches ms base =
     take off base @ weave (zip (gaps base off ms) (map me_new ms)) (drop (gap_end off ms) base)"
proof (induction ms arbitrary: off)
  case (Cons m ms)
  let ?e = "me_index m + me_length m"
  let ?w = "weave (zip (gaps base ?e ms) (map me_new ms)) (drop (gap_end ?e ms) base)"
  have r: "replace_matches ms base = take ?e base @ ?w" using Cons.IH [of ?e] Cons.prems by simp
  have l: "length (take ?e base) = ?e" using Cons.prems by simp
  have "replace_matches (m # ms) base = replace_range m (take ?e base @ ?w)"
    using r by (simp add: replace_matches_def)
  also have "\<dots> = take (me_index m) base @ me_new m @ ?w"
    using l by (simp add: replace_range_def)
  also have "take (me_index m) base = take off base @ take (me_index m - off) (drop off base)"
    using Cons.prems by (metis disjoint_from.simps(2) le_add_diff_inverse take_add)
  finally show ?case by (simp add: weave_Cons)
qed (simp add: replace_matches_def weave_def)

lemma no_overlap_disjoint:
  assumes "sorted (map me_index ms)" "find_overlap ms = None" "\<And>m. m \<in> set ms \<Longrightarrow> me_index m + me_length m \<le> length base"
  shows "disjoint_from base 0 ms"
proof -
  have "disjoint_from base (me_index m) (m # ns)"
    if "find_overlap (m # ns) = None" "\<And>k. k \<in> set (m # ns) \<Longrightarrow> me_index k + me_length k \<le> length base" for m ns
    using that
  proof (induction ns arbitrary: m)
    case (Cons n ns)
    from Cons.prems(1) have o: "me_index m + me_length m \<le> me_index n" "find_overlap (n # ns) = None"
      by (auto split: if_splits)
    from Cons.IH [OF o(2)] Cons.prems(2) o(1) show ?case by simp
  qed simp
  then show ?thesis using assms(2,3) by (cases ms) (auto simp del: find_overlap.simps)
qed

section \<open>Matching\<close>

text \<open>The text that an edit stands for in the text the edits are applied to.\<close>

definition stands_for :: "(jstring \<Rightarrow> jstring) \<Rightarrow> jstring \<Rightarrow> edit \<Rightarrow> bool" where
  "stands_for nfkc t e \<longleftrightarrow> t = ed_old e \<or> t = normalize_for_fuzzy_match nfkc (ed_old e)"

lemma match_edit_Some:
  assumes "match_edit nfkc base n i e = Inr m"
    "fm_fuzzy (fuzzy_find_text nfkc base (ed_old e)) \<Longrightarrow> normalize_for_fuzzy_match nfkc base = base"
  shows "me_edit m = i \<and> me_new m = ed_new e \<and> me_index m + me_length m \<le> length base
    \<and> stands_for nfkc (region base m) e \<and> count_occurrences nfkc base (ed_old e) \<le> 1"
proof (cases "find_sub (ed_old e) base")
  case None
  let ?old = "normalize_for_fuzzy_match nfkc (ed_old e)" and ?base = "normalize_for_fuzzy_match nfkc base"
  obtain k where k: "find_sub ?old ?base = Some k"
    using assms(1) None by (auto simp: match_edit_def fuzzy_find_text_def Let_def split: option.splits if_splits)
  with None have b: "?base = base" by (intro assms(2)) (simp add: fuzzy_find_text_def Let_def)
  from assms(1) None k have m: "m = \<lparr>me_edit = i, me_index = k, me_length = length ?old, me_new = ed_new e\<rparr>"
    "count_occurrences nfkc base (ed_old e) \<le> 1"
    by (auto simp: match_edit_def fuzzy_find_text_def Let_def split: if_splits)
  from find_sub_Some [OF k [unfolded b]] m show ?thesis by (simp add: region_def stands_for_def)
next
  case (Some k)
  with assms(1) find_sub_Some [OF Some] show ?thesis
    by (auto simp: match_edit_def fuzzy_find_text_def region_def stands_for_def Let_def split: if_splits)
qed

lemma match_edits_Some:
  assumes "match_edits nfkc base n i es = Inr ms"
    "\<And>e. e \<in> set es \<Longrightarrow> fm_fuzzy (fuzzy_find_text nfkc base (ed_old e)) \<Longrightarrow>
      normalize_for_fuzzy_match nfkc base = base"
  shows "list_all2 (\<lambda>m e. me_new m = ed_new e \<and> me_index m + me_length m \<le> length base
    \<and> stands_for nfkc (region base m) e \<and> count_occurrences nfkc base (ed_old e) \<le> 1) ms es"
  using assms
proof (induction es arbitrary: i ms)
  case (Cons e es)
  obtain m ns where m: "match_edit nfkc base n i e = Inr m" "match_edits nfkc base n (Suc i) es = Inr ns" "ms = m # ns"
    using Cons.prems(1) by (auto split: sum.splits)
  have "fm_fuzzy (fuzzy_find_text nfkc base (ed_old e)) \<Longrightarrow> normalize_for_fuzzy_match nfkc base = base"
    by (rule Cons.prems(2) [OF list.set_intros(1)])
  note first = match_edit_Some [OF m(1) this]
  from first Cons.IH [OF m(2) Cons.prems(2) [OF list.set_intros(2)]] show ?case by (simp add: m(3))
qed simp

section \<open>The diff\<close>

definition old_lines :: "diff_part list \<Rightarrow> jstring list" where
  "old_lines ps = concat (map part_lines (filter (\<lambda>p. dp_kind p \<noteq> Added) ps))"

definition new_lines :: "diff_part list \<Rightarrow> jstring list" where
  "new_lines ps = concat (map part_lines (filter (\<lambda>p. dp_kind p \<noteq> Removed) ps))"

text \<open>The texts of the shown lines of a kind.\<close>

fun shown :: "part_kind \<Rightarrow> diff_line list \<Rightarrow> jstring list" where
  "shown k [] = []"
| "shown k (Shown j n t # ls) = (if j = k then t # shown k ls else shown k ls)"
| "shown k (Gap # ls) = shown k ls"

text \<open>A shown line has the number and the text of a line of \<open>ls\<close>, which starts at number \<open>n\<close>.\<close>

definition line_of :: "nat \<Rightarrow> jstring list \<Rightarrow> nat \<Rightarrow> jstring \<Rightarrow> bool" where
  "line_of n ls i t \<longleftrightarrow> n \<le> i \<and> i - n < length ls \<and> ls ! (i - n) = t"

definition right_line :: "nat \<Rightarrow> nat \<Rightarrow> diff_part list \<Rightarrow> diff_line \<Rightarrow> bool" where
  "right_line n m ps l \<longleftrightarrow>
     (case l of Gap \<Rightarrow> True
      | Shown k i t \<Rightarrow> if k = Added then line_of m (new_lines ps) i t else line_of n (old_lines ps) i t)"

lemma shown_append [simp]: "shown k (as @ bs) = shown k as @ shown k bs"
  by (induction k as rule: shown.induct) simp_all

lemma numbered_simps [simp]:
  "numbered j n [] = []" "numbered j n (t # ts) = Shown j n t # numbered j (Suc n) ts"
  by (simp_all add: numbered_def)

lemma shown_numbered [simp]: "shown k (numbered j n raw) = (if j = k then raw else [])"
proof (induction raw arbitrary: n)
  case (Cons t ts)
  from Cons.IH [of "Suc n"] show ?case by (cases "j = k") simp_all
qed simp

lemma shown_unchanged [simp]: "k \<noteq> Same \<Longrightarrow> shown k (unchanged_lines ctx a b n raw) = []"
  by (simp add: unchanged_lines_def)

lemma line_of_append:
  "line_of n ls i t \<Longrightarrow> line_of n (ls @ ms) i t"
  "line_of (n + length ls) ms i t \<Longrightarrow> line_of n (ls @ ms) i t"
  by (auto simp: line_of_def nth_append)

text \<open>Lines of one part, shown with their numbers.\<close>

definition shows_lines :: "part_kind \<Rightarrow> nat \<Rightarrow> jstring list \<Rightarrow> diff_line \<Rightarrow> bool" where
  "shows_lines j n ls l \<longleftrightarrow> (case l of Shown k i t \<Rightarrow> k = j \<and> line_of n ls i t | Gap \<Rightarrow> True)"

lemma numbered_shows: "list_all (shows_lines j n (as @ ls @ bs)) (numbered j (n + length as) ls)"
proof (induction ls arbitrary: as)
  case (Cons t ts)
  from Cons.IH [of "as @ [t]"] show ?case by (simp add: shows_lines_def line_of_def nth_append)
qed simp

lemma numbered_part:
  "list_all (shows_lines j n ls) (numbered j n (take k ls))" "list_all (shows_lines j n ls) (numbered j n ls)"
  "d \<le> length ls \<Longrightarrow> list_all (shows_lines j n ls) (numbered j (n + d) (drop d ls))"
  using numbered_shows [of j n "[]" "take k ls" "drop k ls"] numbered_shows [of j n "[]" ls "[]"]
    numbered_shows [of j n "take d ls" "drop d ls" "[]"]
  by simp_all

lemma unchanged_shows: "list_all (shows_lines Same n raw) (unchanged_lines ctx a b n raw)"
proof -
  have "shows_lines Same n raw Gap" by (simp add: shows_lines_def)
  then show ?thesis
    using numbered_part(3) [of "length raw - ctx" raw Same n]
    by (cases "ctx \<le> length raw") (simp_all add: unchanged_lines_def numbered_part)
qed

lemma shows_right:
  "shows_lines (dp_kind p) (if dp_kind p = Added then m else n) (part_lines p) l \<Longrightarrow> right_line n m (p # ps) l"
  by (cases l) (auto simp: shows_lines_def right_line_def old_lines_def new_lines_def intro: line_of_append split: if_splits)

lemma right_later:
  "right_line (n + (if dp_kind p = Added then 0 else length (part_lines p)))
     (m + (if dp_kind p = Removed then 0 else length (part_lines p))) ps l \<Longrightarrow> right_line n m (p # ps) l"
  by (cases l; cases "dp_kind p")
    (auto simp: right_line_def old_lines_def new_lines_def intro: line_of_append split: if_splits)

lemma diff_loop_right: "list_all (right_line n m ps) (diff_loop ctx ps n m changed)"
proof (induction ps arbitrary: n m changed)
  case (Cons p ps)
  have head: "list_all (right_line n m (p # ps)) ls"
    if "list_all (shows_lines (dp_kind p) (if dp_kind p = Added then m else n) (part_lines p)) ls" for ls
    using that by (rule list.pred_mono_strong) (rule shows_right)
  have rest: "list_all (right_line n m (p # ps))
      (diff_loop ctx ps (n + (if dp_kind p = Added then 0 else length (part_lines p)))
         (m + (if dp_kind p = Removed then 0 else length (part_lines p))) b)" for b
    by (rule list.pred_mono_strong [OF Cons.IH]) (rule right_later)
  show ?case
    using head rest numbered_part(2) unchanged_shows by (cases "dp_kind p") (fastforce simp: Let_def)+
qed simp

lemma diff_loop_shown:
  "shown Removed (diff_loop ctx ps n m changed) = concat (map part_lines (filter (\<lambda>p. dp_kind p = Removed) ps))"
  "shown Added (diff_loop ctx ps n m changed) = concat (map part_lines (filter (\<lambda>p. dp_kind p = Added) ps))"
  by (induction ps arbitrary: n m changed) (auto simp: Let_def split: part_kind.split)

lemma apply_edits_Some:
  assumes "apply_edits nfkc content edits = Inr (base, new)"
  obtains ms where
    "base = (if list_ex (\<lambda>e. fm_fuzzy (fuzzy_find_text nfkc content (ed_old e))) (map normalize_edit edits)
             then normalize_for_fuzzy_match nfkc content else content)"
    "match_edits nfkc base (length edits) 0 (map normalize_edit edits) = Inr ms"
    "find_overlap (sort_key me_index ms) = None" "new = replace_matches (sort_key me_index ms) base" "base \<noteq> new"
proof -
  let ?es = "map normalize_edit edits"
  define b where "b = (if list_ex (\<lambda>e. fm_fuzzy (fuzzy_find_text nfkc content (ed_old e))) ?es
      then normalize_for_fuzzy_match nfkc content else content)"
  show ?thesis
  proof (cases "first_index (\<lambda>e. ed_old e = []) ?es")
    case None
    with assms have a: "(case match_edits nfkc b (length edits) 0 ?es of
        Inl err \<Rightarrow> Inl err
      | Inr ms \<Rightarrow>
          (case find_overlap (sort_key me_index ms) of
             Some err \<Rightarrow> Inl err
           | None \<Rightarrow>
               if b = replace_matches (sort_key me_index ms) b then Inl (NoChange (length edits))
               else Inr (b, replace_matches (sort_key me_index ms) b))) = Inr (base, new)"
      by (simp only: apply_edits_def Let_def length_map option.case b_def)
    then obtain ms where "match_edits nfkc b (length edits) 0 ?es = Inr ms" "find_overlap (sort_key me_index ms) = None"
      "b = base" "replace_matches (sort_key me_index ms) b = new" "b \<noteq> new"
      by (auto split: option.splits sum.splits if_splits)
    with that [of ms] b_def show ?thesis by simp
  qed (use assms in \<open>simp add: apply_edits_def Let_def\<close>)
qed

section \<open>No carriage return comes back\<close>

lemma set_join_with: "set (join_with sep ls) \<subseteq> set sep \<union> \<Union> (set ` set ls)"
  by (induction sep ls rule: join_with.induct) auto

lemma set_split_on: "w \<in> set (split_on c s) \<Longrightarrow> set w \<subseteq> set s"
  by (induction s arbitrary: w) (fastforce split: list.splits if_splits)+

lemma set_trim_end: "set (trim_end s) \<subseteq> set s"
  by (auto simp: trim_end_def dest: set_dropWhileD)

lemma ascii_unit_return: "ascii_unit c = return_unit \<longleftrightarrow> c = return_unit"
  by (cases "c = return_unit") (simp_all add: ascii_unit_def)

lemma normalized_return:
  assumes "return_unit \<notin> set (nfkc s)"
  shows "return_unit \<notin> set (normalize_for_fuzzy_match nfkc s)"
proof -
  let ?ls = "map trim_end (split_on newline (nfkc s))"
  have "\<Union> (set ` set ?ls) \<subseteq> set (nfkc s)"
    using set_split_on set_trim_end by fastforce
  moreover have "set (join_with [newline] ?ls) \<subseteq> insert newline (\<Union> (set ` set ?ls))"
    using set_join_with [of "[newline]" ?ls] by simp
  ultimately have "set (join_with [newline] ?ls) \<subseteq> insert newline (set (nfkc s))" by blast
  then have "return_unit \<notin> set (join_with [newline] ?ls)" using assms by auto
  then show ?thesis
    unfolding normalize_for_fuzzy_match_def set_map using ascii_unit_return by (metis imageE)
qed

lemma replace_return:
  assumes "return_unit \<notin> set s" "\<And>m. m \<in> set ms \<Longrightarrow> return_unit \<notin> set (me_new m)"
  shows "return_unit \<notin> set (replace_matches ms s)"
  using assms(2)
proof (induction ms)
  case (Cons m ms)
  then have "return_unit \<notin> set (replace_matches ms s)" by simp
  with Cons.prems show ?case
    by (auto simp: replace_matches_def replace_range_def dest: in_set_takeD in_set_dropD)
qed (simp add: replace_matches_def assms(1))

lemma match_edits_new:
  "match_edits nfkc base n i es = Inr ms \<Longrightarrow> m \<in> set ms \<Longrightarrow> me_new m \<in> ed_new ` set es"
proof (induction es arbitrary: i ms)
  case (Cons e es)
  then show ?case
    by (auto simp: match_edit_def Let_def split: sum.splits if_splits) blast
qed simp

section \<open>Properties\<close>

text \<open>
  C36. A batch of edits replaces disjoint regions and nothing else. When it succeeds, the text it was
  applied to (the file's text, or its fuzzy normal form) is a sequence of gaps and regions, one
  region for each edit, each region is the text of its edit or the fuzzy normal form of it, and the
  new text has the same gaps with the replacements between them.
\<close>

theorem edits_replace_disjoint_regions:
  assumes "stable nfkc" "apply_edits nfkc content edits = Inr (base, new)"
  shows "base \<in> {content, normalize_for_fuzzy_match nfkc content} \<and> base \<noteq> new \<and>
    (\<exists>gs ts es rest. mset es = mset (map normalize_edit edits) \<and> length gs = length es
       \<and> list_all2 (stands_for nfkc) ts es
       \<and> base = weave (zip gs ts) rest \<and> new = weave (zip gs (map ed_new es)) rest)"
proof -
  let ?es = "map normalize_edit edits"
  let ?fuzzy = "list_ex (\<lambda>e. fm_fuzzy (fuzzy_find_text nfkc content (ed_old e))) ?es"
  from apply_edits_Some [OF assms(2)] obtain ms where
    base: "base = (if ?fuzzy then normalize_for_fuzzy_match nfkc content else content)" and
    ms: "match_edits nfkc base (length edits) 0 ?es = Inr ms" "find_overlap (sort_key me_index ms) = None"
      "new = replace_matches (sort_key me_index ms) base" "base \<noteq> new" .
  have all: "list_all2 (\<lambda>m e. me_new m = ed_new e \<and> me_index m + me_length m \<le> length base
      \<and> stands_for nfkc (region base m) e \<and> count_occurrences nfkc base (ed_old e) \<le> 1) ms ?es"
  proof (rule match_edits_Some [OF ms(1)])
    fix e
    assume e: "e \<in> set ?es" "fm_fuzzy (fuzzy_find_text nfkc base (ed_old e))"
    show "normalize_for_fuzzy_match nfkc base = base"
    proof (cases ?fuzzy)
      case True
      then show ?thesis using normalize_idem [OF assms(1)] by (simp add: base)
    next
      case False
      with e base show ?thesis by (auto simp: list_ex_iff)
    qed
  qed
  have "mset (sort_key me_index ms) = mset ms" by simp
  from list_all2_reorder_left_invariance [OF all this] obtain es where es: "list_all2 (\<lambda>m e. me_new m = ed_new e \<and> me_index m + me_length m \<le> length base
      \<and> stands_for nfkc (region base m) e \<and> count_occurrences nfkc base (ed_old e) \<le> 1) (sort_key me_index ms) es"
    "mset es = mset ?es"
    by blast
  let ?ms = "sort_key me_index ms"
  have d: "disjoint_from base 0 ?ms"
    by (rule no_overlap_disjoint) (use all ms(2) in \<open>auto simp: list_all2_conv_all_nth in_set_conv_nth\<close>)
  have new: "map me_new ?ms = map ed_new es" and len: "length ?ms = length es"
    using es(1) by (auto simp: list_all2_conv_all_nth intro: nth_equalityI)
  have stand: "list_all2 (stands_for nfkc) (map (region base) ?ms) es"
    using es(1) by (auto simp: list_all2_conv_all_nth)
  let ?gs = "gaps base 0 ?ms" and ?rest = "drop (gap_end 0 ?ms) base"
  have w: "base = weave (zip ?gs (map (region base) ?ms)) ?rest" using base_is_woven [OF d] by simp
  have "new = weave (zip ?gs (map ed_new es)) ?rest" using replaced_is_woven [OF d] ms(3) new by simp
  then have "\<exists>gs ts es rest. mset es = mset ?es \<and> length gs = length es \<and> list_all2 (stands_for nfkc) ts es
      \<and> base = weave (zip gs ts) rest \<and> new = weave (zip gs (map ed_new es)) rest"
    using w es(2) len stand by (intro exI [of _ ?gs] exI [of _ "map (region base) ?ms"] exI [of _ es] exI [of _ ?rest]) simp
  then show ?thesis using base ms(4) by auto
qed

text \<open>Samples: a normalization that changes nothing, which is what \<open>NFKC\<close> does to ASCII text.\<close>

definition same_text :: "jstring \<Rightarrow> jstring" where
  "same_text s = s"

lemma same_text_stable: "stable same_text"
  by (simp add: stable_def same_text_def)

definition two_edits :: "edit list" where
  "two_edits = [\<lparr>ed_old = js ''c'', ed_new = js ''C!''\<rparr>, \<lparr>ed_old = js ''a'', ed_new = []\<rparr>]"

lemma two_edits_applied: "apply_edits same_text (js ''abcd'') two_edits = Inr (js ''abcd'', js ''bC!d'')"
  by code_simp

theorem edits_replace_disjoint_regions_witness:
  "\<exists>gs ts es rest. length es = 2 \<and> list_all2 (stands_for same_text) ts es
     \<and> js ''abcd'' = weave (zip gs ts) rest \<and> js ''bC!d'' = weave (zip gs (map ed_new es)) rest"
proof -
  from edits_replace_disjoint_regions [OF same_text_stable two_edits_applied] obtain gs ts es rest
    where r: "mset es = mset (map normalize_edit two_edits)" "list_all2 (stands_for same_text) ts es"
      "js ''abcd'' = weave (zip gs ts) rest" "js ''bC!d'' = weave (zip gs (map ed_new es)) rest" by blast
  from r(1) have "length es = 2" by (metis length_map mset_eq_length length_Cons list.size(3) numeral_2_eq_2 two_edits_def)
  with r show ?thesis by blast
qed

text \<open>
  The line endings of a file survive a round trip through the tool: normalizing a text whose
  lines all end alike and restoring its ending gives the text back.
\<close>

theorem line_endings_survive:
  assumes "return_unit \<notin> set t"
  shows "restore_line_endings (normalize_to_lf (restore_line_endings t e)) (detect_line_ending (restore_line_endings t e))
    = restore_line_endings t e"
proof (cases "newline \<in> set t")
  case True
  then show ?thesis using assms by (simp add: normalize_restored detect_restored)
next
  case False
  then show ?thesis using assms normalize_restored [OF assms, of Lf] by (simp add: restore_single_line)
qed

theorem line_endings_survive_witness:
  "restore_line_endings (normalize_to_lf (js ''a'' @ [13, 10] @ js ''b'')) (detect_line_ending (js ''a'' @ [13, 10] @ js ''b''))
   = js ''a'' @ [13, 10] @ js ''b''"
  using line_endings_survive [of "js ''a'' @ [10] @ js ''b''" CrLf] by (simp add: restore_line_endings_def)

text \<open>
  An edit rewrites every line ending of its file. Whatever mix of endings the file had, the text
  written has one ending throughout, that of the first line, also in the lines no edit touches.
\<close>

theorem an_edit_rewrites_every_line_ending:
  assumes "\<And>s. return_unit \<notin> set s \<Longrightarrow> return_unit \<notin> set (nfkc s)" "edit_file nfkc raw edits = Inr out"
  shows "\<exists>t. return_unit \<notin> set t \<and> out = fst (strip_bom raw) @ restore_line_endings t (detect_line_ending (snd (strip_bom raw)))"
proof -
  obtain bom content where b: "strip_bom raw = (bom, content)" by fastforce
  obtain base new where a: "apply_edits nfkc (normalize_to_lf content) edits = Inr (base, new)"
    "out = bom @ restore_line_endings new (detect_line_ending content)"
    using assms(2) b by (auto simp: edit_file_def split: sum.splits)
  let ?content = "normalize_to_lf content"
  from apply_edits_Some [OF a(1)] obtain ms where
    ms: "base \<in> {?content, normalize_for_fuzzy_match nfkc ?content}"
      "match_edits nfkc base (length edits) 0 (map normalize_edit edits) = Inr ms"
      "new = replace_matches (sort_key me_index ms) base" by (metis insert_iff)
  have "return_unit \<notin> set base"
    using ms(1) normalized_no_return normalized_return [of nfkc ?content, OF assms(1) [OF normalized_no_return]] by auto
  moreover have "return_unit \<notin> set (me_new m)" if "m \<in> set (sort_key me_index ms)" for m
  proof -
    from that have "m \<in> set ms" by simp
    from match_edits_new [OF ms(2) this] obtain x where "me_new m = ed_new (normalize_edit x)" by auto
    then show ?thesis by (simp add: normalized_no_return normalize_edit_def)
  qed
  ultimately have "return_unit \<notin> set new" unfolding ms(3) by (rule replace_return)
  with a(2) b show ?thesis by auto
qed

lemma mixed_endings_edited:
  "edit_file same_text (js ''a'' @ [13, 10] @ js ''b'' @ [10] @ js ''c'') [\<lparr>ed_old = js ''c'', ed_new = js ''d''\<rparr>]
   = Inr (js ''a'' @ [13, 10] @ js ''b'' @ [13, 10] @ js ''d'')"
  by code_simp

theorem an_edit_rewrites_every_line_ending_witness:
  "\<exists>t. return_unit \<notin> set t \<and> js ''a'' @ [13, 10] @ js ''b'' @ [13, 10] @ js ''d'' = restore_line_endings t CrLf"
proof -
  have "detect_line_ending (snd (strip_bom (js ''a'' @ [13, 10] @ js ''b'' @ [10] @ js ''c''))) = CrLf"
    "fst (strip_bom (js ''a'' @ [13, 10] @ js ''b'' @ [10] @ js ''c'')) = []" by code_simp+
  with an_edit_rewrites_every_line_ending [OF _ mixed_endings_edited] show ?thesis by (simp add: same_text_def)
qed

text \<open>
  A text of white space can be found but not edited: if the old text is there exactly, but its
  fuzzy normal form is empty, the tool reports a duplicate, with the length of the file minus one as
  the number of occurrences, even when the text occurs once.
\<close>

theorem blank_old_text_is_a_duplicate:
  assumes "ed_old (normalize_edit e) \<noteq> []" "find_sub (ed_old (normalize_edit e)) content = Some i"
    "normalize_for_fuzzy_match nfkc (ed_old (normalize_edit e)) = []" "2 < length (normalize_for_fuzzy_match nfkc content)"
  shows "apply_edits nfkc content [e] =
    Inl (Duplicate 0 1 (int (length (normalize_for_fuzzy_match nfkc content)) - 1))"
  using assms
  by (simp add: apply_edits_def match_edit_def fuzzy_find_text_def count_occurrences_def split_count_def Let_def)

theorem blank_old_text_is_a_duplicate_witness:
  "apply_edits same_text (js ''if x'') [\<lparr>ed_old = js '' '', ed_new = []\<rparr>] = Inl (Duplicate 0 1 3)"
proof -
  have h: "ed_old (normalize_edit \<lparr>ed_old = js '' '', ed_new = []\<rparr>) \<noteq> []"
    "find_sub (ed_old (normalize_edit \<lparr>ed_old = js '' '', ed_new = []\<rparr>)) (js ''if x'') = Some 2"
    "normalize_for_fuzzy_match same_text (ed_old (normalize_edit \<lparr>ed_old = js '' '', ed_new = []\<rparr>)) = []"
    "length (normalize_for_fuzzy_match same_text (js ''if x'')) = 4" by code_simp+
  then show ?thesis using blank_old_text_is_a_duplicate [OF h(1-3)] by simp
qed

text \<open>
  The diff shows what it says. Every removed or unchanged line carries its number and text in the
  old file, every added line its number and text in the new file, and the removed and the added
  lines are all there, in order.
\<close>

theorem diff_shows_the_changed_lines:
  "list_all (right_line n m ps) (diff_loop ctx ps n m changed)
   \<and> shown Removed (diff_loop ctx ps n m changed) = concat (map part_lines (filter (\<lambda>p. dp_kind p = Removed) ps))
   \<and> shown Added (diff_loop ctx ps n m changed) = concat (map part_lines (filter (\<lambda>p. dp_kind p = Added) ps))"
  using diff_loop_right diff_loop_shown by simp

end
