(* ===== verification/TransformMessages.thy ===== *)
theory TransformMessages
  imports Messages "HOL-Library.Sublist"
begin

text \<open>
  The transcript a provider is sent (packages/ai/src/providers/transform-messages.ts): images replaced
  for models without vision, thinking and call ids of other models rewritten, incomplete turns left
  out, and every tool call paired with a result. The normalization of call ids is an argument; the one
  of the Anthropic provider is modelled. The clock gives the time of a synthetic result.
\<close>

section \<open>Images\<close>

definition non_vision_user_image_placeholder :: jstring where
  "non_vision_user_image_placeholder = js ''(image omitted: model does not support images)''"

definition non_vision_tool_image_placeholder :: jstring where
  "non_vision_tool_image_placeholder = js ''(tool image omitted: model does not support images)''"

text \<open>The loop of \<open>replaceImagesWithPlaceholder\<close>; the flag is \<open>previousWasPlaceholder\<close>.\<close>

fun replace_images_loop :: "jstring \<Rightarrow> bool \<Rightarrow> part list \<Rightarrow> part list" where
  "replace_images_loop ph prev [] = []"
| "replace_images_loop ph prev (ImagePart d t # ps) =
     (if prev then [] else [TextPart ph None]) @ replace_images_loop ph True ps"
| "replace_images_loop ph prev (TextPart t s # ps) = TextPart t s # replace_images_loop ph (t = ph) ps"

definition replace_images_with_placeholder :: "part list \<Rightarrow> jstring \<Rightarrow> part list" where
  "replace_images_with_placeholder ps ph = replace_images_loop ph False ps"

text \<open>What is read of the target model: its provider, its API, its id and whether its input includes images.\<close>

record target_model =
  tm_provider :: jstring
  tm_api :: jstring
  tm_id :: jstring
  tm_images :: bool

fun downgrade_message :: "message \<Rightarrow> message" where
  "downgrade_message (User u) =
     (case um_content u of
        Plain s \<Rightarrow> User u
      | Parts ps \<Rightarrow>
          User (u\<lparr>um_content := Parts (replace_images_with_placeholder ps non_vision_user_image_placeholder)\<rparr>))"
| "downgrade_message (ToolResult r) =
     ToolResult (r\<lparr>tr_content := replace_images_with_placeholder (tr_content r) non_vision_tool_image_placeholder\<rparr>)"
| "downgrade_message m = m"

definition downgrade_unsupported_images :: "target_model \<Rightarrow> transcript \<Rightarrow> transcript" where
  "downgrade_unsupported_images tm ms = (if tm_images tm then ms else map downgrade_message ms)"

section \<open>Rewriting the blocks\<close>

type_synonym id_normalizer = "jstring \<Rightarrow> assistant_message \<Rightarrow> jstring"

type_synonym id_map = "jstring \<rightharpoonup> jstring"

definition present :: "jstring option \<Rightarrow> bool" where
  "present v \<longleftrightarrow> v \<noteq> None \<and> v \<noteq> Some []"

definition is_same_model :: "target_model \<Rightarrow> assistant_message \<Rightarrow> bool" where
  "is_same_model tm a \<longleftrightarrow> am_provider a = tm_provider tm \<and> am_api a = tm_api tm \<and> am_model a = tm_id tm"

definition transform_call ::
  "id_normalizer option \<Rightarrow> bool \<Rightarrow> assistant_message \<Rightarrow> tool_call \<Rightarrow> id_map \<Rightarrow> tool_call \<times> id_map" where
  "transform_call nz same a c ids =
     (let c' = (if \<not> same \<and> present (thought_signature c) then c\<lparr>thought_signature := None\<rparr> else c) in
      case nz of
        None \<Rightarrow> (c', ids)
      | Some n \<Rightarrow>
          if \<not> same \<and> n (call_id c) a \<noteq> call_id c
          then (c'\<lparr>call_id := n (call_id c) a\<rparr>, ids(call_id c \<mapsto> n (call_id c) a))
          else (c', ids))"

definition transform_thinking :: "bool \<Rightarrow> jstring \<Rightarrow> jstring option \<Rightarrow> bool \<Rightarrow> block list" where
  "transform_thinking same t sig redacted =
     (if redacted then (if same then [ThinkingBlock t sig redacted] else [])
      else if same \<and> present sig then [ThinkingBlock t sig redacted]
      else if t = [] \<or> js_trim t = [] then []
      else if same then [ThinkingBlock t sig redacted]
      else [TextBlock t None])"

fun transform_blocks ::
  "id_normalizer option \<Rightarrow> bool \<Rightarrow> assistant_message \<Rightarrow> block list \<Rightarrow> id_map \<Rightarrow> block list \<times> id_map" where
  "transform_blocks nz same a [] ids = ([], ids)"
| "transform_blocks nz same a (ThinkingBlock t sig r # bs) ids =
     (case transform_blocks nz same a bs ids of (bs', ids') \<Rightarrow> (transform_thinking same t sig r @ bs', ids'))"
| "transform_blocks nz same a (TextBlock t sig # bs) ids =
     (case transform_blocks nz same a bs ids of (bs', ids') \<Rightarrow>
        (TextBlock t (if same then sig else None) # bs', ids'))"
| "transform_blocks nz same a (CallBlock c # bs) ids =
     (case transform_call nz same a c ids of (c', ids1) \<Rightarrow>
      case transform_blocks nz same a bs ids1 of (bs', ids2) \<Rightarrow> (CallBlock c' # bs', ids2))"

definition renamed :: "id_map \<Rightarrow> jstring \<Rightarrow> jstring" where
  "renamed ids i = (case ids i of Some j \<Rightarrow> if j \<noteq> [] \<and> j \<noteq> i then j else i | None \<Rightarrow> i)"

fun transform_message ::
  "target_model \<Rightarrow> id_normalizer option \<Rightarrow> message \<Rightarrow> id_map \<Rightarrow> message \<times> id_map" where
  "transform_message tm nz (Assistant a) ids =
     (case transform_blocks nz (is_same_model tm a) a (am_content a) ids of
        (bs, ids') \<Rightarrow> (Assistant (a\<lparr>am_content := bs\<rparr>), ids'))"
| "transform_message tm nz (ToolResult r) ids = (ToolResult (r\<lparr>tr_call_id := renamed ids (tr_call_id r)\<rparr>), ids)"
| "transform_message tm nz m ids = (m, ids)"

fun transform_all ::
  "target_model \<Rightarrow> id_normalizer option \<Rightarrow> transcript \<Rightarrow> id_map \<Rightarrow> transcript" where
  "transform_all tm nz [] ids = []"
| "transform_all tm nz (m # ms) ids =
     (case transform_message tm nz m ids of (m', ids') \<Rightarrow> m' # transform_all tm nz ms ids')"

section \<open>Pairing calls and results\<close>

definition synthetic_tool_result :: "int \<Rightarrow> tool_call \<Rightarrow> message" where
  "synthetic_tool_result now c =
     ToolResult \<lparr>tr_call_id = call_id c, tr_tool = call_name c, tr_content = [TextPart (js ''No result provided'') None],
       tr_details = None, tr_error = True, tr_time = now\<rparr>"

text \<open>\<open>insertSyntheticToolResults\<close>: what it pushes. It then empties both sets; the set of
  results is empty whenever there are no pending calls.\<close>

definition synthetic_tool_results :: "int \<Rightarrow> tool_call list \<Rightarrow> jstring list \<Rightarrow> transcript" where
  "synthetic_tool_results now pending existing =
     map (synthetic_tool_result now) (filter (\<lambda>c. call_id c \<notin> set existing) pending)"

definition incomplete :: "assistant_message \<Rightarrow> bool" where
  "incomplete a \<longleftrightarrow> am_stop a = ErrorStop \<or> am_stop a = Aborted"

text \<open>The second loop: the messages it pushes, with the calls of the last turn and the results seen.\<close>

fun pair_results :: "int \<Rightarrow> tool_call list \<Rightarrow> jstring list \<Rightarrow> transcript \<Rightarrow> transcript" where
  "pair_results now pending existing [] = synthetic_tool_results now pending existing"
| "pair_results now pending existing (Assistant a # ms) =
     synthetic_tool_results now pending existing
     @ (if incomplete a then pair_results now [] [] ms
        else Assistant a # pair_results now (tool_calls (am_content a)) [] ms)"
| "pair_results now pending existing (ToolResult r # ms) =
     (if tr_call_id r \<notin> call_id ` set pending then pair_results now pending existing ms
      else ToolResult r # pair_results now pending (tr_call_id r # existing) ms)"
| "pair_results now pending existing (User u # ms) =
     synthetic_tool_results now pending existing @ User u # pair_results now [] [] ms"
| "pair_results now pending existing (m # ms) = m # pair_results now pending existing ms"

definition transform_messages ::
  "int \<Rightarrow> target_model \<Rightarrow> id_normalizer option \<Rightarrow> transcript \<Rightarrow> transcript" where
  "transform_messages now tm nz ms =
     pair_results now [] [] (transform_all tm nz (downgrade_unsupported_images tm ms) (\<lambda>_. None))"

section \<open>Call ids for Anthropic\<close>

definition anthropic_unit :: "code_unit \<Rightarrow> bool" where
  "anthropic_unit u \<longleftrightarrow>
     u \<in> set (js ''abcdefghijklmnopqrstuvwxyzABCDEFGHIJKLMNOPQRSTUVWXYZ0123456789_-'')"

definition anthropic_tool_call_id :: id_normalizer where
  "anthropic_tool_call_id i a = take 64 (map (\<lambda>u. if anthropic_unit u then u else hd (js ''_'')) i)"

section \<open>What a provider accepts\<close>

text \<open>
  A transcript that can be replayed: no incomplete turn, every tool result directly follows the turn
  that made its call, and every call has a result before the next user or assistant message. \<open>open\<close> is
  the calls of the last turn and \<open>seen\<close> the results so far.
\<close>

fun replayable :: "jstring set \<Rightarrow> jstring set \<Rightarrow> transcript \<Rightarrow> bool" where
  "replayable calls seen [] \<longleftrightarrow> calls \<subseteq> seen"
| "replayable calls seen (Assistant a # ms) \<longleftrightarrow>
     calls \<subseteq> seen \<and> \<not> incomplete a \<and> replayable (call_id ` set (tool_calls (am_content a))) {} ms"
| "replayable calls seen (ToolResult r # ms) \<longleftrightarrow>
     tr_call_id r \<in> calls \<and> replayable calls (insert (tr_call_id r) seen) ms"
| "replayable calls seen (User u # ms) \<longleftrightarrow> calls \<subseteq> seen \<and> replayable {} {} ms"
| "replayable calls seen (m # ms) \<longleftrightarrow> replayable calls seen ms"

lemma replayable_results:
  "replayable calls seen (map (synthetic_tool_result now) cs @ ms) \<longleftrightarrow>
     call_id ` set cs \<subseteq> calls \<and> replayable calls (seen \<union> call_id ` set cs) ms"
  by (induction cs arbitrary: seen) (auto simp: synthetic_tool_result_def)

lemma replayable_synthetic:
  "replayable (call_id ` set pending) (set existing) (synthetic_tool_results now pending existing @ ms) \<longleftrightarrow>
     replayable (call_id ` set pending) (set existing \<union> call_id ` set pending) ms"
proof -
  have "set existing \<union> call_id ` set (filter (\<lambda>c. call_id c \<notin> set existing) pending)
      = set existing \<union> call_id ` set pending" by auto
  then show ?thesis by (auto simp: synthetic_tool_results_def replayable_results)
qed

lemma replayable_closed: "replayable {} s ms \<Longrightarrow> calls \<subseteq> seen \<Longrightarrow> replayable calls seen ms"
  by (induction "{} :: jstring set" s ms arbitrary: seen rule: replayable.induct) auto

lemma pair_results_replayable:
  "replayable (call_id ` set pending) (set existing) (pair_results now pending existing ms)"
proof (induction now pending existing ms rule: pair_results.induct)
  case (1 now pending existing)
  then show ?case using replayable_synthetic [of pending existing now "[]"] by simp
next
  case (2 now pending existing a ms)
  then show ?case by (auto simp: replayable_synthetic intro: replayable_closed)
next
  case (4 now pending existing u ms)
  then show ?case by (auto simp: replayable_synthetic)
qed auto

lemma transformed_transcripts_replayable: "replayable {} {} (transform_messages now tm nz ms)"
  using pair_results_replayable [of "[]" "[]"] by (simp add: transform_messages_def)

text \<open>
  C25. Whatever the transcript, what a provider is sent can be replayed: it has no incomplete turn, no
  tool result without its call in the turn just before, and no call without a result before the next
  user or assistant message.
\<close>

theorem transformed_transcripts_are_replayable:
  "replayable {} {} (transform_messages now tm nz ms)"
  by (rule transformed_transcripts_replayable)

section \<open>What survives\<close>

definition kept_message :: "message \<Rightarrow> bool" where
  "kept_message m = (case m of ToolResult _ \<Rightarrow> False | Assistant a \<Rightarrow> \<not> incomplete a | _ \<Rightarrow> True)"

lemma kept_simps [simp]:
  "kept_message (Assistant a) \<longleftrightarrow> \<not> incomplete a" "kept_message (User u)" "\<not> kept_message (ToolResult r)"
  "kept_message (BashExecution b)" "kept_message (Custom c)" "kept_message (BranchSummary s)" "kept_message (CompactionSummary d)"
  by (simp_all add: kept_message_def)

lemma kept_synthetic [simp]: "filter kept_message (synthetic_tool_results now pending existing) = []"
  by (simp add: synthetic_tool_results_def synthetic_tool_result_def)

lemma kept_pair_results: "filter kept_message (pair_results now pending existing ms) = filter kept_message ms"
  by (induction now pending existing ms rule: pair_results.induct) simp_all

lemma incomplete_content [simp]: "incomplete (a\<lparr>am_content := bs\<rparr>) = incomplete a"
  by (simp add: incomplete_def)

text \<open>The texts and the calls of an answer, without what only its own model can read.\<close>

definition answer_texts :: "block list \<Rightarrow> jstring list" where
  "answer_texts bs = List.map_filter (\<lambda>b. case b of TextBlock t _ \<Rightarrow> Some t | _ \<Rightarrow> None) bs"

definition call_content :: "tool_call \<Rightarrow> jstring \<times> json" where
  "call_content c = (call_name c, call_args c)"

fun faithful :: "message \<Rightarrow> message \<Rightarrow> bool" where
  "faithful (Assistant a) m \<longleftrightarrow>
     (\<exists>bs. m = Assistant (a\<lparr>am_content := bs\<rparr>)
       \<and> map call_content (tool_calls bs) = map call_content (tool_calls (am_content a))
       \<and> subseq (answer_texts (am_content a)) (answer_texts bs))"
| "faithful m m' \<longleftrightarrow> m' = m \<or> m' = downgrade_message m"

lemma tool_calls_append [simp]: "tool_calls (bs @ cs) = tool_calls bs @ tool_calls cs"
  by (simp add: tool_calls_def List.map_filter_def)

lemma answer_texts_append [simp]: "answer_texts (bs @ cs) = answer_texts bs @ answer_texts cs"
  by (simp add: answer_texts_def List.map_filter_def)

lemma answer_texts_simps [simp]:
  "answer_texts [] = []" "answer_texts (TextBlock t s # bs) = t # answer_texts bs"
  "answer_texts (ThinkingBlock t s r # bs) = answer_texts bs" "answer_texts (CallBlock c # bs) = answer_texts bs"
  by (simp_all add: answer_texts_def List.map_filter_def)

lemma thinking_calls [simp]: "tool_calls (transform_thinking same t sig r) = []"
  by (simp add: transform_thinking_def)

lemma transform_call_content [simp]: "call_content (fst (transform_call nz same a c ids)) = call_content c"
  by (auto simp: transform_call_def call_content_def split: option.split)

lemma transform_blocks_faithful:
  "map call_content (tool_calls (fst (transform_blocks nz same a bs ids))) = map call_content (tool_calls bs)
   \<and> subseq (answer_texts bs) (answer_texts (fst (transform_blocks nz same a bs ids)))"
proof (induction nz same a bs ids rule: transform_blocks.induct)
  case (2 nz same a t sig r bs ids)
  then show ?case by (auto simp: split_beta intro: list_emb_append2)
next
  case (4 nz same a c bs ids)
  obtain c' ids' where c: "transform_call nz same a c ids = (c', ids')" by force
  then have "call_content c' = call_content c" by (metis fst_conv transform_call_content)
  with 4 c show ?case by (simp add: split_beta)
qed (simp_all add: split_beta)

lemma transform_message_faithful:
  "\<not> is_tool_result m \<Longrightarrow> faithful m (fst (transform_message tm nz (if v then m else downgrade_message m) ids))"
proof (cases m)
  case (User u)
  then show ?thesis by (cases "um_content u") simp_all
next
  case (Assistant a)
  then show ?thesis using transform_blocks_faithful [of nz _ a "am_content a" ids] by (auto simp: split_beta)
qed simp_all

lemma kept_downgrade [simp]: "kept_message (downgrade_message m) = kept_message m"
  by (cases m) (simp_all split: content.split)

lemma transform_message_kept [simp]: "kept_message (fst (transform_message tm nz m ids)) = kept_message m"
  by (cases m) (simp_all add: split_beta)

lemma kept_transform_all:
  "list_all2 faithful (filter kept_message ms)
     (filter kept_message (transform_all tm nz (map (\<lambda>m. if v then m else downgrade_message m) ms) ids))"
proof (induction ms arbitrary: ids)
  case (Cons m ms)
  have "kept_message m \<Longrightarrow> \<not> is_tool_result m" by (cases m) simp_all
  with Cons transform_message_faithful [of m tm nz v ids] show ?case by (simp add: split_beta)
qed simp

lemma downgrade_alt: "downgrade_unsupported_images tm ms = map (\<lambda>m. if tm_images tm then m else downgrade_message m) ms"
  by (simp add: downgrade_unsupported_images_def)

text \<open>
  Nothing that was said is lost on the way to another model: apart from tool results, what a
  provider is sent are the messages of the transcript without its incomplete turns, one by one and in
  order. A user message is the original or the original without its images, an answer keeps its texts
  and, in order, the names and arguments of its calls.
\<close>

theorem conversation_survives_a_model_change:
  "list_all2 faithful (filter kept_message ms) (filter kept_message (transform_messages now tm nz ms))"
  unfolding transform_messages_def kept_pair_results downgrade_alt by (rule kept_transform_all)

section \<open>What the target model reads\<close>

fun readable_block :: "bool \<Rightarrow> block \<Rightarrow> bool" where
  "readable_block same (ThinkingBlock t sig r) \<longleftrightarrow> same \<and> transform_thinking same t sig r = [ThinkingBlock t sig r]"
| "readable_block same (TextBlock t sig) \<longleftrightarrow> same \<or> sig = None"
| "readable_block same (CallBlock c) \<longleftrightarrow> same \<or> \<not> present (thought_signature c)"

fun readable_by :: "target_model \<Rightarrow> message \<Rightarrow> bool" where
  "readable_by tm (Assistant a) \<longleftrightarrow> list_all (readable_block (is_same_model tm a)) (am_content a)"
| "readable_by tm (User u) \<longleftrightarrow>
     tm_images tm \<or> (case um_content u of Plain s \<Rightarrow> True | Parts ps \<Rightarrow> list_all (\<lambda>p. \<not> is_image p) ps)"
| "readable_by tm (ToolResult r) \<longleftrightarrow> tm_images tm \<or> list_all (\<lambda>p. \<not> is_image p) (tr_content r)"
| "readable_by tm m \<longleftrightarrow> True"

lemma no_images_left: "list_all (\<lambda>p. \<not> is_image p) (replace_images_loop ph prev ps)"
  by (induction ph prev ps rule: replace_images_loop.induct) auto

lemma readable_thinking: "list_all (readable_block same) (transform_thinking same t sig r)"
  by (simp add: transform_thinking_def)

lemma readable_call [simp]: "readable_block same (CallBlock (fst (transform_call nz same a c ids)))"
  by (auto simp: transform_call_def Let_def present_def split: option.split)

lemma readable_blocks: "list_all (readable_block same) (fst (transform_blocks nz same a bs ids))"
proof (induction nz same a bs ids rule: transform_blocks.induct)
  case (4 nz same a c bs ids)
  obtain c' ids' where c: "transform_call nz same a c ids = (c', ids')" by force
  then have "readable_block same (CallBlock c')" by (metis fst_conv readable_call)
  with 4 c show ?case by (simp add: split_beta)
qed (simp_all add: split_beta readable_thinking)

lemma same_model_content [simp]: "is_same_model tm (a\<lparr>am_content := bs\<rparr>) = is_same_model tm a"
  by (simp add: is_same_model_def)

lemma readable_message:
  "readable_by tm (fst (transform_message tm nz (if tm_images tm then m else downgrade_message m) ids))"
proof (cases m)
  case (User u)
  then show ?thesis by (cases "um_content u") (simp_all add: replace_images_with_placeholder_def no_images_left)
qed (simp_all add: split_beta readable_blocks replace_images_with_placeholder_def no_images_left)

lemma readable_all:
  "list_all (readable_by tm) (transform_all tm nz (map (\<lambda>m. if tm_images tm then m else downgrade_message m) ms) ids)"
  by (induction ms arbitrary: ids) (simp_all add: split_beta readable_message)

lemma list_all_pair_results:
  "list_all P ms \<Longrightarrow> (\<And>c. P (synthetic_tool_result now c)) \<Longrightarrow> list_all P (pair_results now pending existing ms)"
proof (induction now pending existing ms rule: pair_results.induct)
qed (auto simp: synthetic_tool_results_def list_all_iff)

text \<open>
  C27. A provider is sent only what its model can read: no image without vision, no thinking block and
  no signature of another model, and no empty thinking block.
\<close>

theorem transformed_messages_are_readable:
  "list_all (readable_by tm) (transform_messages now tm nz ms)"
  unfolding transform_messages_def downgrade_alt
  by (rule list_all_pair_results [OF readable_all]) (simp add: synthetic_tool_result_def)

section \<open>Call ids\<close>

definition foreign_call_ids :: "target_model \<Rightarrow> message \<Rightarrow> jstring list" where
  "foreign_call_ids tm m =
     (case m of Assistant a \<Rightarrow> if is_same_model tm a then [] else map call_id (tool_calls (am_content a)) | _ \<Rightarrow> [])"

definition anthropic_id :: "jstring \<Rightarrow> bool" where
  "anthropic_id i \<longleftrightarrow> length i \<le> 64 \<and> list_all anthropic_unit i"

lemma anthropic_id_normalized [simp]: "anthropic_id (anthropic_tool_call_id i a)"
proof -
  have "anthropic_unit (hd (js ''_''))" by code_simp
  then show ?thesis
    by (auto simp: anthropic_id_def anthropic_tool_call_id_def list_all_iff dest!: in_set_takeD)
qed

lemma anthropic_id_fixed: "anthropic_id i \<Longrightarrow> anthropic_tool_call_id i a = i"
  by (auto simp: anthropic_id_def anthropic_tool_call_id_def list_all_iff intro!: map_idI)

lemma transform_call_id: "nz = Some n \<Longrightarrow> \<not> same \<Longrightarrow> call_id (fst (transform_call nz same a c ids)) = n (call_id c) a"
  by (simp add: transform_call_def Let_def)

lemma transform_blocks_ids:
  "nz = Some n \<Longrightarrow> \<not> same \<Longrightarrow>
     map call_id (tool_calls (fst (transform_blocks nz same a bs ids))) = map (\<lambda>c. n (call_id c) a) (tool_calls bs)"
proof (induction nz same a bs ids rule: transform_blocks.induct)
  case (4 nz same a c bs ids)
  obtain c' ids' where c: "transform_call nz same a c ids = (c', ids')" by force
  then have "call_id c' = n (call_id c) a" using 4(2,3) by (metis fst_conv transform_call_id)
  with 4 c show ?case by (simp add: split_beta)
qed (simp_all add: split_beta)

text \<open>
  Every call of another model that Anthropic is sent has an id its API accepts: at most 64
  characters, all of them letters, digits, underscores or dashes.
\<close>

theorem foreign_ids_suit_anthropic:
  "list_all anthropic_id (concat (map (foreign_call_ids tm) (transform_messages now tm (Some anthropic_tool_call_id) ms)))"
proof -
  let ?P = "\<lambda>m. list_all anthropic_id (foreign_call_ids tm m)"
  have m: "?P (fst (transform_message tm (Some anthropic_tool_call_id) m ids))" for m ids
    by (cases m) (auto simp: foreign_call_ids_def split_beta transform_blocks_ids list_all_iff)
  have "list_all ?P (transform_all tm (Some anthropic_tool_call_id) ms ids)" for ms ids
    by (induction ms arbitrary: ids) (simp_all add: split_beta m)
  from list_all_pair_results [OF this] show ?thesis
    by (simp add: transform_messages_def list_all_iff synthetic_tool_result_def foreign_call_ids_def)
qed

section \<open>Transcripts that pass unchanged\<close>

lemma pair_results_fixed:
  "replayable (call_id ` set pending) (set existing) ms \<Longrightarrow> pair_results now pending existing ms = ms"
proof (induction now pending existing ms rule: pair_results.induct)
qed (auto simp: synthetic_tool_results_def filter_empty_conv)

text \<open>A message that the rewriting leaves as it is: readable, and with ids the normalizer keeps.\<close>

fun settled :: "target_model \<Rightarrow> id_normalizer option \<Rightarrow> message \<Rightarrow> bool" where
  "settled tm nz (Assistant a) \<longleftrightarrow>
     readable_by tm (Assistant a)
     \<and> (case nz of None \<Rightarrow> True
        | Some n \<Rightarrow> is_same_model tm a \<or> list_all (\<lambda>c. n (call_id c) a = call_id c) (tool_calls (am_content a)))"
| "settled tm nz m \<longleftrightarrow> readable_by tm m"

lemma replace_without_images: "list_all (\<lambda>p. \<not> is_image p) ps \<Longrightarrow> replace_images_loop ph prev ps = ps"
  by (induction ph prev ps rule: replace_images_loop.induct) auto

lemma downgrade_fixed: "readable_by tm m \<Longrightarrow> \<not> tm_images tm \<Longrightarrow> downgrade_message m = m"
  by (cases m) (auto simp: replace_images_with_placeholder_def replace_without_images split: content.splits)

lemma transform_call_fixed:
  "readable_block same (CallBlock c) \<Longrightarrow> (case nz of None \<Rightarrow> True | Some n \<Rightarrow> same \<or> n (call_id c) a = call_id c) \<Longrightarrow>
     transform_call nz same a c ids = (c, ids)"
  by (auto simp: transform_call_def Let_def split: option.splits)

lemma transform_blocks_fixed:
  assumes "list_all (readable_block same) bs"
    "case nz of None \<Rightarrow> True | Some n \<Rightarrow> same \<or> list_all (\<lambda>c. n (call_id c) a = call_id c) (tool_calls bs)"
  shows "transform_blocks nz same a bs ids = (bs, ids)"
  using assms
proof (induction nz same a bs ids rule: transform_blocks.induct)
  case (4 nz same a c bs ids)
  then have "transform_call nz same a c ids = (c, ids)"
    by (intro transform_call_fixed) (auto split: option.splits)
  with 4 show ?case by (auto split: option.splits)
qed (auto split: option.splits)

lemma transform_message_fixed:
  "settled tm nz m \<Longrightarrow> transform_message tm nz m (\<lambda>_. None) = (m, \<lambda>_. None)"
  by (cases m) (auto simp: transform_blocks_fixed renamed_def split: option.splits)

lemma transform_all_fixed: "list_all (settled tm nz) ms \<Longrightarrow> transform_all tm nz ms (\<lambda>_. None) = ms"
  by (induction ms) (simp_all add: transform_message_fixed)

lemma settled_readable: "settled tm nz m \<Longrightarrow> readable_by tm m"
  by (cases m) auto

lemma downgrade_all_fixed: "list_all (settled tm nz) ms \<Longrightarrow> downgrade_unsupported_images tm ms = ms"
  by (auto simp: downgrade_unsupported_images_def list_all_iff intro!: map_idI downgrade_fixed settled_readable)

lemma transform_messages_fixed:
  "list_all (settled tm nz) ms \<Longrightarrow> replayable {} {} ms \<Longrightarrow> transform_messages now tm nz ms = ms"
  by (simp add: transform_messages_def downgrade_all_fixed transform_all_fixed pair_results_fixed)

lemma transformed_settled:
  assumes "\<And>n i a b. nz = Some n \<Longrightarrow> n (n i a) b = n i a"
  shows "list_all (settled tm nz) (transform_messages now tm nz ms)"
proof -
  have m: "settled tm nz (fst (transform_message tm nz (if tm_images tm then m else downgrade_message m) ids))" for m ids
  proof (cases m)
    case (Assistant a)
    have "list_all (\<lambda>c. n (call_id c) b = call_id c) (tool_calls (fst (transform_blocks nz False a bs ids)))"
      if n: "nz = Some n" for n b bs
    proof -
      have "list_all (\<lambda>i. n i b = i) (map call_id (tool_calls (fst (transform_blocks nz False a bs ids))))"
        using assms [OF n] transform_blocks_ids [OF n, of False] by (simp add: list_all_iff)
      then show ?thesis by (simp add: list_all_iff)
    qed
    with Assistant show ?thesis
      by (cases "is_same_model tm a") (auto simp: split_beta readable_blocks split: option.split)
  next
    case (User u)
    with readable_message [of tm nz m ids] show ?thesis by (cases "um_content u") auto
  qed (use readable_message [of tm nz m ids] in auto)
  have "list_all (settled tm nz) (transform_all tm nz (map (\<lambda>m. if tm_images tm then m else downgrade_message m) ms) ids)"
    for ids by (induction ms arbitrary: ids) (simp_all add: split_beta m)
  from list_all_pair_results [OF this] show ?thesis
    unfolding transform_messages_def downgrade_alt by (simp add: synthetic_tool_result_def)
qed

text \<open>
  Sending a transcript twice changes nothing more: with a normalization of ids that keeps the ids
  it made, transforming a transformed transcript for the same model gives it back, whatever the clock.
\<close>

theorem transforming_twice_is_transforming_once:
  assumes "\<And>n i a b. nz = Some n \<Longrightarrow> n (n i a) b = n i a"
  shows "transform_messages later tm nz (transform_messages now tm nz ms) = transform_messages now tm nz ms"
  by (rule transform_messages_fixed [OF transformed_settled [OF assms] transformed_transcripts_replayable])

section \<open>Results that survive\<close>

definition names_calls :: "id_normalizer option \<Rightarrow> bool" where
  "names_calls nz \<longleftrightarrow> (case nz of None \<Rightarrow> True | Some n \<Rightarrow> (\<forall>i a. i \<noteq> [] \<longrightarrow> n i a \<noteq> []))"

lemma transform_call_renamed:
  assumes "names_calls nz" "call_id c \<noteq> []" "ids (call_id c) = None"
  shows "call_id (fst (transform_call nz same a c ids)) = renamed (snd (transform_call nz same a c ids)) (call_id c)
     \<and> (\<forall>i. i \<noteq> call_id c \<longrightarrow> snd (transform_call nz same a c ids) i = ids i)"
  using assms by (auto simp: transform_call_def Let_def renamed_def names_calls_def split: option.splits)

lemma transform_blocks_renamed:
  assumes "names_calls nz" "distinct (map call_id (tool_calls bs))" "[] \<notin> call_id ` set (tool_calls bs)"
    "dom ids \<inter> call_id ` set (tool_calls bs) = {}"
  shows "map call_id (tool_calls (fst (transform_blocks nz same a bs ids)))
       = map (\<lambda>c. renamed (snd (transform_blocks nz same a bs ids)) (call_id c)) (tool_calls bs)
     \<and> (\<forall>i. i \<notin> call_id ` set (tool_calls bs) \<longrightarrow> snd (transform_blocks nz same a bs ids) i = ids i)"
  using assms
proof (induction nz same a bs ids rule: transform_blocks.induct)
  case (4 nz same a c bs ids)
  obtain c' ids1 where c: "transform_call nz same a c ids = (c', ids1)" by force
  obtain bs' ids2 where b: "transform_blocks nz same a bs ids1 = (bs', ids2)" by force
  have c1: "call_id c' = renamed ids1 (call_id c)" "\<And>i. i \<noteq> call_id c \<Longrightarrow> ids1 i = ids i"
    using transform_call_renamed [OF 4(2), of c ids same a] 4(4,5) c by auto
  moreover have "dom ids1 \<inter> call_id ` set (tool_calls bs) = {}"
  proof (rule ccontr)
    assume "\<not> ?thesis"
    then obtain i where i: "ids1 i \<noteq> None" "i \<in> call_id ` set (tool_calls bs)" by blast
    have "call_id c \<notin> call_id ` set (tool_calls bs)" using 4(3) by simp
    with i(2) have "i \<noteq> call_id c" by metis
    with c1(2) i 4(5) show False by (auto simp: disjoint_iff)
  qed
  ultimately have "map call_id (tool_calls bs') = map (\<lambda>c. renamed ids2 (call_id c)) (tool_calls bs)"
    "\<And>i. i \<notin> call_id ` set (tool_calls bs) \<Longrightarrow> ids2 i = ids1 i"
    using 4(1) [OF c [symmetric] 4(2)] 4(3,4) b by auto
  with c1 c b 4(3) show ?case by (auto simp: renamed_def)
qed (simp_all add: split_beta)

lemma replayable_transform_all:
  assumes "names_calls nz" "replayable calls seen ms" "distinct (concat (map requested_calls ms))"
    "[] \<notin> set (concat (map requested_calls ms))" "dom ids \<inter> set (concat (map requested_calls ms)) = {}"
  shows "replayable (renamed ids ` calls) (renamed ids ` seen) (transform_all tm nz ms ids)"
  using assms(2-)
proof (induction calls seen ms arbitrary: ids rule: replayable.induct)
  case (2 calls seen a ms)
  obtain bs ids' where b: "transform_blocks nz (is_same_model tm a) a (am_content a) ids = (bs, ids')" by force
  let ?cs = "tool_calls (am_content a)"
  have r: "map call_id (tool_calls bs) = map (\<lambda>c. renamed ids' (call_id c)) ?cs"
    "\<And>i. i \<notin> call_id ` set ?cs \<Longrightarrow> ids' i = ids i"
    using transform_blocks_renamed [OF assms(1), of "am_content a" ids "is_same_model tm a" a] 2(3-) b by auto
  from r(1) have "call_id ` set (tool_calls bs) = renamed ids' ` call_id ` set ?cs"
    by (metis (no_types, lifting) image_cong image_image image_set)
  moreover have "dom ids' \<inter> set (concat (map requested_calls ms)) = {}"
  proof (rule ccontr)
    assume "\<not> ?thesis"
    then obtain i where i: "ids' i \<noteq> None" "i \<in> set (concat (map requested_calls ms))" by blast
    then have "i \<notin> call_id ` set ?cs" using 2(3) by auto
    with r(2) i 2(5) show False by (auto simp: disjoint_iff)
  qed
  ultimately show ?case using 2 b by (auto simp: image_mono)
next
  case (4 calls seen u ms)
  from "4.IH" [of ids] "4.prems" show ?case by (simp add: image_mono)
qed (auto simp: image_mono)

lemma downgrade_keeps_pairing:
  "replayable calls seen (map downgrade_message ms) = replayable calls seen ms"
  by (induction calls seen ms rule: replayable.induct) (simp_all split: content.split)

lemma downgrade_calls [simp]: "requested_calls (downgrade_message m) = requested_calls m"
  by (cases m) (simp_all split: content.split)

lemma downgrade_all_pairing:
  "replayable calls seen (downgrade_unsupported_images tm ms) = replayable calls seen ms"
  "map requested_calls (downgrade_unsupported_images tm ms) = map requested_calls ms"
  by (simp_all add: downgrade_unsupported_images_def downgrade_keeps_pairing)


section \<open>A session that changes its model\<close>

definition claude :: target_model where
  "claude = \<lparr>tm_provider = js ''anthropic'', tm_api = js ''anthropic-messages'', tm_id = js ''claude'', tm_images = False\<rparr>"

definition claude_msg :: "block list \<Rightarrow> message" where
  "claude_msg bs = Assistant
     \<lparr>am_content = bs, am_api = tm_api claude, am_provider = tm_provider claude, am_model = tm_id claude,
      am_response_model = None, am_response_id = None, am_diagnostics = None, am_usage = empty_usage,
      am_stop = ToolUse, am_stop_raw = None, am_error = None, am_time = 0\<rparr>"

definition model_change :: transcript where
  "model_change =
     [user_msg [TextPart (js ''go'') None, ImagePart [] []],
      assistant_msg [ThinkingBlock (js ''hm'') None False, call_block (js ''a|1'') (js ''bash'') JNull] ToolUse,
      tool_msg (js ''a|1'') (js ''bash'') [TextPart (js ''first'') None] False,
      claude_msg [call_block (js ''b'') (js ''bash'') JNull],
      tool_msg (js ''b'') (js ''bash'') [TextPart (js ''second'') None] False]"

lemma anthropic_names_calls: "names_calls (Some anthropic_tool_call_id)"
  by (simp add: names_calls_def anthropic_tool_call_id_def)


theorem transforming_twice_is_transforming_once_witness:
  "transform_messages 7 claude (Some anthropic_tool_call_id)
     (transform_messages 0 claude (Some anthropic_tool_call_id) model_change) =
   transform_messages 0 claude (Some anthropic_tool_call_id) model_change"
  by (rule transforming_twice_is_transforming_once) (auto intro!: anthropic_id_fixed)

text \<open>
  The same id in two answers, the first of another model and the second of the target: the id map of
  the first renames the result of the second, whose call keeps its id. The real result is dropped and
  an error stands in its place.
\<close>

definition reused_id :: transcript where
  "reused_id =
     [assistant_msg [call_block (js ''a|1'') (js ''bash'') JNull] ToolUse,
      tool_msg (js ''a|1'') (js ''bash'') [TextPart (js ''first'') None] False,
      claude_msg [call_block (js ''a|1'') (js ''bash'') JNull],
      tool_msg (js ''a|1'') (js ''bash'') [TextPart (js ''second'') None] False]"

lemma reused_id_transformed:
  "transform_messages now claude (Some anthropic_tool_call_id) reused_id =
     [assistant_msg [call_block (js ''a_1'') (js ''bash'') JNull] ToolUse,
      tool_msg (js ''a_1'') (js ''bash'') [TextPart (js ''first'') None] False,
      claude_msg [call_block (js ''a|1'') (js ''bash'') JNull],
      synthetic_tool_result now \<lparr>call_id = js ''a|1'', call_name = js ''bash'', call_args = JNull, thought_signature = None\<rparr>]"
proof -
  have n: "anthropic_tool_call_id [97, 124, 49] a = [97, 95, 49]" for a
    by (simp add: anthropic_tool_call_id_def anthropic_unit_def)
  show ?thesis
    by (simp add: transform_messages_def reused_id_def claude_msg_def sample_defs incomplete_def
        downgrade_unsupported_images_def claude_def replace_images_with_placeholder_def is_same_model_def
        transform_call_def n present_def renamed_def synthetic_tool_results_def synthetic_tool_result_def)
qed

text \<open>
  The condition on ids is needed: there is a transcript that can be replayed in which every call
  has its result, and the result of its last call is replaced by an error, because an earlier answer
  of another model used the same id.
\<close>

theorem a_reused_call_id_loses_its_result:
  "replayable {} {} reused_id
   \<and> last reused_id = tool_msg (js ''a|1'') (js ''bash'') [TextPart (js ''second'') None] False
   \<and> last reused_id \<notin> set (transform_messages now claude (Some anthropic_tool_call_id) reused_id)"
proof -
  have "replayable {} {} reused_id" by (simp add: reused_id_def claude_msg_def sample_defs incomplete_def)
  moreover have "last reused_id \<notin> set (transform_messages now claude (Some anthropic_tool_call_id) reused_id)"
    unfolding reused_id_transformed by (simp add: reused_id_def claude_msg_def sample_defs synthetic_tool_result_def)
  ultimately show ?thesis by (simp add: reused_id_def)
qed

end
