(* ===== verification/EventStream.thy ===== *)
theory EventStream
  imports Messages
begin

text \<open>
  The queue of events between a provider and its reader (packages/ai/src/utils/event-stream.ts):
  \<open>push\<close>, \<open>end\<close>, one step of the asynchronous iterator, and the final result. A reader that waits is a
  number in \<open>es_waiting\<close>, in the order of the promises; an operation returns what it hands to which
  reader. \<open>isComplete\<close> and \<open>extractResult\<close> are arguments, and are given for assistant messages.
\<close>

section \<open>The stream\<close>

record ('e, 'r) event_stream =
  es_queue :: "'e list"
  es_waiting :: "nat list"
  es_done :: bool
  es_result :: "'r option"

datatype 'e delivery = Item 'e | EndOfStream

definition new_stream :: "('e, 'r) event_stream" where
  "new_stream = \<lparr>es_queue = [], es_waiting = [], es_done = False, es_result = None\<rparr>"

text \<open>A promise keeps the first value it is resolved with.\<close>

definition resolve_final_result :: "'r \<Rightarrow> ('e, 'r) event_stream \<Rightarrow> ('e, 'r) event_stream" where
  "resolve_final_result r s = (case es_result s of None \<Rightarrow> s\<lparr>es_result := Some r\<rparr> | Some _ \<Rightarrow> s)"

definition push ::
  "('e \<Rightarrow> bool) \<Rightarrow> ('e \<Rightarrow> 'r) \<Rightarrow> 'e \<Rightarrow> ('e, 'r) event_stream \<Rightarrow> ('e, 'r) event_stream \<times> (nat \<times> 'e delivery) list" where
  "push is_complete result_of e s =
     (if es_done s then (s, [])
      else
        let s = (if is_complete e then resolve_final_result (result_of e) (s\<lparr>es_done := True\<rparr>) else s)
        in (case es_waiting s of
              w # ws \<Rightarrow> (s\<lparr>es_waiting := ws\<rparr>, [(w, Item e)])
            | [] \<Rightarrow> (s\<lparr>es_queue := es_queue s @ [e]\<rparr>, [])))"

definition end_stream ::
  "'r option \<Rightarrow> ('e, 'r) event_stream \<Rightarrow> ('e, 'r) event_stream \<times> (nat \<times> 'e delivery) list" where
  "end_stream r s =
     (let s = s\<lparr>es_done := True\<rparr>;
          s = (case r of None \<Rightarrow> s | Some r \<Rightarrow> resolve_final_result r s)
      in (s\<lparr>es_waiting := []\<rparr>, map (\<lambda>w. (w, EndOfStream)) (es_waiting s)))"

text \<open>One round of the iterator's loop, for the reader \<open>w\<close>.\<close>

definition pull :: "nat \<Rightarrow> ('e, 'r) event_stream \<Rightarrow> ('e, 'r) event_stream \<times> (nat \<times> 'e delivery) list" where
  "pull w s =
     (case es_queue s of
        e # es \<Rightarrow> (s\<lparr>es_queue := es\<rparr>, [(w, Item e)])
      | [] \<Rightarrow> if es_done s then (s, [(w, EndOfStream)]) else (s\<lparr>es_waiting := es_waiting s @ [w]\<rparr>, []))"

section \<open>Streams of assistant messages\<close>

datatype assistant_event =
    DoneEvent assistant_message
  | ErrorEvent assistant_message
  | ProgressEvent jstring assistant_message

fun ends_answer :: "assistant_event \<Rightarrow> bool" where
  "ends_answer (ProgressEvent _ _) = False"
| "ends_answer _ = True"

text \<open>The source throws on any other event; \<open>push\<close> asks only for an event that ends the answer.\<close>

fun answer_of :: "assistant_event \<Rightarrow> assistant_message" where
  "answer_of (DoneEvent m) = m"
| "answer_of (ErrorEvent m) = m"
| "answer_of (ProgressEvent _ m) = m"

section \<open>Runs\<close>

text \<open>
  A run of a stream: the events accepted, that is pushed before the stream was done, and what was
  handed out, in order. A reader waits for its event before it asks for the next.
\<close>

inductive stream_run ::
  "('e \<Rightarrow> bool) \<Rightarrow> ('e \<Rightarrow> 'r) \<Rightarrow> ('e, 'r) event_stream \<Rightarrow> 'e list \<Rightarrow> (nat \<times> 'e delivery) list \<Rightarrow> bool"
  for is_complete :: "'e \<Rightarrow> bool" and result_of :: "'e \<Rightarrow> 'r" where
  created: "stream_run is_complete result_of new_stream [] []"
| pushed: "stream_run is_complete result_of s es ds \<Longrightarrow> push is_complete result_of e s = (s', d) \<Longrightarrow>
     stream_run is_complete result_of s' (if es_done s then es else es @ [e]) (ds @ d)"
| ended: "stream_run is_complete result_of s es ds \<Longrightarrow> end_stream r s = (s', d) \<Longrightarrow>
     stream_run is_complete result_of s' es (ds @ d)"
| pulled: "stream_run is_complete result_of s es ds \<Longrightarrow> w \<notin> set (es_waiting s) \<Longrightarrow> pull w s = (s', d) \<Longrightarrow>
     stream_run is_complete result_of s' es (ds @ d)"

definition items :: "(nat \<times> 'e delivery) list \<Rightarrow> 'e list" where
  "items ds = List.map_filter (\<lambda>(w, d). case d of Item e \<Rightarrow> Some e | EndOfStream \<Rightarrow> None) ds"

lemma items_simps [simp]:
  "items [] = []" "items ((w, Item e) # ds) = e # items ds" "items ((w, EndOfStream) # ds) = items ds"
  "items (ds @ ds') = items ds @ items ds'" "items (map (\<lambda>w. (w, EndOfStream)) ws) = []"
  by (simp_all add: items_def List.map_filter_def filter_empty_conv)

lemma resolve_fields [simp]:
  "es_queue (resolve_final_result r s) = es_queue s" "es_waiting (resolve_final_result r s) = es_waiting s"
  "es_done (resolve_final_result r s) = es_done s"
  "es_result (resolve_final_result r s) = (case es_result s of None \<Rightarrow> Some r | Some r' \<Rightarrow> Some r')"
  by (simp_all add: resolve_final_result_def split: option.split)

lemmas stream_ops = push_def end_stream_def pull_def Let_def

text \<open>Nobody waits while there is an event, and nothing follows the event that ended the answer.\<close>

definition stream_ok :: "('e \<Rightarrow> bool) \<Rightarrow> ('e \<Rightarrow> 'r) \<Rightarrow> ('e, 'r) event_stream \<Rightarrow> 'e list \<Rightarrow> bool" where
  "stream_ok is_complete result_of s es \<longleftrightarrow>
     (es_queue s = [] \<or> es_waiting s = []) \<and> distinct (es_waiting s)
     \<and> list_all (\<lambda>e. \<not> is_complete e) (butlast es)
     \<and> (es \<noteq> [] \<and> is_complete (last es) \<longrightarrow> es_done s \<and> es_result s = Some (result_of (last es)))
     \<and> (\<not> es_done s \<longrightarrow> es_result s = None)"

lemma stream_run_ok: "stream_run is_complete result_of s es ds \<Longrightarrow> es = items ds @ es_queue s \<and> stream_ok is_complete result_of s es"
proof (induction rule: stream_run.induct)
  case created
  then show ?case by (simp add: new_stream_def stream_ok_def)
next
  case (pushed s es ds e s' d)
  show ?case
  proof (cases "es_done s")
    case True
    with pushed.hyps(2) have "s' = s" "d = []" by (simp_all add: push_def)
    moreover have "(if es_done s then es else es @ [e]) = es" using True by simp
    ultimately show ?thesis using pushed.IH by (metis append_Nil2)
  next
    case False
    from pushed.IH have ok: "stream_ok is_complete result_of s es" and es: "es = items ds @ es_queue s" by blast+
    from ok False have "list_all (\<lambda>e. \<not> is_complete e) es"
      by (cases es rule: rev_cases) (auto simp: stream_ok_def)
    with ok False pushed.hyps(2) have "stream_ok is_complete result_of s' (es @ [e])"
      by (auto simp: stream_ok_def push_def Let_def split: list.splits if_splits)
    moreover have "es @ [e] = items (ds @ d) @ es_queue s'"
      using ok es False pushed.hyps(2) by (auto simp: stream_ok_def push_def Let_def split: list.splits if_splits)
    ultimately show ?thesis using False by simp
  qed
next
  case (ended s es ds r s' d)
  then show ?case by (auto simp: stream_ok_def end_stream_def Let_def split: option.splits)
next
  case (pulled s es ds w s' d)
  then show ?case by (auto simp: stream_ok_def pull_def split: list.splits if_splits)
qed

text \<open>
  The stream loses, doubles and reorders nothing: in every run, with any number of readers, the
  events accepted so far are those handed out, in the order they were handed out, followed by those
  still queued.
\<close>

theorem stream_is_first_in_first_out:
  assumes "stream_run is_complete result_of s es ds"
  shows "es = items ds @ es_queue s"
  using stream_run_ok [OF assms] by blast

text \<open>
  An answer ends once: in every run of an assistant message stream the event that ends the answer
  is the last one accepted, and the final result is then its message, whatever is pushed or ended later.
\<close>

theorem the_first_end_of_an_answer_is_final:
  assumes "stream_run ends_answer answer_of s es ds" "e \<in> set es" "ends_answer e"
  shows "\<exists>fs. es = fs @ [e] \<and> es_result s = Some (answer_of e)"
proof -
  have ok: "stream_ok ends_answer answer_of s es" using stream_run_ok [OF assms(1)] by blast
  from assms(2) have "es \<noteq> []" by auto
  then have es: "es = butlast es @ [last es]" by simp
  have "e \<notin> set (butlast es)" using ok assms(3) by (auto simp: stream_ok_def list_all_iff)
  with assms(2) es have "e = last es" by (metis Un_iff append_Nil set_ConsD set_append empty_iff empty_set)
  moreover from this have "es_result s = Some (answer_of e)"
    using ok assms(3) \<open>es \<noteq> []\<close> by (simp add: stream_ok_def)
  ultimately show ?thesis using es by metis
qed

text \<open>A lone reader: after the end of the answer its pulls hand out the queue and then the end.\<close>

fun pulls :: "nat \<Rightarrow> nat \<Rightarrow> ('e, 'r) event_stream \<Rightarrow> ('e, 'r) event_stream \<times> (nat \<times> 'e delivery) list" where
  "pulls w 0 s = (s, [])"
| "pulls w (Suc n) s =
     (case pull w s of (s', d) \<Rightarrow> case pulls w n s' of (s'', d') \<Rightarrow> (s'', d @ d'))"

lemma pulls_drain:
  "es_done s \<Longrightarrow>
     snd (pulls w (Suc (length (es_queue s))) s) = map (\<lambda>e. (w, Item e)) (es_queue s) @ [(w, EndOfStream)]"
proof (induction "es_queue s" arbitrary: s)
  case Nil
  then show ?case by (simp add: pull_def split: list.split)
next
  case (Cons e es)
  from Cons.hyps(1) [of "s\<lparr>es_queue := es\<rparr>"] Cons.prems have
    "snd (pulls w (Suc (length es)) (s\<lparr>es_queue := es\<rparr>)) = map (\<lambda>e. (w, Item e)) es @ [(w, EndOfStream)]" by simp
  moreover have "pull w s = (s\<lparr>es_queue := es\<rparr>, [(w, Item e)])" using Cons.hyps(2) [symmetric] by (simp add: pull_def)
  then have "snd (pulls w (Suc n) s) = (w, Item e) # snd (pulls w n (s\<lparr>es_queue := es\<rparr>))" for n
    by (simp add: split_beta)
  ultimately show ?case using Cons.hyps(2) [symmetric] by (metis length_Cons list.simps(9) append_Cons)
qed

text \<open>
  A reader gets to the end: once the stream is done, a reader that asks once more than there are
  events in the queue is handed all of them in order and then the end of the stream.
\<close>

theorem a_done_stream_is_drained:
  assumes "es_done s"
  shows "snd (pulls w (Suc (length (es_queue s))) s) = map (\<lambda>e. (w, Item e)) (es_queue s) @ [(w, EndOfStream)]"
  by (rule pulls_drain [OF assms])

text \<open>
  A second reader is left waiting: when two readers wait and the answer ends, the first is handed
  the last event, and no push and no pull ever resolves the promise of the second; only \<open>end\<close> does.
\<close>

theorem the_end_of_an_answer_wakes_one_reader:
  assumes "es_waiting s = v # w # ws" "\<not> es_done s" "ends_answer e" "push ends_answer answer_of e s = (s', d)"
  shows "w \<in> set (es_waiting s') \<and> w \<in> set (es_waiting (fst (push ends_answer answer_of f s')))
     \<and> w \<in> set (es_waiting (fst (pull u s')))"
  using assms by (auto simp: push_def pull_def Let_def split: list.split)

section \<open>One answer, two readers\<close>

definition sample_end :: assistant_event where
  "sample_end = DoneEvent
     \<lparr>am_content = [TextBlock (js ''hi'') None], am_api = [], am_provider = [], am_model = [],
      am_response_model = None, am_response_id = None, am_diagnostics = None, am_usage = empty_usage,
      am_stop = Stop, am_stop_raw = None, am_error = None, am_time = 0\<rparr>"

definition waiting_pair :: "(assistant_event, assistant_message) event_stream" where
  "waiting_pair = \<lparr>es_queue = [], es_waiting = [0, 1], es_done = False, es_result = None\<rparr>"

lemma waiting_pair_run: "stream_run ends_answer answer_of waiting_pair [] []"
proof -
  have "stream_run ends_answer answer_of (new_stream\<lparr>es_waiting := [0]\<rparr>) [] ([] @ [])"
    by (rule stream_run.pulled [OF stream_run.created, of 0]) (simp_all add: pull_def new_stream_def)
  then have "stream_run ends_answer answer_of waiting_pair [] ([] @ [])"
    by (intro stream_run.pulled [of _ _ "new_stream\<lparr>es_waiting := [0]\<rparr>" _ _ 1])
      (simp_all add: pull_def new_stream_def waiting_pair_def)
  then show ?thesis by simp
qed

definition after_answer :: "(assistant_event, assistant_message) event_stream" where
  "after_answer = \<lparr>es_queue = [], es_waiting = [1], es_done = True, es_result = Some (answer_of sample_end)\<rparr>"

lemma answer_pushed: "push ends_answer answer_of sample_end waiting_pair = (after_answer, [(0, Item sample_end)])"
  by (simp add: push_def waiting_pair_def after_answer_def sample_end_def resolve_final_result_def)

lemma after_answer_run: "stream_run ends_answer answer_of after_answer [sample_end] [(0, Item sample_end)]"
  using stream_run.pushed [OF waiting_pair_run answer_pushed] by (simp add: waiting_pair_def)

theorem stream_is_first_in_first_out_witness: "[sample_end] = items [(0, Item sample_end)] @ es_queue after_answer"
  by (rule stream_is_first_in_first_out [OF after_answer_run])

theorem the_first_end_of_an_answer_is_final_witness:
  "\<exists>fs. [sample_end] = fs @ [sample_end] \<and> es_result after_answer = Some (answer_of sample_end)"
  by (rule the_first_end_of_an_answer_is_final [OF after_answer_run]) (simp_all add: sample_end_def)

theorem a_done_stream_is_drained_witness:
  "snd (pulls 1 1 after_answer) = [(1, EndOfStream)]"
  using a_done_stream_is_drained [of after_answer 1] by (simp add: after_answer_def)

theorem the_end_of_an_answer_wakes_one_reader_witness:
  "1 \<in> set (es_waiting after_answer)
   \<and> 1 \<in> set (es_waiting (fst (push ends_answer answer_of sample_end after_answer)))
   \<and> 1 \<in> set (es_waiting (fst (pull 2 after_answer)))"
  by (rule the_end_of_an_answer_wakes_one_reader [OF _ _ _ answer_pushed, of _ _ "[]"])
    (simp_all add: waiting_pair_def sample_end_def)

end
