(* ===== verification/GoalsProps.thy ===== *)
theory GoalsProps
  imports Goals SessionInvariant
begin

text \<open>
  What holds of the goal of a thread: an invariant of every session the handlers can reach, the
  accounting of a sequence of answers, the restart from the session file, and two flaws of the
  accounting.
\<close>

section \<open>Well-formed goals\<close>

definition goal_wf :: "goal_state \<Rightarrow> bool" where
  "goal_wf g \<longleftrightarrow>
     g_active g = (g_status g = GoalActive) \<and> 0 \<le> g_tokens g \<and> 0 \<le> g_time g \<and> 0 \<le> g_continuations g
     \<and> (g_status g = GoalIdle \<or> has_objective g) \<and> \<not> (g_status g = GoalActive \<and> budget_exhausted g)"

definition goal_ok :: "goal_session \<Rightarrow> bool" where
  "goal_ok s \<longleftrightarrow> goal_wf (gs_goal s) \<and> (gs_started s \<noteq> None \<longleftrightarrow> g_status (gs_goal s) = GoalActive)"

definition persisted :: "goal_effect list \<Rightarrow> goal_state list" where
  "persisted fx = List.map_filter (\<lambda>f. case f of PersistGoal g \<Rightarrow> Some g | _ \<Rightarrow> None) fx"

definition step_ok :: "goal_step \<Rightarrow> bool" where
  "step_ok r \<longleftrightarrow> goal_ok (fst r) \<and> list_all goal_wf (persisted (snd r))"

lemma persisted_simps [simp]:
  "persisted [] = []" "persisted (PersistGoal g # fx) = g # persisted fx" "persisted (GoalUpdate g # fx) = persisted fx"
  "persisted (QueueCleared # fx) = persisted fx" "persisted (IpythonActivated # fx) = persisted fx"
  "persisted (FrontFollowUp m # fx) = persisted fx" "persisted (FollowUp m # fx) = persisted fx"
  "persisted (Steered m # fx) = persisted fx" "persisted (NextTurn m # fx) = persisted fx" "persisted (fx @ gx) = persisted fx @ persisted gx"
  by (simp_all add: persisted_def List.map_filter_def)

lemma persisted_update [simp]: "persisted (goal_update now s # fx) = persisted fx"
  by (simp add: goal_update_def)

lemma normalize_fields [simp]:
  "g_status (normalize_goal_state g) = g_status g" "g_budget (normalize_goal_state g) = g_budget g"
  "has_objective (normalize_goal_state g) = has_objective g" "g_active (normalize_goal_state g) = (g_status g = GoalActive)"
  "g_tokens (normalize_goal_state g) = max 0 (g_tokens g)" "g_time (normalize_goal_state g) = max 0 (g_time g)"
  "g_continuations (normalize_goal_state g) = max 0 (g_continuations g)"
  "g_id (normalize_goal_state g) = g_id g" "g_objective (normalize_goal_state g) = g_objective g"
  by (simp_all add: normalize_goal_state_def has_objective_def)

lemma has_objective_updates [simp]:
  "has_objective (g\<lparr>g_active := a\<rparr>) = has_objective g" "has_objective (g\<lparr>g_status := st\<rparr>) = has_objective g"
  "has_objective (g\<lparr>g_tokens := k\<rparr>) = has_objective g" "has_objective (g\<lparr>g_time := t\<rparr>) = has_objective g"
  "has_objective (g\<lparr>g_continuations := c\<rparr>) = has_objective g" "has_objective (g\<lparr>g_updated := u\<rparr>) = has_objective g"
  "has_objective (g\<lparr>g_reason := r\<rparr>) = has_objective g" "has_objective (g\<lparr>g_error := e\<rparr>) = has_objective g"
  by (simp_all add: has_objective_def)

lemma budget_exhausted_fields:
  "budget_exhausted g = (case g_budget g of None \<Rightarrow> False | Some b \<Rightarrow> b \<le> g_tokens g)"
  by (simp add: budget_exhausted_def)

text \<open>What \<open>set_goal_state\<close> needs of the next goal, and what it gives.\<close>

definition settable :: "goal_state \<Rightarrow> bool" where
  "settable g \<longleftrightarrow>
     0 \<le> g_tokens g \<and> (g_status g = GoalIdle \<or> has_objective g) \<and> \<not> (g_status g = GoalActive \<and> budget_exhausted g)"

lemma wf_settable: "goal_wf g \<Longrightarrow> settable g"
  by (simp add: goal_wf_def settable_def)

lemma settable_updates [simp]:
  "settable (g\<lparr>g_active := a\<rparr>) = settable g" "settable (g\<lparr>g_time := t\<rparr>) = settable g"
  "settable (g\<lparr>g_continuations := c\<rparr>) = settable g" "settable (g\<lparr>g_updated := u\<rparr>) = settable g"
  "settable (g\<lparr>g_reason := r\<rparr>) = settable g" "settable (g\<lparr>g_error := e\<rparr>) = settable g"
  by (simp_all add: settable_def budget_exhausted_def split: option.split)

lemma settable_status:
  "st \<noteq> GoalActive \<Longrightarrow> settable (g\<lparr>g_status := st\<rparr>) \<longleftrightarrow> 0 \<le> g_tokens g \<and> (st = GoalIdle \<or> has_objective g)"
  by (simp add: settable_def)

lemma normalize_wf: "settable g \<Longrightarrow> goal_wf (normalize_goal_state g)"
  by (auto simp: settable_def goal_wf_def budget_exhausted_def split: option.splits)

lemma set_goal_ok [intro]: "settable g \<Longrightarrow> step_ok (set_goal_state now g s)"
  using normalize_wf [of "g\<lparr>g_updated := Some now\<rparr>"]
  by (auto simp: step_ok_def goal_ok_def set_goal_state_def Let_def split: option.split)

lemma step_ok_append: "step_ok r \<Longrightarrow> list_all goal_wf (persisted fx) \<Longrightarrow> step_ok (fst r, fx @ snd r)"
  by (simp add: step_ok_def)

lemma step_ok_same [simp]: "persisted fx = [] \<Longrightarrow> step_ok (s, fx) = goal_ok s"
  by (simp add: step_ok_def)

lemma goal_ok_updates [simp]:
  "goal_ok (s\<lparr>gs_awaits := b\<rparr>) = goal_ok s" "goal_ok (s\<lparr>gs_aborting := b\<rparr>) = goal_ok s"
  "goal_ok (s\<lparr>gs_accounted := is\<rparr>) = goal_ok s"
  by (simp_all add: goal_ok_def)

text \<open>The clock changes nothing but the time.\<close>

lemma wall_clock:
  "\<exists>t. goal_with_current_wall_clock now s = (gs_goal s)\<lparr>g_time := g_time (gs_goal s) + t\<rparr> \<and> 0 \<le> t"
proof -
  have "gs_goal s = (gs_goal s)\<lparr>g_time := g_time (gs_goal s) + 0\<rparr>" by simp
  then show ?thesis unfolding goal_with_current_wall_clock_def Let_def
    by (auto split: option.split intro: exI [of _ "0 :: int"] simp: le_less)
qed

lemma accounted_clock:
  assumes "goal_with_accounted_wall_clock now s = (g, s')"
  shows "\<exists>t. g = (gs_goal s)\<lparr>g_time := g_time (gs_goal s) + t\<rparr> \<and> 0 \<le> t"
    "gs_goal s' = gs_goal s" "gs_awaits s' = gs_awaits s" "gs_aborting s' = gs_aborting s"
    "gs_accounted s' = gs_accounted s"
  using assms wall_clock [of now s] by (auto simp: goal_with_accounted_wall_clock_def Let_def split: if_splits)

section \<open>Every handler keeps a goal well-formed\<close>

lemma goal_okD: "goal_ok s \<Longrightarrow> goal_wf (gs_goal s)" "goal_ok s \<Longrightarrow> settable (gs_goal s)"
  by (simp_all add: goal_ok_def wf_settable)

lemma clear_goal_ok: "step_ok (clear_goal now s)"
proof -
  have "settable empty_goal_state" by (simp add: settable_def empty_goal_state_def)
  from step_ok_append [OF set_goal_ok [OF this], of "[QueueCleared]"] show ?thesis
    by (simp add: clear_goal_def clear_queued_goal_contexts_def split_beta)
qed

text \<open>The clock, then a change of status that is not a start.\<close>

lemma finish_ok:
  assumes "goal_with_accounted_wall_clock now s = (g, s')" "goal_ok s" "has_objective (gs_goal s)" "st \<noteq> GoalActive"
  shows "step_ok (set_goal_state now (g\<lparr>g_active := a, g_status := st, g_reason := r, g_error := e\<rparr>) s'')"
proof (rule set_goal_ok)
  from accounted_clock(1) [OF assms(1)] obtain t where "g = (gs_goal s)\<lparr>g_time := g_time (gs_goal s) + t\<rparr>" by blast
  with assms goal_okD(1) [OF assms(2)]
  show "settable (g\<lparr>g_active := a, g_status := st, g_reason := r, g_error := e\<rparr>)"
    by (simp add: settable_def goal_wf_def)
qed

lemma active_objective: "goal_ok s \<Longrightarrow> g_status (gs_goal s) = GoalActive \<Longrightarrow> has_objective (gs_goal s)"
  by (auto simp: goal_ok_def goal_wf_def)

lemma pause_goal_ok:
  assumes "goal_ok s"
  shows "step_ok (pause_goal now reason s)"
proof (cases "g_status (gs_goal s) = GoalActive")
  case True
  let ?s = "s\<lparr>gs_awaits := False\<rparr>"
  obtain g s' where g: "goal_with_accounted_wall_clock now ?s = (g, s')" by fastforce
  have ok: "goal_ok ?s" "has_objective (gs_goal ?s)" using assms active_objective [OF assms True] by simp_all
  from step_ok_append [OF finish_ok [OF g ok, of GoalPaused], of "[QueueCleared]"] show ?thesis
    using True g by (simp add: pause_goal_def clear_queued_goal_contexts_def split_beta)
qed (use assms in \<open>simp add: pause_goal_def clear_queued_goal_contexts_def\<close>)

lemma finish_with_error_ok: "goal_ok s \<Longrightarrow> step_ok (finish_goal_with_error now msg s)"
  using finish_ok [of now s] by (auto simp: finish_goal_with_error_def split_beta prod_eq_iff)

lemma finish_for_terminal_ok: "goal_ok s \<Longrightarrow> step_ok (finish_goal_for_terminal_assistant_message now m s)"
  by (simp add: finish_goal_for_terminal_assistant_message_def finish_with_error_ok)

lemma stop_continuation_ok: "goal_ok s \<Longrightarrow> step_ok (snd (stop_goal_continuation_for_terminal_message now m s))"
  by (simp add: stop_goal_continuation_for_terminal_message_def finish_for_terminal_ok)

lemma start_goal_ok: "start_goal now i t b s = Inr r \<Longrightarrow> step_ok r"
proof -
  assume r: "start_goal now i t b s = Inr r"
  then obtain obj bud where v: "validate_goal_objective t = Inr obj" "validate_goal_budget b = Inr bud"
    by (auto simp: start_goal_def split: sum.splits)
  have "obj \<noteq> []" using v(1) by (auto simp: validate_goal_objective_def Let_def split: if_splits)
  moreover have "bud = Some k \<Longrightarrow> 0 < k" for k
    using v(2) by (auto simp: validate_goal_budget_def is_integer_def split: option.splits jsnum.splits if_splits)
  ultimately show ?thesis using r v
    by (auto simp: start_goal_def settable_def has_objective_def budget_exhausted_def intro!: set_goal_ok split: option.split)
qed

lemma account_ok:
  assumes "goal_ok s"
  shows "step_ok (snd (account_goal_usage now i m s))"
proof (cases "has_objective (gs_goal s) \<and> \<not> terminal_answer m \<and> i \<notin> set (gs_accounted s) \<and> g_status (gs_goal s) = GoalActive")
  case True
  let ?s = "s\<lparr>gs_accounted := i # gs_accounted s\<rparr>"
  obtain g s' where g: "goal_with_accounted_wall_clock now ?s = (g, s')" by fastforce
  from accounted_clock(1) [OF g] obtain t where t: "g = (gs_goal s)\<lparr>g_time := g_time (gs_goal s) + t\<rparr>" by auto
  let ?g = "g\<lparr>g_tokens := g_tokens g + goal_token_delta_for_usage (am_usage m)\<rparr>"
  have "0 \<le> g_tokens ?g" "has_objective ?g"
    using True t goal_okD(1) [OF assms] by (simp_all add: goal_wf_def goal_token_delta_for_usage_def)
  then have "\<not> budget_exhausted ?g \<Longrightarrow> settable ?g" "settable (?g\<lparr>g_status := GoalBudgetLimited\<rparr>)"
    by (simp_all add: settable_def)
  with True g show ?thesis by (auto simp: account_goal_usage_def Let_def settable_def intro!: set_goal_ok)
qed (use assms in \<open>auto simp: account_goal_usage_def\<close>)

lemma message_end_ok: "goal_ok s \<Longrightarrow> step_ok (goal_message_end now i m s)"
  using account_ok [of s now i m] by (auto simp: goal_message_end_def step_ok_def split_beta split: sum.split)

lemma create_from_host_ok: "create_goal_from_host now i t b s = Inr r \<Longrightarrow> step_ok r"
  by (auto simp: create_goal_from_host_def intro: start_goal_ok split: goal_status.splits)

lemma complete_from_host_ok:
  assumes "goal_ok s" "complete_goal_from_host now s = Inr r"
  shows "step_ok r"
proof -
  obtain g s' where g: "goal_with_accounted_wall_clock now s = (g, s')" by fastforce
  have "has_objective (gs_goal s)" using assms(2) by (auto simp: complete_goal_from_host_def split: if_splits)
  from step_ok_append [OF finish_ok [OF g assms(1) this, of GoalComplete], of "[QueueCleared]"] assms(2) g
  show ?thesis by (auto simp: complete_goal_from_host_def clear_queued_goal_contexts_def split_beta split: if_splits)
qed

lemma runtime_persists: "ensure_goal_runtime_active rt = Inr fx \<Longrightarrow> persisted fx = []"
  by (auto simp: ensure_goal_runtime_active_def split: if_splits)

lemma context_persists: "persisted (snd (run_or_queue_goal_context now rt k images s)) = []"
  by (auto simp: run_or_queue_goal_context_def runtime_persists split: sum.split)

lemma resume_goal_ok:
  assumes "goal_ok s"
  shows "step_ok (snd (resume_goal now rt s))"
proof (cases "has_objective (gs_goal s) \<and> (g_status (gs_goal s) = GoalPaused \<or> g_status (gs_goal s) = GoalBudgetLimited)")
  case True
  let ?st = "if budget_exhausted (gs_goal s) then GoalBudgetLimited else GoalActive"
  have "settable ((gs_goal s)\<lparr>g_active := a, g_status := ?st, g_reason := r, g_error := e\<rparr>)" for a r e
    using True goal_okD(1) [OF assms] by (auto simp: settable_def goal_wf_def budget_exhausted_def split: option.splits)
  from set_goal_ok [OF this] True show ?thesis
    by (auto simp: resume_goal_def Let_def split_beta step_ok_def context_persists)
qed (use assms in \<open>auto simp: resume_goal_def Let_def\<close>)

lemma count_continuation_ok: "goal_ok s \<Longrightarrow> step_ok (count_continuation now s)"
  by (auto simp: count_continuation_def intro!: set_goal_ok dest: goal_okD(2))

lemma step_ok_pair: "step_ok (s, fx) \<longleftrightarrow> goal_ok s \<and> list_all goal_wf (persisted fx)"
  by (simp add: step_ok_def)

lemma continuation_messages_ok:
  assumes "goal_ok s"
  shows "step_ok (snd (get_goal_continuation_messages now rt tx unsettled aborted m s))"
proof -
  obtain stopped s1 fx where stop: "stop_goal_continuation_for_terminal_message now m s = (stopped, s1, fx)"
    by (metis prod.collapse)
  have ok: "goal_ok s1" "list_all goal_wf (persisted fx)"
    using stop_continuation_ok [OF assms, of now m] stop by (simp_all add: step_ok_pair)
  obtain s2 fx2 where c: "count_continuation now (s1\<lparr>gs_awaits := False\<rparr>) = (s2, fx2)" by fastforce
  have c2: "goal_ok s2" "list_all goal_wf (persisted fx2)"
    using count_continuation_ok [of "s1\<lparr>gs_awaits := False\<rparr>" now] ok c by (simp_all add: step_ok_pair)
  have e: "step_ok (finish_goal_with_error now msg (s1\<lparr>gs_awaits := False\<rparr>))"
    "step_ok (finish_goal_with_error now msg s2)" for msg
    using ok c2 by (simp_all add: finish_with_error_ok)
  show ?thesis using stop ok c c2 e
    by (auto simp: get_goal_continuation_messages_def Let_def step_ok_def split_beta runtime_persists split: sum.split)
qed

lemma goal_continuation_ok:
  assumes "goal_ok s"
  shows "step_ok (snd (goal_continuation now rt tx unsettled aborted queued arrived m s))"
proof -
  obtain ms s' fx where g: "get_goal_continuation_messages now rt tx unsettled aborted m s = (ms, s', fx)"
    by (metis prod.collapse)
  then have ok: "goal_ok s'" "list_all goal_wf (persisted fx)"
    using continuation_messages_ok [OF assms, of now rt tx unsettled aborted m] by (simp_all add: step_ok_pair)
  have rolled: "step_ok (set_goal_state now (gs_goal s) s')" using goal_okD(2) [OF assms] by (rule set_goal_ok)
  obtain s'' fx' where b: "set_goal_state now (gs_goal s) s' = (s'', fx')" by fastforce
  have "g_status (gs_goal s'') = g_status (gs_goal s)" using b by (auto simp: set_goal_state_def Let_def)
  then have "goal_ok (s''\<lparr>gs_started := gs_started s\<rparr>)"
    using rolled b assms by (simp add: step_ok_pair goal_ok_def)
  with g ok rolled b assms show ?thesis by (auto simp: goal_continuation_def step_ok_pair)
qed

lemma resume_continuation_ok:
  assumes "goal_ok s"
  shows "step_ok (resume_goal_continuation now rt busy paused admits s)"
proof -
  obtain s2 fx2 where c: "count_continuation now s = (s2, fx2)" by fastforce
  then have c2: "goal_ok s2" "list_all goal_wf (persisted fx2)"
    using count_continuation_ok [OF assms, of now] by (simp_all add: step_ok_pair)
  have rolled: "step_ok (set_goal_state now (gs_goal s) s')" for s' using goal_okD(2) [OF assms] by (rule set_goal_ok)
  show ?thesis using assms c c2 rolled
    by (auto simp: resume_goal_continuation_def step_ok_def split_beta runtime_persists split: sum.split)
qed

lemma handle_command_ok:
  assumes "goal_ok s"
  shows "step_ok (snd (handle_goal_command now i rt ready images c s))"
proof (cases c)
  case (StartCommand t b)
  let ?s = "s\<lparr>gs_awaits := False\<rparr>"
  have "step_ok r" if "start_goal now i t b ?s = Inr r" for r using that by (rule start_goal_ok)
  with StartCommand assms show ?thesis
    by (auto simp: handle_goal_command_def clear_queued_goal_contexts_def step_ok_def split_beta
        runtime_persists context_persists split: sum.split)
qed (use assms in \<open>simp_all add: handle_goal_command_def clear_goal_ok pause_goal_ok resume_goal_ok\<close>)

section \<open>Reachable goals\<close>

text \<open>
  The sessions the handlers can reach from a new one, with the goals persisted on the way. A plain
  navigation reads back a goal that was persisted, or none.
\<close>

inductive goal_run :: "goal_session \<Rightarrow> goal_state list \<Rightarrow> bool" where
  opened: "open_goal_session now i depth initial [] = Inr (s, fx) \<Longrightarrow> goal_run s (persisted fx)"
| command: "goal_run s gs \<Longrightarrow> handle_goal_command now i rt ready images c s = (e, s', fx) \<Longrightarrow>
     goal_run s' (gs @ persisted fx)"
| asked: "goal_run s gs \<Longrightarrow> handle_goal_host_request b now i ty obj bud s = Inr (r, s', fx) \<Longrightarrow>
     goal_run s' (gs @ persisted fx)"
| answered: "goal_run s gs \<Longrightarrow> goal_message_end now k m s = (s', fx) \<Longrightarrow> goal_run s' (gs @ persisted fx)"
| finished: "goal_run s gs \<Longrightarrow> finish_goal_for_terminal_assistant_message now m s = (s', fx) \<Longrightarrow>
     goal_run s' (gs @ persisted fx)"
| continued: "goal_run s gs \<Longrightarrow>
     goal_continuation now rt tx unsettled aborted queued arrived m s = (ms, s', fx) \<Longrightarrow> goal_run s' (gs @ persisted fx)"
| resumed: "goal_run s gs \<Longrightarrow> resume_goal_continuation now rt busy paused admits s = (s', fx) \<Longrightarrow>
     goal_run s' (gs @ persisted fx)"
| aborting: "goal_run s gs \<Longrightarrow> goal_run (begin_abort s) gs"
| aborted: "goal_run s gs \<Longrightarrow> goal_run (end_abort s) gs"
| navigated: "goal_run s gs \<Longrightarrow> load_persisted_goal_state path \<in> insert empty_goal_state (set gs) \<Longrightarrow>
     reload_goal_state_from_branch now False path s = (s', fx) \<Longrightarrow> goal_run s' gs"

lemma map_sum_Inr: "map_sum f g x = Inr y \<longleftrightarrow> (\<exists>z. x = Inr z \<and> y = g z)"
  by (cases x) auto

lemma host_request_ok:
  "goal_ok s \<Longrightarrow> handle_goal_host_request b now i ty obj bud s = Inr (r, step) \<Longrightarrow> step_ok step"
  by (auto simp: handle_goal_host_request_def map_sum_Inr
      intro: create_from_host_ok complete_from_host_ok
      split: if_splits option.splits host_value.splits)

lemma empty_goal_wf: "goal_wf empty_goal_state"
  by (simp add: goal_wf_def empty_goal_state_def)

lemma open_session_ok:
  assumes "open_goal_session now i depth initial [] = Inr r"
  shows "step_ok r"
proof -
  let ?s = "\<lparr>gs_goal = empty_goal_state, gs_started = None, gs_awaits = False, gs_accounted = [], gs_aborting = False\<rparr>"
  have none: "load_persisted_goal_state [] = empty_goal_state"
    by (simp add: load_persisted_goal_state_def List.map_filter_def)
  have empty: "goal_ok ?s" using empty_goal_wf by (simp add: goal_ok_def empty_goal_state_def)
  have "goal_ok (s\<lparr>gs_started := Some now\<rparr>)" if "goal_ok s" "g_status (gs_goal s) = GoalActive" for s
    using that by (simp add: goal_ok_def)
  moreover have "goal_ok s \<and> list_all goal_wf (persisted fx)" if "start_goal now i t b ?s = Inr (s, fx)" for t b s fx
    using start_goal_ok [OF that] by (simp add: step_ok_pair)
  moreover have "g_status empty_goal_state = GoalIdle" by (simp add: empty_goal_state_def)
  ultimately show ?thesis
    using assms empty unfolding open_goal_session_def none Let_def
    by (auto simp: map_sum_Inr step_ok_def split: option.splits prod.splits sum.splits if_splits)
qed

lemma goal_run_ok: "goal_run s gs \<Longrightarrow> goal_ok s \<and> list_all goal_wf gs"
proof (induction rule: goal_run.induct)
  case (opened now i depth initial s fx)
  from open_session_ok [OF this] show ?case by (simp add: step_ok_pair)
next
  case (command s gs now i rt ready images c e s' fx)
  then show ?case using handle_command_ok [of s now i rt ready images c] by (simp add: step_ok_pair)
next
  case (asked s gs b now i ty obj bud r s' fx)
  then show ?case using host_request_ok [of s b now i ty obj bud r "(s', fx)"] by (simp add: step_ok_pair)
next
  case (answered s gs now k m s' fx)
  then show ?case using message_end_ok [of s now k m] by (simp add: step_ok_pair)
next
  case (finished s gs now m s' fx)
  then show ?case using finish_for_terminal_ok [of s now m] by (simp add: step_ok_pair)
next
  case (continued s gs now rt tx unsettled aborted queued arrived m ms s' fx)
  then show ?case
    using goal_continuation_ok [of s now rt tx unsettled aborted queued arrived m] by (simp add: step_ok_pair)
next
  case (resumed s gs now rt busy paused admits s' fx)
  then show ?case using resume_continuation_ok [of s now rt busy paused admits] by (simp add: step_ok_pair)
next
  case (navigated s gs path now s' fx)
  with empty_goal_wf have "goal_wf (load_persisted_goal_state path)" by (auto simp: list_all_iff)
  with navigated show ?case by (auto simp: reload_goal_state_from_branch_def Let_def goal_ok_def split: if_splits)
qed (simp_all add: begin_abort_def end_abort_def)


section \<open>Continuations\<close>

lemma stop_continuation_cases:
  "stop_goal_continuation_for_terminal_message now m s = (stopped, s', fx) \<Longrightarrow>
     stopped = terminal_answer m \<and> (stopped \<or> s' = s \<and> fx = [])"
  by (auto simp: stop_goal_continuation_for_terminal_message_def split: if_splits)

lemma set_goal_fields:
  "gs_goal (fst (set_goal_state now g s)) = normalize_goal_state (g\<lparr>g_updated := Some now\<rparr>)"
  by (simp add: set_goal_state_def Let_def)


section \<open>Accounting a run of answers\<close>

type_synonym answer = "int \<times> nat \<times> assistant_message"

definition account_all :: "answer list \<Rightarrow> goal_session \<Rightarrow> goal_session" where
  "account_all as s = fold (\<lambda>(now, i, m) s. fst (goal_message_end now i m s)) as s"

definition answer_tokens :: "answer \<Rightarrow> int" where
  "answer_tokens a = goal_token_delta_for_usage (am_usage (snd (snd a)))"

lemma account_all_simps [simp]:
  "account_all [] s = s"
  "account_all ((now, i, m) # as) s = account_all as (fst (goal_message_end now i m s))"
  by (simp_all add: account_all_def)

lemma message_end_goal: "fst (goal_message_end now i m s) = fst (snd (account_goal_usage now i m s))"
  by (simp add: goal_message_end_def split_beta split: sum.split)

lemma account_inactive: "g_status (gs_goal s) \<noteq> GoalActive \<Longrightarrow> account_goal_usage now i m s = (False, s, [])"
  by (simp add: account_goal_usage_def)

lemma account_all_inactive: "g_status (gs_goal s) \<noteq> GoalActive \<Longrightarrow> account_all as s = s"
  by (induction as) (auto simp: message_end_goal account_inactive)

lemma answer_tokens_nonneg: "0 \<le> answer_tokens a"
  by (simp add: answer_tokens_def goal_token_delta_for_usage_def)

text \<open>One answer of an active goal.\<close>

lemma account_active:
  assumes "goal_ok s" "g_status (gs_goal s) = GoalActive" "i \<notin> set (gs_accounted s)" "\<not> terminal_answer m"
    and "fst (goal_message_end now i m s) = s'"
  shows "goal_ok s'" "g_tokens (gs_goal s') = g_tokens (gs_goal s) + answer_tokens (now, i, m)"
    "g_budget (gs_goal s') = g_budget (gs_goal s)" "set (gs_accounted s') = insert i (set (gs_accounted s))"
    "g_status (gs_goal s') = (if budget_exhausted (gs_goal s') then GoalBudgetLimited else GoalActive)"
proof -
  show "goal_ok s'" using message_end_ok [OF assms(1), of now i m] assms(5) by (simp add: step_ok_def)
  let ?s = "s\<lparr>gs_accounted := i # gs_accounted s\<rparr>"
  obtain g s1 where g: "goal_with_accounted_wall_clock now ?s = (g, s1)" by fastforce
  from accounted_clock(1) [OF g] obtain t where t: "g = (gs_goal s)\<lparr>g_time := g_time (gs_goal s) + t\<rparr>" by auto
  have a: "gs_accounted s1 = i # gs_accounted s" using accounted_clock(5) [OF g] by simp
  have "has_objective (gs_goal s)" by (rule active_objective [OF assms(1,2)])
  moreover have "0 \<le> g_tokens (gs_goal s) + answer_tokens (now, i, m)"
    using assms(1) answer_tokens_nonneg [of "(now, i, m)"] by (simp add: goal_ok_def goal_wf_def)
  ultimately have "g_tokens (gs_goal s') = g_tokens (gs_goal s) + answer_tokens (now, i, m)
     \<and> g_budget (gs_goal s') = g_budget (gs_goal s) \<and> set (gs_accounted s') = insert i (set (gs_accounted s))
     \<and> g_status (gs_goal s') = (if budget_exhausted (gs_goal s') then GoalBudgetLimited else GoalActive)"
    using assms(2-5) g t a
    by (auto simp: message_end_goal account_goal_usage_def Let_def set_goal_state_def answer_tokens_def budget_exhausted_def
        split: option.splits if_splits)
  then show "g_tokens (gs_goal s') = g_tokens (gs_goal s) + answer_tokens (now, i, m)"
    "g_budget (gs_goal s') = g_budget (gs_goal s)" "set (gs_accounted s') = insert i (set (gs_accounted s))"
    "g_status (gs_goal s') = (if budget_exhausted (gs_goal s') then GoalBudgetLimited else GoalActive)" by blast+
qed

text \<open>The tokens of a goal after a number of answers.\<close>

abbreviation tokens_after :: "goal_session \<Rightarrow> answer list \<Rightarrow> nat \<Rightarrow> int" where
  "tokens_after s as n \<equiv> g_tokens (gs_goal s) + sum_list (map answer_tokens (take n as))"

lemma account_all_prefix:
  assumes "goal_ok s" "g_status (gs_goal s) = GoalActive" "distinct (map (fst \<circ> snd) as)"
    "(fst \<circ> snd) ` set as \<inter> set (gs_accounted s) = {}" "list_all (\<lambda>a. \<not> terminal_answer (snd (snd a))) as"
  shows "\<exists>n \<le> length as. g_tokens (gs_goal (account_all as s)) = tokens_after s as n
     \<and> (n = length as \<and> g_status (gs_goal (account_all as s)) = GoalActive
        \<or> 0 < n \<and> g_status (gs_goal (account_all as s)) = GoalBudgetLimited
          \<and> (\<exists>b. g_budget (gs_goal s) = Some b \<and> tokens_after s as (n - 1) < b \<and> b \<le> tokens_after s as n))"
  using assms
proof (induction as arbitrary: s)
  case (Cons a as)
  obtain now i m where a: "a = (now, i, m)" by (cases a)
  define s' where "s' = fst (goal_message_end now i m s)"
  have s': "goal_ok s'" "g_tokens (gs_goal s') = g_tokens (gs_goal s) + answer_tokens a"
    "g_budget (gs_goal s') = g_budget (gs_goal s)" "set (gs_accounted s') = insert i (set (gs_accounted s))"
    "g_status (gs_goal s') = (if budget_exhausted (gs_goal s') then GoalBudgetLimited else GoalActive)"
    using account_active [OF Cons.prems(1,2), of i m now s'] Cons.prems(4,5) by (simp_all add: a s'_def)
  show ?case
  proof (cases "budget_exhausted (gs_goal s')")
    case True
    then obtain b where b: "g_budget (gs_goal s) = Some b" "b \<le> g_tokens (gs_goal s')"
      using s'(3) by (auto simp: budget_exhausted_def split: option.splits)
    have "g_tokens (gs_goal s) < b"
      using Cons.prems(1,2) b(1) by (auto simp: goal_ok_def goal_wf_def budget_exhausted_def)
    moreover have "account_all (a # as) s = s'" using True s'(5) by (simp add: a s'_def [symmetric] account_all_inactive)
    ultimately show ?thesis using True s' b by (intro exI [of _ 1]) simp
  next
    case False
    have d: "distinct (map (fst \<circ> snd) as)" "(fst \<circ> snd) ` set as \<inter> set (gs_accounted s') = {}"
      "list_all (\<lambda>a. \<not> terminal_answer (snd (snd a))) as" "g_status (gs_goal s') = GoalActive"
      using Cons.prems(3-5) s'(4,5) a False by (auto simp: comp_def)
    from Cons.IH [OF s'(1) d(4) d(1-3)] obtain n where n: "n \<le> length as"
      "g_tokens (gs_goal (account_all as s')) = tokens_after s' as n"
      "n = length as \<and> g_status (gs_goal (account_all as s')) = GoalActive
       \<or> 0 < n \<and> g_status (gs_goal (account_all as s')) = GoalBudgetLimited
         \<and> (\<exists>b. g_budget (gs_goal s) = Some b \<and> tokens_after s' as (n - 1) < b \<and> b \<le> tokens_after s' as n)"
      using s'(3) by auto
    have r: "account_all (a # as) s = account_all as s'" by (simp add: a s'_def)
    show ?thesis
      unfolding r by (rule exI [of _ "Suc n"]) (use n s'(2) in \<open>cases n; auto simp: algebra_simps\<close>)
  qed
qed simp


section \<open>What the model is told\<close>

text \<open>One pass over the characters.\<close>

definition escape_unit_xml :: "code_unit \<Rightarrow> jstring" where [text_simps]:
  "escape_unit_xml u =
     (if u = 38 then js ''&amp;'' else if u = 60 then js ''&lt;'' else if u = 62 then js ''&gt;'' else [u])"

lemma escape_one_pass: "escape_xml_text s = concat (map escape_unit_xml s)"
proof -
  have "replace_unit 62 (js ''&gt;'') (replace_unit 60 (js ''&lt;'') (replace_unit 38 (js ''&amp;'') [u])) = escape_unit_xml u" for u
    by (simp add: text_simps)
  moreover have "replace_unit v r (s @ t) = replace_unit v r s @ replace_unit v r t" for v r s t
    by (simp add: text_simps)
  ultimately have "escape_xml_text (u # s) = escape_unit_xml u @ escape_xml_text s" for u s
    by (metis append_Cons append_Nil escape_xml_text_def)
  moreover have "escape_xml_text [] = []" by (simp add: escape_xml_text_def text_simps)
  ultimately show ?thesis by (induction s) simp_all
qed

lemma escape_unit_prefix_free:
  "escape_unit_xml u @ s = escape_unit_xml v @ t \<Longrightarrow> u = v \<and> s = t"
  by (auto simp: escape_unit_xml_def split: if_splits)

lemma escape_inj: "concat (map escape_unit_xml s) = concat (map escape_unit_xml t) \<Longrightarrow> s = t"
proof (induction s arbitrary: t)
  case Nil
  then show ?case by (cases t) (auto simp: escape_unit_xml_def split: if_splits)
next
  case (Cons u s)
  then obtain v t' where t: "t = v # t'" by (cases t) (auto simp: escape_unit_xml_def split: if_splits)
  with Cons escape_unit_prefix_free [of u "concat (map escape_unit_xml s)" v "concat (map escape_unit_xml t')"]
  show ?case by auto
qed

text \<open>
  The objective cannot break out of its tag and loses nothing: the text between the tags of a goal
  prompt holds no angle bracket, and two objectives with the same text are the same objective.
\<close>

theorem objective_stays_in_its_tag:
  "60 \<notin> set (escape_xml_text s) \<and> 62 \<notin> set (escape_xml_text s) \<and> inj escape_xml_text"
proof -
  have "60 \<notin> set (escape_unit_xml u)" "62 \<notin> set (escape_unit_xml u)" for u
    by (simp_all add: text_simps)
  then show ?thesis unfolding escape_one_pass by (auto intro!: injI escape_inj simp: escape_one_pass)
qed

section \<open>Restarting\<close>

lemma digit_no_space: "is_digit u \<Longrightarrow> \<not> js_space u"
  by (auto simp: is_digit_def js_space_def word_le_nat_alt)

lemma trim_digits:
  assumes "list_all is_digit s"
  shows "js_trim s = s"
proof -
  have d: "dropWhile js_space t = t" if "list_all is_digit t" for t
    using that digit_no_space by (cases t) auto
  from assms have "list_all is_digit (rev s)" by simp
  with assms show ?thesis by (simp add: js_trim_def d)
qed

lemma number_of_digits:
  assumes "list_all is_digit s" "s \<noteq> []"
  shows "js_number s = finite_number (of_nat (digits_value s))"
proof -
  obtain u us where s: "s = u # us" using assms(2) by (cases s) auto
  have u: "is_digit u" "u \<noteq> 43" "u \<noteq> 45" "u \<noteq> 73"
    using assms(1) s by (auto simp: is_digit_def word_le_nat_alt)
  have pre: "(take 2 s \<in> {js ''0x'', js ''0X'', js ''0o'', js ''0O'', js ''0b'', js ''0B''}) = False"
    using assms(1) s by (cases us) (auto simp: is_digit_def word_le_nat_alt)
  have inf: "(s = js ''Infinity'') = False" using s u by auto
  have hd: "(hd s = 43) = False" "(hd s = 45) = False" "(s = []) = False" using s u by auto
  have dec: "unsigned_decimal s = Some (of_nat (digits_value s))"
  proof -
    have whole: "takeWhile is_digit s = s" "dropWhile is_digit s = []"
      using assms(1) by (auto simp: list_all_iff takeWhile_eq_all_conv dropWhile_eq_Nil_conv)
    show ?thesis
      unfolding unsigned_decimal_def whole Let_def using assms(2) by (simp add: exponent_value_def digits_value_def)
  qed
  show ?thesis
    by (simp only: js_number_def Let_def trim_digits [OF assms(1)] pre inf hd dec simp_thms if_False option.case)
qed

text \<open>The integers a goal stores exactly.\<close>

definition storable :: "int \<Rightarrow> bool" where
  "storable n \<longleftrightarrow> 0 \<le> n \<and> n < 2 ^ 53"

lemma storable_below_bound:
  assumes "storable n"
  shows "(of_int n :: rat) < number_bound"
proof -
  have "(of_int n :: rat) < of_int (2 ^ 53)" using assms unfolding storable_def of_int_less_iff by simp
  also have "\<dots> \<le> number_bound" by (simp add: number_bound_def)
  finally show ?thesis .
qed

lemma trunc_stored: "storable n \<Longrightarrow> trunc_number (Some (json_int n)) = Some n"
proof -
  assume n: "storable n"
  then have d: "dec_int n = dec_nat (nat n)" by (simp add: dec_int_def storable_def)
  have "- number_bound < (of_int n :: rat)"
    using n by (rule_tac less_le_trans [of _ 0]) (simp_all add: storable_def number_bound_def)
  then have "finite_number (of_int n) = Fin (of_int n)"
    using storable_below_bound [OF n] by (simp add: finite_number_def)
  moreover have "of_nat (nat n) = (of_int n :: rat)" using n by (simp add: storable_def)
  ultimately show ?thesis
    using n number_of_digits [OF digits_of_dec_nat, of "nat n"]
    by (simp add: trunc_number_def json_int_def d digits_value_dec_nat storable_def)
qed

lemma map_of_optional_field [simp]:
  "map_of (optional_field k f v) x = (if x = js k then map_option f v else None)"
  by (cases v) (auto simp: optional_field_def)

lemma status_text_round_trip: "goal_status_of_text (goal_status_text st) = Some st"
  by (cases st) (simp_all add: goal_status_of_text_def enum_goal_status_def)

text \<open>A goal whose numbers the session file holds exactly.\<close>

definition goal_storable :: "goal_state \<Rightarrow> bool" where
  "goal_storable g \<longleftrightarrow>
     goal_wf g \<and> storable (g_tokens g) \<and> storable (g_time g) \<and> storable (g_continuations g)
     \<and> pred_option storable (g_budget g) \<and> pred_option storable (g_created g) \<and> pred_option storable (g_updated g)"

lemma text_value_JStr [simp]: "text_value (map_option JStr v) = v" "text_value (Some (JStr t)) = Some t"
  by (cases v; simp add: text_value_def)+

lemma trunc_optional: "pred_option storable v \<Longrightarrow> trunc_number (map_option json_int v) = v"
proof (cases v)
  case None
  then show ?thesis by (simp add: trunc_number_def)
next
  case (Some n)
  moreover assume "pred_option storable v"
  ultimately show ?thesis using trunc_stored [of n] by simp
qed

lemma goal_json_round_trip:
  assumes "goal_storable g"
  shows "persisted_goal_state (json_of_goal g) = Some g"
proof -
  have f: "json_field (js ''active'') (json_of_goal g) = Some (JBool (g_active g))"
    "json_field (js ''status'') (json_of_goal g) = Some (JStr (goal_status_text (g_status g)))"
    "json_field (js ''goalId'') (json_of_goal g) = map_option JStr (g_id g)"
    "json_field (js ''objective'') (json_of_goal g) = map_option JStr (g_objective g)"
    "json_field (js ''tokenBudget'') (json_of_goal g) = map_option json_int (g_budget g)"
    "json_field (js ''tokensUsed'') (json_of_goal g) = Some (json_int (g_tokens g))"
    "json_field (js ''timeUsedSeconds'') (json_of_goal g) = Some (json_int (g_time g))"
    "json_field (js ''continuationsUsed'') (json_of_goal g) = Some (json_int (g_continuations g))"
    "json_field (js ''createdAt'') (json_of_goal g) = map_option json_int (g_created g)"
    "json_field (js ''updatedAt'') (json_of_goal g) = map_option json_int (g_updated g)"
    "json_field (js ''lastReason'') (json_of_goal g) = map_option JStr (g_reason g)"
    "json_field (js ''lastError'') (json_of_goal g) = map_option JStr (g_error g)"
    by (simp_all add: json_field_def json_of_goal_def map_add_def split: option.split)
  have n: "normalize_goal_state g = g"
    using assms by (simp add: normalize_goal_state_def goal_storable_def goal_wf_def)
  have g: "\<lparr>g_active = g_active g, g_status = g_status g, g_id = g_id g, g_objective = g_objective g,
      g_budget = g_budget g, g_tokens = g_tokens g, g_time = g_time g, g_continuations = g_continuations g,
      g_created = g_created g, g_updated = g_updated g, g_reason = g_reason g, g_error = g_error g\<rparr> = g" by simp
  from assms have o: "trunc_number (Some (json_int (g_tokens g))) = Some (g_tokens g)"
    "trunc_number (Some (json_int (g_time g))) = Some (g_time g)"
    "trunc_number (Some (json_int (g_continuations g))) = Some (g_continuations g)"
    "trunc_number (map_option json_int (g_budget g)) = g_budget g"
    "trunc_number (map_option json_int (g_created g)) = g_created g"
    "trunc_number (map_option json_int (g_updated g)) = g_updated g"
    by (simp_all add: goal_storable_def trunc_stored trunc_optional)
  show ?thesis
    by (simp only: persisted_goal_state_def f o text_value_JStr Option.bind.simps status_text_round_trip n g
        prod.case option.case json.case)
qed

lemma index_leaf: "es \<noteq> [] \<Longrightarrow> sm_leaf (fold index_entry es s) = Some (se_id (last es))"
  by (induction es arbitrary: s) (auto simp: index_entry_def Let_def split: entry_data.split)

lemma reloaded_leaf:
  assumes "loaded disk = es @ [e]"
  shows "sm_leaf (load_session disk) = Some (se_id e)"
  using assms index_leaf [of "es @ [e]"] by (simp add: load_session_def build_index_def)

lemma reloaded_index: "sm_by_id (load_session disk) = index_of (loaded disk)"
  by (simp add: load_session_def Let_def)

lemma flush_now_fields [simp]:
  "sm_entries (flush_now s) = sm_entries s" "sm_by_id (flush_now s) = sm_by_id s" "sm_leaf (flush_now s) = sm_leaf s"
  by (simp_all add: flush_now_def rewrite_file_def)

lemma flushed_file:
  assumes "session_reachable True s"
  shows "\<exists>disk. sm_disk (flush_now s) = Some disk \<and> loaded disk = sm_entries s"
proof -
  have r: "session_reachable True (flush_now s)" by (rule session_reachable.step [OF assms session_step.flush])
  have p: "sm_persist s" using reachable_persist [OF assms] by simp
  then have "sm_flushed (flush_now s)" "sm_disk (flush_now s) \<noteq> None"
    by (auto simp: flush_now_def rewrite_file_def)
  then show ?thesis
    using session_reachable_ok [OF r] reachable_persist [OF r] by (auto simp: disk_ok_def split: option.splits)
qed

lemma branch_total: "session_reachable True s \<Longrightarrow> \<exists>p. get_branch s None = Some p"
  using branch_of_leaf [OF reachable_tree, of True s] by (cases "sm_leaf s") (simp add: get_branch_def, blast)

text \<open>
  C31. A goal survives a restart: after any reachable session persists a goal, opening its file again
  finds the goal, with every field, at the end of the branch of the file.
\<close>

theorem a_goal_survives_a_restart:
  assumes "session_reachable True sm" "fresh_id sm i" "goal_storable g"
  shows "\<exists>disk path. sm_disk (persist_goal_state g i t sm) = Some disk
     \<and> get_branch (load_session disk) None = Some path \<and> load_persisted_goal_state path = g"
proof -
  let ?d = "CustomEntry goal_state_custom_type (Some (json_of_goal g))"
  let ?e = "new_entry ?d i t sm"
  let ?s = "append_data ?d i t sm"
  have plain: "plain_data ?d" by (simp add: plain_data_def)
  have r: "session_reachable True ?s"
    by (rule session_reachable.step [OF assms(1) session_step.append [OF assms(2) plain]])
  have entries: "sm_entries ?s = sm_entries sm @ [?e]" "sm_leaf ?s = Some i" by (simp_all add: append_data_def)
  obtain disk where disk: "sm_disk (persist_goal_state g i t sm) = Some disk" "loaded disk = sm_entries ?s"
    using flushed_file [OF r] by (auto simp: persist_goal_state_def append_custom_entry_def)
  obtain p where p: "get_branch sm None = Some p" using branch_total [OF assms(1)] by blast
  have "fits sm ?e" "attribution ?e = None" using assms(2) plain plain_attribution by (simp_all add: fits_def)
  from branch_extends [OF reachable_tree [OF assms(1)] this] p
  have branch: "get_branch ?s None = Some (p @ [?e])" by (simp add: append_data_def)
  have "sm_leaf (load_session disk) = sm_leaf ?s"
    using reloaded_leaf [of disk "sm_entries sm" ?e] disk(2) entries by simp
  moreover have "sm_by_id (load_session disk) = sm_by_id ?s"
    using reachable_tree [OF r] disk(2) by (simp add: reloaded_index tree_ok_def)
  ultimately have "get_branch (load_session disk) None = get_branch ?s None" by (simp only: get_branch_def)
  with branch have "get_branch (load_session disk) None = Some (p @ [?e])" by simp
  moreover have "load_persisted_goal_state (p @ [?e]) = g"
    using goal_json_round_trip [OF assms(3)] by (simp add: load_persisted_goal_state_def List.map_filter_def entry_goal_def)
  ultimately show ?thesis using disk(1) by blast
qed

section \<open>Two flaws of the accounting\<close>

text \<open>The accounting of an answer leaves the time and the start to the clock.\<close>

lemma account_clock:
  assumes "goal_ok s" "g_status (gs_goal s) = GoalActive" "g_budget (gs_goal s) = None" "gs_started s = Some t0" "0 < t0"
    and "i \<notin> set (gs_accounted s)" "\<not> terminal_answer m" "1000 \<le> now - t0"
  shows "g_time (gs_goal (fst (goal_message_end now i m s))) = g_time (gs_goal s) + (now - t0) div 1000"
    "gs_started (fst (goal_message_end now i m s)) = Some now"
proof -
  have e: "0 < (now - t0) div 1000" "has_objective (gs_goal s)" "0 \<le> g_time (gs_goal s)"
    using assms(1,2,8) active_objective by (auto simp: goal_ok_def goal_wf_def)
  then have "goal_with_accounted_wall_clock now (s\<lparr>gs_accounted := i # gs_accounted s\<rparr>) =
     ((gs_goal s)\<lparr>g_time := g_time (gs_goal s) + (now - t0) div 1000\<rparr>,
      s\<lparr>gs_accounted := i # gs_accounted s, gs_started := Some now\<rparr>)"
    using assms(2,4,5) by (simp add: goal_with_accounted_wall_clock_def goal_with_current_wall_clock_def Let_def)
  with e assms(2,3,6,7) show
    "g_time (gs_goal (fst (goal_message_end now i m s))) = g_time (gs_goal s) + (now - t0) div 1000"
    "gs_started (fst (goal_message_end now i m s)) = Some now"
    by (simp_all add: message_end_goal account_goal_usage_def Let_def budget_exhausted_def set_goal_state_def)
qed

text \<open>Answers that end every so many milliseconds, each under a new identity.\<close>

definition paced :: "int \<Rightarrow> int \<Rightarrow> nat \<Rightarrow> nat \<Rightarrow> assistant_message \<Rightarrow> answer list" where
  "paced t0 step base n m = map (\<lambda>k. (t0 + step * int (Suc k), base + k, m)) [0..<n]"

lemma paced_Suc: "paced t0 step base (Suc n) m = (t0 + step, base, m) # paced (t0 + step) step (Suc base) n m"
proof -
  have "[0..<Suc n] = 0 # map Suc [0..<n]" by (simp add: upt_conv_Cons map_Suc_upt del: upt_Suc)
  then show ?thesis unfolding paced_def by (simp add: algebra_simps del: upt_Suc)
qed

lemma paced_time:
  assumes "goal_ok s" "g_status (gs_goal s) = GoalActive" "g_budget (gs_goal s) = None" "gs_started s = Some t0" "0 < t0"
    and "\<forall>i\<in>set (gs_accounted s). i < base" "\<not> terminal_answer m" "1000 \<le> step"
  shows "g_time (gs_goal (account_all (paced t0 step base n m) s)) = g_time (gs_goal s) + int n * (step div 1000)"
  using assms
proof (induction n arbitrary: s t0 base)
  case 0
  then show ?case by (simp add: paced_def)
next
  case (Suc n)
  define s' where "s' = fst (goal_message_end (t0 + step) base m s)"
  have new: "base \<notin> set (gs_accounted s)" using Suc.prems(6) by auto
  have c: "g_time (gs_goal s') = g_time (gs_goal s) + step div 1000" "gs_started s' = Some (t0 + step)"
    using account_clock [OF Suc.prems(1-5) new Suc.prems(7), of "t0 + step"] Suc.prems(8) by (simp_all add: s'_def)
  have a: "goal_ok s'" "g_budget (gs_goal s') = None" "set (gs_accounted s') = insert base (set (gs_accounted s))"
    "g_status (gs_goal s') = (if budget_exhausted (gs_goal s') then GoalBudgetLimited else GoalActive)"
    using account_active [OF Suc.prems(1,2) new Suc.prems(7) s'_def [symmetric]] Suc.prems(3) by simp_all
  then have "g_status (gs_goal s') = GoalActive" by (simp add: budget_exhausted_def)
  from Suc.IH [OF a(1) this a(2) c(2) _ _ Suc.prems(7,8), of "Suc base"] Suc.prems(5,6,8) a(3) c(1)
  have "g_time (gs_goal (account_all (paced (t0 + step) step (Suc base) n m) s'))
      = g_time (gs_goal s) + int (Suc n) * (step div 1000)" by (auto simp: algebra_simps less_Suc_eq)
  then show ?case by (simp only: paced_Suc account_all_simps s'_def)
qed

text \<open>
  The clock of a goal loses time: when the answers of an active goal end every 1999 milliseconds,
  each is counted as one second, so that after a thousand answers almost half of the time is missing.
\<close>

theorem fractions_of_a_second_are_lost:
  assumes "goal_run s gs" "g_status (gs_goal s) = GoalActive" "g_budget (gs_goal s) = None"
    "gs_started s = Some t0" "0 < t0" "gs_accounted s = []" "\<not> terminal_answer m"
  shows "g_time (gs_goal (account_all (paced t0 1999 0 n m) s)) = g_time (gs_goal s) + int n"
  using paced_time [of s t0 0 m 1999 n] goal_run_ok [OF assms(1)] assms(2-) by simp

text \<open>
  Navigation with a summary can bring a spent goal back to life: when the session's copy of the
  goal is active and the new branch holds the same goal at its budget, the session keeps its own status
  and takes the tokens of the branch, so that the goal is active with nothing left to spend.
\<close>

theorem summary_navigation_revives_a_spent_goal:
  assumes "g_status (gs_goal s) = GoalActive" "g_id (gs_goal s) = Some i" "g_budget (gs_goal s) = Some b"
    "g_id (load_persisted_goal_state path) = Some i" "b \<le> g_tokens (load_persisted_goal_state path)"
  shows "g_status (gs_goal (fst (reload_goal_state_from_branch now True path s))) = GoalActive
     \<and> budget_exhausted (gs_goal (fst (reload_goal_state_from_branch now True path s)))"
  using assms by (simp add: reload_goal_state_from_branch_def Let_def budget_exhausted_def)

section \<open>A goal with a budget\<close>

definition sample_runtime :: goal_runtime where
  "sample_runtime = \<lparr>gr_goals = True, gr_ipython = True, gr_active = False\<rparr>"

definition spending :: assistant_message where
  "spending =
     \<lparr>am_content = [], am_api = [], am_provider = [], am_model = [], am_response_model = None, am_response_id = None,
      am_diagnostics = None, am_usage = empty_usage\<lparr>usage_input := 60\<rparr>, am_stop = Stop, am_stop_raw = None,
      am_error = None, am_time = 0\<rparr>"

definition unused_session :: goal_session where
  "unused_session =
     \<lparr>gs_goal = empty_goal_state, gs_started = None, gs_awaits = False, gs_accounted = [], gs_aborting = False\<rparr>"

lemma unused_session_run: "goal_run unused_session []"
proof -
  have "open_goal_session 1 [] 0 None [] = Inr (unused_session, [])"
    by (simp add: open_goal_session_def unused_session_def load_persisted_goal_state_def List.map_filter_def empty_goal_state_def)
  from goal_run.opened [OF this] show ?thesis by simp
qed

definition started_goal :: "rat jsnum option \<Rightarrow> goal_session" where
  "started_goal b =
     fst (snd (handle_goal_command 5000 (js ''g1'') sample_runtime True [] (StartCommand (js ''ship it'') b)
       unused_session))"

lemma started_goal_run: "\<exists>gs. goal_run (started_goal b) gs"
  using goal_run.command [OF unused_session_run, of 5000 "js ''g1''" sample_runtime True "[]"
      "StartCommand (js ''ship it'') b"]
  by (metis prod.collapse started_goal_def)

definition fresh_goal :: "int option \<Rightarrow> goal_state" where
  "fresh_goal b =
     \<lparr>g_active = True, g_status = GoalActive, g_id = Some (js ''g1''), g_objective = Some (js ''ship it''),
      g_budget = b, g_tokens = 0, g_time = 0, g_continuations = 0, g_created = Some 5000, g_updated = Some 5000,
      g_reason = None, g_error = None\<rparr>"

lemma sample_objective: "validate_goal_objective (js ''ship it'') = Inr (js ''ship it'')"
  by code_simp

lemma start_command_session:
  "fst (snd (handle_goal_command now i sample_runtime True [] (StartCommand t b) s)) =
     (case start_goal now i t b (s\<lparr>gs_awaits := False\<rparr>) of Inl e \<Rightarrow> s\<lparr>gs_awaits := False\<rparr> | Inr (s', fx) \<Rightarrow> s')"
  by (simp add: handle_goal_command_def ensure_goal_runtime_active_def sample_runtime_def
      clear_queued_goal_contexts_def split_beta split: sum.split)

lemma started_goal_fields:
  assumes "validate_goal_budget b = Inr b'"
  shows "gs_goal (started_goal b) = fresh_goal b'" "gs_started (started_goal b) = Some 5000"
    "gs_accounted (started_goal b) = []"
  unfolding started_goal_def start_command_session start_goal_def sample_objective assms sum.case
  by (simp_all add: set_goal_state_def Let_def normalize_goal_state_def fresh_goal_def unused_session_def)

lemma sample_budgets: "validate_goal_budget None = Inr None" "validate_goal_budget (Some (Fin 100)) = Inr (Some 100)"
  by (simp_all add: validate_goal_budget_def is_integer_def)

lemmas sample_goal = started_goal_fields [OF sample_budgets(1)] started_goal_fields [OF sample_budgets(2)]

lemma fresh_goal_fields [simp]:
  "g_status (fresh_goal b) = GoalActive" "g_budget (fresh_goal b) = b" "g_id (fresh_goal b) = Some (js ''g1'')"
  "g_tokens (fresh_goal b) = 0" "g_time (fresh_goal b) = 0" "g_continuations (fresh_goal b) = 0"
  "g_created (fresh_goal b) = Some 5000" "g_updated (fresh_goal b) = Some 5000" "has_objective (fresh_goal b)"
  by (simp_all add: fresh_goal_def has_objective_def)


definition sample_continuation :: "message list \<times> goal_step" where
  "sample_continuation =
     goal_continuation 6000 sample_runtime (\<lambda>_. []) False False 0 False spending (started_goal None)"

lemma sample_continues: "fst sample_continuation \<noteq> []"
proof -
  have "\<not> terminal_answer spending" by (simp add: spending_def terminal_answer_def)
  moreover have "has_objective (gs_goal (fst (count_continuation 6000 s)))" if "gs_goal s = fresh_goal None" for s
    using that by (simp add: count_continuation_def set_goal_fields)
  ultimately show ?thesis
    by (simp add: sample_continuation_def goal_continuation_def get_goal_continuation_messages_def
        stop_goal_continuation_for_terminal_message_def ensure_goal_runtime_active_def sample_runtime_def
        create_goal_context_message_def sample_goal Let_def split_beta)
qed


definition spent :: "answer list" where
  "spent = [(6000, 1, spending), (7000, 2, spending), (8000, 3, spending)]"


lemma started_goal_storable: "goal_storable (gs_goal (started_goal None))"
proof -
  have "goal_wf (fresh_goal None)" by (simp add: goal_wf_def budget_exhausted_def) (simp add: fresh_goal_def)
  then show ?thesis by (simp add: sample_goal goal_storable_def storable_def)
qed

theorem a_goal_survives_a_restart_witness:
  "\<exists>disk path. sm_disk (persist_goal_state (gs_goal (started_goal None)) (js ''c'') 9 sample_labelled) = Some disk
     \<and> get_branch (load_session disk) None = Some path
     \<and> load_persisted_goal_state path = gs_goal (started_goal None)"
proof -
  have "fresh_id sample_labelled (js ''c'')" unfolding fresh_id_def by code_simp
  from a_goal_survives_a_restart [OF sample_labelled_reachable this started_goal_storable] show ?thesis .
qed

theorem fractions_of_a_second_are_lost_witness:
  "g_time (gs_goal (account_all (paced 5000 1999 0 1000 spending) (started_goal None)))
     = g_time (gs_goal (started_goal None)) + int 1000"
proof -
  obtain gs where run: "goal_run (started_goal None) gs" using started_goal_run by blast
  show ?thesis
    by (rule fractions_of_a_second_are_lost [OF run]) (simp_all add: sample_goal spending_def terminal_answer_def)
qed

definition spent_goal :: goal_state where
  "spent_goal = (fresh_goal (Some 100))\<lparr>g_active := False, g_status := GoalBudgetLimited, g_tokens := 120\<rparr>"

lemma spent_goal_storable: "goal_storable spent_goal"
  by (simp add: goal_storable_def goal_wf_def storable_def spent_goal_def)

definition spent_branch :: "session_entry list" where
  "spent_branch =
     [\<lparr>se_id = js ''x'', se_parent = None, se_time = 0,
       se_data = CustomEntry goal_state_custom_type (Some (json_of_goal spent_goal))\<rparr>]"

lemma spent_branch_goal: "load_persisted_goal_state spent_branch = spent_goal"
proof -
  from goal_json_round_trip [OF spent_goal_storable] show ?thesis
    by (simp add: load_persisted_goal_state_def List.map_filter_def spent_branch_def entry_goal_def)
qed

theorem summary_navigation_revives_a_spent_goal_witness:
  "g_status (gs_goal (fst (reload_goal_state_from_branch 9000 True spent_branch (started_goal (Some (Fin 100)))))) = GoalActive"
  using summary_navigation_revives_a_spent_goal [of "started_goal (Some (Fin 100))" _ _ spent_branch 9000]
  by (simp add: sample_goal spent_branch_goal spent_goal_def)

end
