(* ===== verification/ActionStore.thy ===== *)
theory ActionStore
  imports JsValues "HOL-Library.Product_Lexorder"
begin

text \<open>
  The store of a session's pending work (coding-agent/src/core/session-action-store.ts): the lifecycle
  of an action and its legal transitions, the tickets a submitter waits on, the two lanes of the store
  with the placement, selection, cancellation, rollback and release of actions, and the predicates
  that decide whether a session may be passivated or a worker evicted.

  The code shares and mutates action objects, so the model keeps them in a heap: an action is a
  reference, a lane is a list of references, and \<open>st_objects\<close> gives each reference its object.
  \<open>list.indexOf\<close> compares references. The payload of a turn is an extensible record: the session
  adds fields of its own. A message is known by its identity, a number.
\<close>

section \<open>Actions\<close>

datatype delivery_policy = WhenRunIdle | NextTurnBoundary

datatype wake_policy = WakeImmediate | OnLowerBoundary | ExternalResume

datatype action_priority = BackgroundPriority | UserPriority | PinnedPriority

datatype placement = PlacePriority | PlaceTail | PlaceFront

fun priority_rank :: "action_priority \<Rightarrow> nat" where
  "priority_rank PinnedPriority = 2"
| "priority_rank UserPriority = 1"
| "priority_rank BackgroundPriority = 0"

text \<open>The order of service: a higher rank, and a turn boundary, comes first.\<close>

instantiation action_priority :: linorder
begin

definition less_eq_action_priority :: "action_priority \<Rightarrow> action_priority \<Rightarrow> bool" where
  "p \<le> q \<longleftrightarrow> priority_rank p \<le> priority_rank q"

definition less_action_priority :: "action_priority \<Rightarrow> action_priority \<Rightarrow> bool" where
  "p < q \<longleftrightarrow> priority_rank p < priority_rank q"

lemma priority_rank_inject: "priority_rank p = priority_rank q \<longleftrightarrow> p = q"
  by (cases p; cases q) simp_all

instance
  by standard (auto simp: less_eq_action_priority_def less_action_priority_def priority_rank_inject [symmetric])

end

instantiation delivery_policy :: linorder
begin

definition less_eq_delivery_policy :: "delivery_policy \<Rightarrow> delivery_policy \<Rightarrow> bool" where
  "p \<le> q \<longleftrightarrow> p = WhenRunIdle \<or> q = NextTurnBoundary"

definition less_delivery_policy :: "delivery_policy \<Rightarrow> delivery_policy \<Rightarrow> bool" where
  "p < q \<longleftrightarrow> p = WhenRunIdle \<and> q = NextTurnBoundary"

instance
proof
  fix p q r :: delivery_policy
  show "p < q \<longleftrightarrow> p \<le> q \<and> \<not> q \<le> p"
    by (cases p; cases q) (simp_all add: less_eq_delivery_policy_def less_delivery_policy_def)
  show "p \<le> p" by (cases p) (simp_all add: less_eq_delivery_policy_def)
  show "p \<le> q \<or> q \<le> p" by (cases p; cases q) (simp_all add: less_eq_delivery_policy_def)
  show "p \<le> q \<Longrightarrow> q \<le> r \<Longrightarrow> p \<le> r"
    by (cases p; cases q; cases r) (simp_all add: less_eq_delivery_policy_def)
  show "p \<le> q \<Longrightarrow> q \<le> p \<Longrightarrow> p = q"
    by (cases p; cases q) (simp_all add: less_eq_delivery_policy_def)
qed

end

datatype message_lane = SteeringLane | FollowUpLane

fun queued_message_lane_delivery_policy :: "message_lane \<Rightarrow> delivery_policy" where
  "queued_message_lane_delivery_policy SteeringLane = NextTurnBoundary"
| "queued_message_lane_delivery_policy FollowUpLane = WhenRunIdle"

type_synonym action_ref = nat
type_synonym message_ref = nat

datatype delivery_role = PrimaryRecord | PrefixRecord | NextTurnRecord

record delivery_record =
  dr_id :: jstring
  dr_role :: delivery_role
  dr_message :: message_ref
  dr_started :: bool
  dr_durable :: bool
  dr_owner :: jstring

record turn_payload =
  tp_records :: "delivery_record list"
  tp_text :: jstring
  tp_preview :: "jstring option"

datatype ('x, 'c) payload = TurnPayload "'x turn_payload_scheme" | CommandPayload 'c jstring

datatype execution = AgentTurn | SessionCommandRun

datatype lifecycle =
    Queued | Selected | Preparing "nat option" | Committing | Running execution
  | Completed | Failed jstring | Cancelled

datatype action_state =
    SQueued | SSelected | SPreparing | SCommitting | SRunning | SCompleted | SFailed | SCancelled

fun state_of :: "lifecycle \<Rightarrow> action_state" where
  "state_of Queued = SQueued"
| "state_of Selected = SSelected"
| "state_of (Preparing p) = SPreparing"
| "state_of Committing = SCommitting"
| "state_of (Running e) = SRunning"
| "state_of Completed = SCompleted"
| "state_of (Failed e) = SFailed"
| "state_of Cancelled = SCancelled"

record ('x, 'c) session_action =
  sa_id :: jstring
  sa_source :: jstring
  sa_delivery :: delivery_policy
  sa_priority :: action_priority
  sa_wake :: wake_policy
  sa_payload :: "('x, 'c) payload"
  sa_lifecycle :: lifecycle
  sa_queue_key :: "jstring option"
  sa_agent_message_id :: "jstring option"
  sa_suppress_continuation :: bool

definition action_state :: "('x, 'c) session_action \<Rightarrow> action_state" where
  "action_state a = state_of (sa_lifecycle a)"

definition terminal_states :: "action_state list" where
  "terminal_states = [SCompleted, SFailed, SCancelled]"

definition active_states :: "action_state list" where
  "active_states = [SSelected, SPreparing, SCommitting, SRunning]"

definition clearable_states :: "action_state list" where
  "clearable_states = [SQueued, SSelected, SPreparing]"

definition is_clearable :: "('x, 'c) session_action \<Rightarrow> bool" where
  "is_clearable a \<longleftrightarrow> action_state a \<in> set clearable_states"

fun legal_transitions :: "action_state \<Rightarrow> action_state list" where
  "legal_transitions SQueued = [SSelected, SFailed, SCancelled]"
| "legal_transitions SSelected = [SQueued, SPreparing, SRunning, SFailed, SCancelled]"
| "legal_transitions SPreparing = [SQueued, SCommitting, SFailed, SCancelled]"
| "legal_transitions SCommitting = [SQueued, SRunning, SFailed, SCancelled]"
| "legal_transitions SRunning = [SCompleted, SFailed, SCancelled]"
| "legal_transitions SCompleted = []"
| "legal_transitions SFailed = []"
| "legal_transitions SCancelled = []"

definition primary_records :: "('x, 'c) session_action \<Rightarrow> delivery_record list" where
  "primary_records a =
     (case sa_payload a of TurnPayload p \<Rightarrow> filter (\<lambda>d. dr_role d = PrimaryRecord) (tp_records p)
      | CommandPayload _ _ \<Rightarrow> [])"

section \<open>Tickets\<close>

text \<open>A promise that is settled at most once; the result tells whether this call settled it.\<close>

datatype 'v deferred = Pending | Resolved 'v | Rejected jstring

definition settle_deferred :: "'v \<Rightarrow> 'v deferred \<Rightarrow> bool \<times> 'v deferred" where
  "settle_deferred v d = (if d = Pending then (True, Resolved v) else (False, d))"

definition reject_deferred :: "jstring \<Rightarrow> 'v deferred \<Rightarrow> bool \<times> 'v deferred" where
  "reject_deferred e d = (if d = Pending then (True, Rejected e) else (False, d))"

datatype admission_disposition = StartsWhenAdmitted | AdmissionQueued

datatype submission_outcome =
    Accepted jstring admission_disposition | Coalesced jstring | HandledWithoutTurn | ExtensionCommand nat

datatype delivery_outcome = Delivered | NotApplicable

record ticket =
  tk_accepted :: "submission_outcome deferred"
  tk_delivered :: "delivery_outcome deferred"
  tk_completed :: "unit deferred"

definition new_ticket :: ticket where
  "new_ticket = \<lparr>tk_accepted = Pending, tk_delivered = Pending, tk_completed = Pending\<rparr>"

definition settle_accepted :: "submission_outcome \<Rightarrow> ticket \<Rightarrow> bool \<times> ticket" where
  "settle_accepted v t = (let (ok, d) = settle_deferred v (tk_accepted t) in (ok, t\<lparr>tk_accepted := d\<rparr>))"

definition settle_delivered :: "delivery_outcome \<Rightarrow> ticket \<Rightarrow> bool \<times> ticket" where
  "settle_delivered v t = (let (ok, d) = settle_deferred v (tk_delivered t) in (ok, t\<lparr>tk_delivered := d\<rparr>))"

definition reject_delivered :: "jstring \<Rightarrow> ticket \<Rightarrow> bool \<times> ticket" where
  "reject_delivered e t = (let (ok, d) = reject_deferred e (tk_delivered t) in (ok, t\<lparr>tk_delivered := d\<rparr>))"

definition settle_completed :: "jstring option \<Rightarrow> ticket \<Rightarrow> bool \<times> ticket" where
  "settle_completed e t =
     (let (ok, d) = (case e of Some err \<Rightarrow> reject_deferred err (tk_completed t)
                     | None \<Rightarrow> settle_deferred () (tk_completed t))
      in (ok, t\<lparr>tk_completed := d\<rparr>))"

section \<open>The store\<close>

record ('x, 'c) action_store =
  st_boundary :: "action_ref list"
  st_idle :: "action_ref list"
  st_tickets :: "jstring \<rightharpoonup> ticket"
  st_objects :: "action_ref \<Rightarrow> ('x, 'c) session_action"

datatype store_failure =
    IllegalTransition action_state action_state | RollbackNeedsProof | RollbackOfDurable
  | EnqueueNotQueued | DuplicateActionId jstring | SwapNotQueued | SwapNotOwned
  | MoveNotQueued | NotOwned jstring | ReleaseNonterminal jstring

record rollback_proof =
  rp_settled :: bool
  rp_transcript :: "message_ref list"

definition empty_store :: "(action_ref \<Rightarrow> ('x, 'c) session_action) \<Rightarrow> ('x, 'c) action_store" where
  "empty_store objs = \<lparr>st_boundary = [], st_idle = [], st_tickets = Map.empty, st_objects = objs\<rparr>"

definition object_state :: "('x, 'c) action_store \<Rightarrow> action_ref \<Rightarrow> action_state" where
  "object_state st r = action_state (st_objects st r)"

abbreviation is_queued :: "('x, 'c) action_store \<Rightarrow> action_ref \<Rightarrow> bool" where
  "is_queued st r \<equiv> object_state st r = SQueued"

definition update_object ::
    "action_ref \<Rightarrow> (('x, 'c) session_action \<Rightarrow> ('x, 'c) session_action) \<Rightarrow> ('x, 'c) action_store
     \<Rightarrow> ('x, 'c) action_store" where
  "update_object r f st = st\<lparr>st_objects := (st_objects st)(r := f (st_objects st r))\<rparr>"

definition set_lifecycle :: "action_ref \<Rightarrow> lifecycle \<Rightarrow> ('x, 'c) action_store \<Rightarrow> ('x, 'c) action_store" where
  "set_lifecycle r l st = update_object r (sa_lifecycle_update (\<lambda>_. l)) st"

definition transition_session_action ::
    "action_ref \<Rightarrow> lifecycle \<Rightarrow> rollback_proof option \<Rightarrow> ('x, 'c) action_store
     \<Rightarrow> store_failure + ('x, 'c) action_store" where
  "transition_session_action r l proof_of st =
     (let previous = object_state st r in
      if state_of l \<notin> set (legal_transitions previous) then Inl (IllegalTransition previous (state_of l))
      else if previous = SCommitting \<and> state_of l = SQueued then
        (case proof_of of
           None \<Rightarrow> Inl RollbackNeedsProof
         | Some p \<Rightarrow>
             if \<not> rp_settled p then Inl RollbackNeedsProof
             else if list_ex (\<lambda>d. dr_message d \<in> set (rp_transcript p)) (primary_records (st_objects st r))
             then Inl RollbackOfDurable
             else Inr (set_lifecycle r l st))
      else Inr (set_lifecycle r l st))"

fun lane_of :: "('x, 'c) action_store \<Rightarrow> delivery_policy \<Rightarrow> action_ref list" where
  "lane_of st NextTurnBoundary = st_boundary st"
| "lane_of st WhenRunIdle = st_idle st"

fun set_lane :: "delivery_policy \<Rightarrow> action_ref list \<Rightarrow> ('x, 'c) action_store \<Rightarrow> ('x, 'c) action_store" where
  "set_lane NextTurnBoundary xs st = st\<lparr>st_boundary := xs\<rparr>"
| "set_lane WhenRunIdle xs st = st\<lparr>st_idle := xs\<rparr>"

definition store_actions :: "delivery_policy option \<Rightarrow> ('x, 'c) action_store \<Rightarrow> action_ref list" where
  "store_actions policy st =
     (case policy of Some p \<Rightarrow> lane_of st p | None \<Rightarrow> st_boundary st @ st_idle st)"

definition queued_actions :: "delivery_policy option \<Rightarrow> ('x, 'c) action_store \<Rightarrow> action_ref list" where
  "queued_actions policy st = filter (is_queued st) (store_actions policy st)"

definition clearable_actions :: "delivery_policy option \<Rightarrow> ('x, 'c) action_store \<Rightarrow> action_ref list" where
  "clearable_actions policy st = filter (\<lambda>r. is_clearable (st_objects st r)) (store_actions policy st)"

definition unfinished_actions :: "delivery_policy option \<Rightarrow> ('x, 'c) action_store \<Rightarrow> action_ref list" where
  "unfinished_actions policy st = filter (\<lambda>r. object_state st r \<notin> set terminal_states) (store_actions policy st)"

definition active_actions :: "delivery_policy option \<Rightarrow> ('x, 'c) action_store \<Rightarrow> action_ref list" where
  "active_actions policy st = filter (\<lambda>r. object_state st r \<in> set active_states) (store_actions policy st)"

abbreviation owned_actions :: "('x, 'c) action_store \<Rightarrow> action_ref list" where
  "owned_actions st \<equiv> store_actions None st"

definition queue_preview :: "delivery_policy \<Rightarrow> ('x, 'c) action_store \<Rightarrow> jstring list" where
  "queue_preview policy st =
     map (\<lambda>r. case sa_payload (st_objects st r) of
                TurnPayload p \<Rightarrow> (case tp_preview p of Some s \<Rightarrow> s | None \<Rightarrow> tp_text p)
              | CommandPayload _ s \<Rightarrow> s)
       (queued_actions (Some policy) st)"

definition actions_for_message :: "message_ref \<Rightarrow> ('x, 'c) action_store \<Rightarrow> action_ref list" where
  "actions_for_message m st =
     filter (\<lambda>r. case sa_payload (st_objects st r) of
                   TurnPayload p \<Rightarrow> list_ex (\<lambda>d. dr_message d = m) (tp_records p)
                 | CommandPayload _ _ \<Rightarrow> False)
       (owned_actions st)"

definition ticket_for :: "action_ref \<Rightarrow> ('x, 'c) action_store \<Rightarrow> store_failure + ticket" where
  "ticket_for r st =
     (let i = sa_id (st_objects st r) in
      case st_tickets st i of None \<Rightarrow> Inl (NotOwned i) | Some t \<Rightarrow> Inr t)"

text \<open>What a holder of the ticket of \<open>r\<close> does to it.\<close>

definition update_ticket :: "action_ref \<Rightarrow> (ticket \<Rightarrow> ticket) \<Rightarrow> ('x, 'c) action_store \<Rightarrow> ('x, 'c) action_store" where
  "update_ticket r f st =
     (let i = sa_id (st_objects st r) in
      case st_tickets st i of None \<Rightarrow> st | Some t \<Rightarrow> st\<lparr>st_tickets := (st_tickets st)(i \<mapsto> f t)\<rparr>)"

section \<open>Placement\<close>

text \<open>The loop of a placement by priority: from the end, past every item that may be overtaken.\<close>

fun overtake :: "('a \<Rightarrow> bool) \<Rightarrow> 'a list \<Rightarrow> nat \<Rightarrow> nat" where
  "overtake stop xs 0 = 0"
| "overtake stop xs (Suc position) = (if stop (xs ! position) then Suc position else overtake stop xs position)"

definition insertion_index ::
    "('x, 'c) action_store \<Rightarrow> action_ref list \<Rightarrow> ('x, 'c) session_action \<Rightarrow> placement \<Rightarrow> nat" where
  "insertion_index st xs a placement =
     (case placement of
        PlaceTail \<Rightarrow> length xs
      | PlaceFront \<Rightarrow> (case first_index (is_queued st) xs of None \<Rightarrow> length xs | Some i \<Rightarrow> i)
      | PlacePriority \<Rightarrow>
          overtake (\<lambda>r. \<not> is_queued st r \<or> priority_rank (sa_priority a) \<le> priority_rank (sa_priority (st_objects st r)))
            xs (length xs))"

definition enqueue ::
    "action_ref \<Rightarrow> placement \<Rightarrow> ('x, 'c) action_store \<Rightarrow> store_failure + ('x, 'c) action_store" where
  "enqueue r placement st =
     (let a = st_objects st r; lane = lane_of st (sa_delivery a) in
      if action_state a \<noteq> SQueued then Inl EnqueueNotQueued
      else if st_tickets st (sa_id a) \<noteq> None then Inl (DuplicateActionId (sa_id a))
      else Inr ((set_lane (sa_delivery a) (insert_at (insertion_index st lane a placement) r lane) st)
                  \<lparr>st_tickets := (st_tickets st)(sa_id a \<mapsto> new_ticket)\<rparr>))"

section \<open>Selection, cancellation, rollback\<close>

text \<open>The transition of a queued action to \<open>selected\<close> is legal, so \<open>selectFirst\<close> never throws.\<close>

definition select_first :: "('x, 'c) action_store \<Rightarrow> action_ref option \<times> ('x, 'c) action_store" where
  "select_first st =
     (let found = (case find (is_queued st) (st_boundary st) of
                     Some r \<Rightarrow> Some r | None \<Rightarrow> find (is_queued st) (st_idle st))
      in case found of
           None \<Rightarrow> (None, st)
         | Some r \<Rightarrow>
             (case transition_session_action r Selected None st of
                Inr st' \<Rightarrow> (Some r, st') | Inl _ \<Rightarrow> (Some r, st)))"

text \<open>The transitions of \<open>remove\<close> in order; one that throws leaves the earlier ones done.\<close>

fun cancel_all :: "action_ref list \<Rightarrow> ('x, 'c) action_store \<Rightarrow> store_failure option \<times> ('x, 'c) action_store" where
  "cancel_all [] st = (None, st)"
| "cancel_all (r # rs) st =
     (case transition_session_action r Cancelled None st of
        Inl e \<Rightarrow> (Some e, st) | Inr st' \<Rightarrow> cancel_all rs st')"

definition remove_actions ::
    "(action_ref \<Rightarrow> bool) \<Rightarrow> action_ref list \<Rightarrow> ('x, 'c) action_store
     \<Rightarrow> (store_failure + action_ref list) \<times> ('x, 'c) action_store" where
  "remove_actions P candidates st =
     (let removed = filter P candidates in
      case cancel_all removed st of
        (Some e, st') \<Rightarrow> (Inl e, st') | (None, st') \<Rightarrow> (Inr removed, st'))"

definition rollback_action ::
    "action_ref \<Rightarrow> rollback_proof option \<Rightarrow> ('x, 'c) action_store \<Rightarrow> store_failure + ('x, 'c) action_store" where
  "rollback_action r proof_of st = transition_session_action r Queued proof_of st"

section \<open>Reordering and release\<close>

definition swap_queued ::
    "action_ref \<Rightarrow> action_ref \<Rightarrow> ('x, 'c) action_store \<Rightarrow> store_failure + ('x, 'c) action_store" where
  "swap_queued l r st =
     (let a = st_objects st l; b = st_objects st r in
      if action_state a \<noteq> SQueued \<or> action_state b \<noteq> SQueued \<or> sa_delivery a \<noteq> sa_delivery b then Inl SwapNotQueued
      else let lane = lane_of st (sa_delivery a) in
        case (first_index ((=) l) lane, first_index ((=) r) lane) of
          (Some i, Some j) \<Rightarrow> Inr (set_lane (sa_delivery a) (lane[i := r, j := l]) st)
        | _ \<Rightarrow> Inl SwapNotOwned)"

definition move_queued ::
    "action_ref \<Rightarrow> delivery_policy \<Rightarrow> int \<Rightarrow> ('x, 'c) action_store \<Rightarrow> store_failure + ('x, 'c) action_store" where
  "move_queued r delivery index st =
     (let a = st_objects st r in
      if action_state a \<noteq> SQueued then Inl MoveNotQueued
      else case first_index ((=) r) (lane_of st (sa_delivery a)) of
        None \<Rightarrow> Inl (NotOwned (sa_id a))
      | Some _ \<Rightarrow>
          let st1 = set_lane (sa_delivery a) (remove1 r (lane_of st (sa_delivery a))) st;
              st2 = update_object r (sa_delivery_update (\<lambda>_. delivery)) st1;
              target = lane_of st2 delivery;
              queued = filter (is_queued st2) target;
              i = nat (max 0 (min index (int (length queued))));
              place = (if i < length queued
                    then (case first_index ((=) (queued ! i)) target of Some k \<Rightarrow> k | None \<Rightarrow> length target)
                    else length target)
          in Inr (set_lane delivery (insert_at place r target) st2))"

definition release_terminal :: "action_ref \<Rightarrow> ('x, 'c) action_store \<Rightarrow> store_failure + ('x, 'c) action_store" where
  "release_terminal r st =
     (let a = st_objects st r in
      if action_state a \<notin> set terminal_states then Inl (ReleaseNonterminal (sa_id a))
      else Inr ((set_lane (sa_delivery a) (remove1 r (lane_of st (sa_delivery a))) st)
                  \<lparr>st_tickets := (st_tickets st)(sa_id a := None)\<rparr>))"

section \<open>Residency\<close>

text \<open>The activity is a number of milliseconds; \<open>None\<close> stands for \<open>"off"\<close>.\<close>

record session_residency =
  sr_active :: bool
  sr_attached_clients :: int
  sr_cron_job :: bool
  sr_last_activity :: "rat jsnum"
  sr_has_parent :: bool
  sr_busy_descendants :: bool
  sr_hydrating :: bool

datatype worker_lifecycle = WorkerStarting | WorkerReady | WorkerRecovering | WorkerStopping | WorkerFailed

record worker_residency =
  wr_lifecycle :: worker_lifecycle
  wr_connected :: bool
  wr_stopping :: bool
  wr_owner_client :: bool
  wr_update_restart :: bool
  wr_wake_blind :: bool
  wr_sessions :: "session_residency list"

definition idle_eviction_threshold_met :: "session_residency \<Rightarrow> rat jsnum option \<Rightarrow> rat \<Rightarrow> bool" where
  "idle_eviction_threshold_met s minutes now =
     (case minutes of
        Some (Fin m) \<Rightarrow>
          0 < m \<and> \<not> sr_active s \<and> sr_attached_clients s = 0 \<and> \<not> sr_cron_job s
          \<and> (case sr_last_activity s of Fin t \<Rightarrow> m * 60000 \<le> now - t | _ \<Rightarrow> False)
      | _ \<Rightarrow> False)"

definition can_passivate_session :: "session_residency \<Rightarrow> rat jsnum option \<Rightarrow> rat \<Rightarrow> bool" where
  "can_passivate_session s minutes now \<longleftrightarrow>
     sr_has_parent s \<and> \<not> sr_busy_descendants s \<and> \<not> sr_hydrating s \<and> idle_eviction_threshold_met s minutes now"

definition can_evict_worker :: "worker_residency \<Rightarrow> rat jsnum option \<Rightarrow> rat \<Rightarrow> bool" where
  "can_evict_worker w minutes now =
     (if wr_lifecycle w \<noteq> WorkerReady \<or> \<not> wr_connected w \<or> wr_stopping w \<or> wr_owner_client w
         \<or> wr_update_restart w \<or> wr_wake_blind w \<or> wr_sessions w = [] then False
      else list_all (\<lambda>s. idle_eviction_threshold_met s minutes now) (wr_sessions w))"

record runtime_activity =
  ra_lower_agent_run :: bool
  ra_compaction :: bool
  ra_retry :: bool
  ra_bash :: bool
  ra_refinement_apply :: bool
  ra_branch_mutation :: bool
  ra_pause_count :: int
  ra_disposing :: bool

definition can_select_session_action :: "runtime_activity \<Rightarrow> bool" where
  "can_select_session_action a \<longleftrightarrow>
     \<not> ra_lower_agent_run a \<and> \<not> ra_compaction a \<and> \<not> ra_retry a \<and> \<not> ra_bash a \<and> \<not> ra_refinement_apply a
     \<and> \<not> ra_branch_mutation a \<and> ra_pause_count a = 0 \<and> \<not> ra_disposing a"


section \<open>Frame lemmas\<close>

named_theorems store_simps \<open>what an operation of the store leaves alone\<close>

lemma set_lifecycle_simps [store_simps]:
  "st_boundary (set_lifecycle r l st) = st_boundary st"
  "st_idle (set_lifecycle r l st) = st_idle st"
  "st_tickets (set_lifecycle r l st) = st_tickets st"
  "sa_id (st_objects (set_lifecycle r l st) q) = sa_id (st_objects st q)"
  "sa_delivery (st_objects (set_lifecycle r l st) q) = sa_delivery (st_objects st q)"
  "sa_priority (st_objects (set_lifecycle r l st) q) = sa_priority (st_objects st q)"
  "sa_payload (st_objects (set_lifecycle r l st) q) = sa_payload (st_objects st q)"
  "sa_lifecycle (st_objects (set_lifecycle r l st) q) = (if q = r then l else sa_lifecycle (st_objects st q))"
  by (simp_all add: set_lifecycle_def update_object_def)

lemma set_lane_simps [store_simps]:
  "st_tickets (set_lane d xs st) = st_tickets st"
  "st_objects (set_lane d xs st) = st_objects st"
  "lane_of (set_lane d xs st) d' = (if d' = d then xs else lane_of st d')"
  "object_state (set_lane d xs st) q = object_state st q"
  by (cases d; cases d'; simp add: object_state_def)+

lemma lane_of_update [store_simps]:
  "lane_of (st\<lparr>st_tickets := t\<rparr>) d = lane_of st d"
  "lane_of (st\<lparr>st_objects := m\<rparr>) d = lane_of st d"
  "lane_of (set_lifecycle r l st) d = lane_of st d"
  "lane_of (update_object r f st) d = lane_of st d"
  by (cases d; simp add: set_lifecycle_def update_object_def)+

lemma object_state_update [store_simps]:
  "object_state (set_lifecycle r l st) q = (if q = r then state_of l else object_state st q)"
  "object_state (st\<lparr>st_tickets := t\<rparr>) q = object_state st q"
  by (simp_all add: object_state_def action_state_def set_lifecycle_def update_object_def)

lemma owned_actions_lanes: "owned_actions st = lane_of st NextTurnBoundary @ lane_of st WhenRunIdle"
  by (simp add: store_actions_def)

lemma UNIV_delivery_policy: "(UNIV :: delivery_policy set) = {NextTurnBoundary, WhenRunIdle}"
  by (auto intro: delivery_policy.exhaust)

lemma set_owned_actions: "set (owned_actions st) = (\<Union>d. set (lane_of st d))"
  by (simp add: owned_actions_lanes UNIV_delivery_policy)

text \<open>A transition that does not throw writes the lifecycle of its action and nothing else.\<close>

lemma transition_ok:
  assumes "transition_session_action r l p st = Inr st'"
  shows "st' = set_lifecycle r l st \<and> state_of l \<in> set (legal_transitions (object_state st r))"
  using assms by (auto simp: transition_session_action_def Let_def split: if_splits option.splits)

lemma find_append: "find P (xs @ ys) = (case find P xs of None \<Rightarrow> find P ys | Some x \<Rightarrow> Some x)"
  by (induction xs) simp_all

lemma select_first_eq:
  "select_first st =
     (case find (is_queued st) (owned_actions st) of
        None \<Rightarrow> (None, st) | Some r \<Rightarrow> (Some r, set_lifecycle r Selected st))"
  by (auto simp: select_first_def owned_actions_lanes find_append transition_session_action_def
      find_Some_iff Let_def split: option.splits)

lemma cancel_all_ok:
  "cancel_all rs st = (None, st') \<Longrightarrow> st' = fold (\<lambda>r. set_lifecycle r Cancelled) rs st"
  by (induction rs arbitrary: st) (auto split: sum.splits dest: transition_ok)

section \<open>Well-formed stores\<close>

text \<open>
  No action stands twice in the store, an action stands in the lane of its delivery, no two actions
  share an id, and the tickets are those of the actions of the store.
\<close>

definition store_wf :: "('x, 'c) action_store \<Rightarrow> bool" where
  "store_wf st \<longleftrightarrow>
     (\<forall>d. distinct (lane_of st d))
     \<and> (\<forall>d. \<forall>r\<in>set (lane_of st d). sa_delivery (st_objects st r) = d)
     \<and> inj_on (\<lambda>r. sa_id (st_objects st r)) (set (owned_actions st))
     \<and> dom (st_tickets st) = (\<lambda>r. sa_id (st_objects st r)) ` set (owned_actions st)"

lemma store_wf_distinct: "store_wf st \<Longrightarrow> distinct (owned_actions st)"
  unfolding store_wf_def owned_actions_lanes
  by (metis delivery_policy.distinct(1) disjoint_iff distinct_append)

lemma set_lifecycle_wf [simp]: "store_wf (set_lifecycle r l st) = store_wf st"
  by (simp add: store_wf_def set_owned_actions store_simps)

lemma store_wfD:
  assumes "store_wf st"
  shows "distinct (lane_of st d)"
    and "r \<in> set (lane_of st d) \<Longrightarrow> sa_delivery (st_objects st r) = d"
    and "inj_on (\<lambda>r. sa_id (st_objects st r)) (set (owned_actions st))"
    and "dom (st_tickets st) = (\<lambda>r. sa_id (st_objects st r)) ` set (owned_actions st)"
  using assms unfolding store_wf_def by blast+

lemma store_wf_ticket:
  "store_wf st \<Longrightarrow> r \<in> set (owned_actions st) \<Longrightarrow> \<exists>t. st_tickets st (sa_id (st_objects st r)) = Some t"
  unfolding store_wf_def by blast

lemma not_owned_without_ticket:
  "store_wf st \<Longrightarrow> st_tickets st (sa_id (st_objects st r)) = None \<Longrightarrow> r \<notin> set (owned_actions st)"
  using store_wf_ticket by fastforce

lemma enqueue_eq:
  assumes "enqueue r p st = Inr st'"
  shows "is_queued st r" "st_tickets st (sa_id (st_objects st r)) = None"
    "st' = (set_lane (sa_delivery (st_objects st r))
        (insert_at (insertion_index st (lane_of st (sa_delivery (st_objects st r))) (st_objects st r) p) r
           (lane_of st (sa_delivery (st_objects st r)))) st)
        \<lparr>st_tickets := (st_tickets st)(sa_id (st_objects st r) \<mapsto> new_ticket)\<rparr>"
  using assms by (auto simp: enqueue_def Let_def object_state_def split: if_splits)

lemma enqueue_fields:
  assumes "enqueue r p st = Inr st'"
  shows "st_objects st' = st_objects st"
    and "st_tickets st' = (st_tickets st)(sa_id (st_objects st r) \<mapsto> new_ticket)"
    and "\<exists>i. lane_of st' d =
      (if d = sa_delivery (st_objects st r) then insert_at i r (lane_of st d) else lane_of st d)"
  unfolding enqueue_eq(3) [OF assms] by (auto simp: store_simps)

lemma enqueue_owned:
  assumes "enqueue r p st = Inr st'"
  shows "set (owned_actions st') = insert r (set (owned_actions st))"
  unfolding enqueue_eq(3) [OF assms] by (auto simp: set_owned_actions store_simps split: if_splits)

lemma enqueue_wf:
  assumes "store_wf st" "enqueue r p st = Inr st'"
  shows "store_wf st'"
proof -
  note e = enqueue_eq(2) [OF assms(2)] and f = enqueue_fields [OF assms(2)] and owned = enqueue_owned [OF assms(2)]
  have n: "r \<notin> set (lane_of st d)" for d
    using not_owned_without_ticket [OF assms(1) e] by (auto simp: set_owned_actions)
  have "distinct (lane_of st' d)" for d
    using f(3) [of d] store_wfD(1) [OF assms(1)] n by auto
  moreover have "q \<in> set (lane_of st' d) \<Longrightarrow> sa_delivery (st_objects st q) = d" for d q
    using f(3) [of d] store_wfD(2) [OF assms(1)] by (auto split: if_splits)
  moreover have "inj_on (\<lambda>r. sa_id (st_objects st r)) (insert r (set (owned_actions st)))"
    using store_wfD(3) [OF assms(1)] e store_wfD(4) [OF assms(1)] unfolding inj_on_insert by blast
  moreover have "dom (st_tickets st') = (\<lambda>r. sa_id (st_objects st r)) ` insert r (set (owned_actions st))"
    using store_wfD(4) [OF assms(1)] unfolding f(2) by simp
  ultimately show ?thesis
    unfolding store_wf_def owned f(1) by blast
qed

lemma mset_swap_first:
  assumes "first_index ((=) l) xs = Some i" "first_index ((=) r) xs = Some j"
  shows "mset (xs[i := r, j := l]) = mset xs"
proof -
  have i: "l = xs ! i" "i < length xs" and j: "r = xs ! j" "j < length xs"
    using first_index_Some [OF assms(1)] first_index_Some [OF assms(2)] by auto
  show ?thesis
    using mset_swap [where i = j and j = i and ls = xs] i(2) j(2) by (simp only: i(1) j(1))
qed

text \<open>A rearrangement of one lane.\<close>

lemma set_lane_perm_wf:
  assumes "store_wf st" "mset xs = mset (lane_of st d)"
  shows "store_wf (set_lane d xs st)" "set (owned_actions (set_lane d xs st)) = set (owned_actions st)"
proof -
  have s: "set xs = set (lane_of st d)" "distinct xs"
    using mset_eq_setD [OF assms(2)] mset_eq_imp_distinct_iff [OF assms(2)] store_wfD(1) [OF assms(1)] by simp_all
  show o: "set (owned_actions (set_lane d xs st)) = set (owned_actions st)"
    by (auto simp: set_owned_actions store_simps s split: if_splits)
  show "store_wf (set_lane d xs st)"
    using assms(1) s unfolding store_wf_def o by (simp add: store_simps)
qed

lemma swap_queued_eq:
  assumes "swap_queued l r st = Inr st'"
  shows "\<exists>xs. st' = set_lane (sa_delivery (st_objects st l)) xs st
     \<and> mset xs = mset (lane_of st (sa_delivery (st_objects st l)))"
  using assms by (auto simp: swap_queued_def Let_def mset_swap_first split: if_splits option.splits)

lemma swap_queued_wf: "store_wf st \<Longrightarrow> swap_queued l r st = Inr st' \<Longrightarrow> store_wf st'"
  using swap_queued_eq set_lane_perm_wf by metis

lemma release_terminal_wf:
  assumes "store_wf st" "release_terminal r st = Inr st'"
    and "r \<in> set (owned_actions st) \<or> st_tickets st (sa_id (st_objects st r)) = None"
  shows "store_wf st'"
proof -
  let ?d = "sa_delivery (st_objects st r)"
  have e: "st' = (set_lane ?d (remove1 r (lane_of st ?d)) st)\<lparr>st_tickets := (st_tickets st)(sa_id (st_objects st r) := None)\<rparr>"
    using assms(2) by (auto simp: release_terminal_def Let_def split: if_splits)
  have "r \<notin> set (lane_of st d)" if "d \<noteq> ?d" for d
    using store_wfD(2) [OF assms(1), of r d] that by blast
  then have l: "lane_of st' d = remove1 r (lane_of st d)" for d
    by (simp add: e store_simps remove1_idem)
  have o: "set (owned_actions st') = set (owned_actions st) - {r}"
    using store_wfD(1) [OF assms(1)] by (simp add: set_owned_actions l)
  have f: "st_objects st' = st_objects st" "st_tickets st' = (st_tickets st)(sa_id (st_objects st r) := None)"
    by (simp_all add: e store_simps)
  have "dom (st_tickets st') = (\<lambda>r. sa_id (st_objects st r)) ` set (owned_actions st) - {sa_id (st_objects st r)}"
    by (simp add: f(2) store_wfD(4) [OF assms(1)])
  also have "\<dots> = (\<lambda>r. sa_id (st_objects st r)) ` (set (owned_actions st) - {r})"
    using assms(3) store_wfD(3,4) [OF assms(1)] unfolding inj_on_def by blast
  finally have "dom (st_tickets st') = (\<lambda>r. sa_id (st_objects st' r)) ` set (owned_actions st')"
    by (simp add: f(1) o)
  moreover have "distinct (lane_of st' d)" for d
    by (simp add: l store_wfD(1) [OF assms(1)])
  moreover have "q \<in> set (lane_of st' d) \<Longrightarrow> sa_delivery (st_objects st' q) = d" for d q
    using store_wfD(2) [OF assms(1)] set_remove1_subset by (fastforce simp: l f(1))
  moreover have "inj_on (\<lambda>r. sa_id (st_objects st' r)) (set (owned_actions st'))"
    unfolding f(1) o by (rule inj_on_subset [OF store_wfD(3) [OF assms(1)]]) blast
  ultimately show ?thesis unfolding store_wf_def by blast
qed


lemma move_queued_eq:
  assumes "move_queued r d k st = Inr st'"
  defines "from_lane \<equiv> sa_delivery (st_objects st r)"
  defines "st2 \<equiv> update_object r (sa_delivery_update (\<lambda>_. d)) (set_lane from_lane (remove1 r (lane_of st from_lane)) st)"
  shows "is_queued st r \<and> r \<in> set (lane_of st from_lane) \<and> (\<exists>i. st' = set_lane d (insert_at i r (lane_of st2 d)) st2)"
proof -
  have q: "is_queued st r"
    using assms(1) by (auto simp: move_queued_def Let_def object_state_def split: if_splits)
  moreover obtain i0 where i0: "first_index ((=) r) (lane_of st from_lane) = Some i0"
    using assms(1) by (auto simp: move_queued_def Let_def from_lane_def split: if_splits option.splits)
  moreover have "r \<in> set (lane_of st from_lane)"
    using first_index_Some [OF i0] nth_mem by metis
  moreover have "\<exists>i. st' = set_lane d (insert_at i r (lane_of st2 d)) st2"
    using assms(1) q i0
    unfolding move_queued_def Let_def st2_def from_lane_def object_state_def by (simp add: eq_commute) blast
  ultimately show ?thesis by blast
qed

lemma move_queued_fields:
  assumes "move_queued r d k st = Inr st'"
  shows "r \<in> set (lane_of st (sa_delivery (st_objects st r)))"
    and "st_tickets st' = st_tickets st"
    and "st_objects st' = (st_objects st)(r := (st_objects st r)\<lparr>sa_delivery := d\<rparr>)"
    and "\<exists>i. lane_of st' e =
      (let rest = (if e = sa_delivery (st_objects st r) then remove1 r (lane_of st e) else lane_of st e)
       in if e = d then insert_at i r rest else rest)"
  using move_queued_eq [OF assms] by (auto simp: store_simps update_object_def Let_def)

lemma move_queued_wf:
  assumes "store_wf st" "move_queued r d k st = Inr st'"
  shows "store_wf st'" "set (owned_actions st') = set (owned_actions st)"
proof -
  note f = move_queued_fields [OF assms(2)]
  let ?d = "sa_delivery (st_objects st r)"
  have only: "r \<notin> set (lane_of st e)" if "e \<noteq> ?d" for e
    using store_wfD(2) [OF assms(1), of r e] that by blast
  have rest: "(if e = ?d then remove1 r (lane_of st e) else lane_of st e) = remove1 r (lane_of st e)" for e
    using only [of e] by (simp add: remove1_idem)
  have l: "\<exists>i. lane_of st' e = (if e = d then insert_at i r (remove1 r (lane_of st e)) else remove1 r (lane_of st e))" for e
    using f(4) [of e] unfolding Let_def rest .
  have s: "set (lane_of st' e) = (if e = d then insert r (set (lane_of st e)) else set (lane_of st e) - {r})" for e
    using l [of e] store_wfD(1) [OF assms(1)] by auto
  show o: "set (owned_actions st') = set (owned_actions st)"
    using f(1) by (auto simp: set_owned_actions s split: if_splits)
  have same: "sa_id (st_objects st' q) = sa_id (st_objects st q)" for q
    by (simp add: f(3))
  have "distinct (lane_of st' e)" for e
    using l [of e] store_wfD(1) [OF assms(1)] by auto
  moreover have "q \<in> set (lane_of st' e) \<Longrightarrow> sa_delivery (st_objects st' q) = e" for q e
    using store_wfD(2) [OF assms(1), of q e] by (auto simp: s f(3) split: if_splits)
  ultimately show "store_wf st'"
    unfolding store_wf_def o f(2) same using store_wfD(3,4) [OF assms(1)] by blast
qed

section \<open>Histories of a store\<close>

text \<open>
  One call on the store by its owner. A cancellation that throws half way keeps what it has done; an
  action is released while it stands in the store, or when its ticket is gone.
\<close>

inductive store_step :: "('x, 'c) action_store \<Rightarrow> ('x, 'c) action_store \<Rightarrow> bool" where
  enqueued: "enqueue r p st = Inr st' \<Longrightarrow> store_step st st'"
| selected: "select_first st = (found, st') \<Longrightarrow> store_step st st'"
| moved_on: "transition_session_action r l p st = Inr st' \<Longrightarrow> store_step st st'"
| removed: "remove_actions P rs st = (result, st') \<Longrightarrow> store_step st st'"
| swapped: "swap_queued l r st = Inr st' \<Longrightarrow> store_step st st'"
| placed: "move_queued r d k st = Inr st' \<Longrightarrow> store_step st st'"
| told: "store_step st (update_ticket r f st)"
| released: "release_terminal r st = Inr st' \<Longrightarrow>
    r \<in> set (owned_actions st) \<or> st_tickets st (sa_id (st_objects st r)) = None \<Longrightarrow> store_step st st'"

abbreviation store_run :: "('x, 'c) action_store \<Rightarrow> ('x, 'c) action_store \<Rightarrow> bool" where
  "store_run \<equiv> store_step\<^sup>*\<^sup>*"

text \<open>Every other call changes the lifecycle of actions along legal transitions, or no lifecycle at all.\<close>

inductive lifecycle_step :: "('x, 'c) action_store \<Rightarrow> ('x, 'c) action_store \<Rightarrow> bool" where
  "transition_session_action r l p st = Inr st' \<Longrightarrow> lifecycle_step st st'"

abbreviation lifecycle_run :: "('x, 'c) action_store \<Rightarrow> ('x, 'c) action_store \<Rightarrow> bool" where
  "lifecycle_run \<equiv> lifecycle_step\<^sup>*\<^sup>*"

lemma cancel_all_run: "cancel_all rs st = (e, st') \<Longrightarrow> lifecycle_run st st'"
  by (induction rs arbitrary: st)
    (auto split: sum.splits intro: lifecycle_step.intros converse_rtranclp_into_rtranclp)

lemma remove_actions_run: "remove_actions P rs st = (result, st') \<Longrightarrow> lifecycle_run st st'"
  by (auto simp: remove_actions_def Let_def split: prod.splits option.splits dest: cancel_all_run)

lemma select_first_run: "select_first st = (found, st') \<Longrightarrow> lifecycle_run st st'"
  by (auto simp: select_first_def Let_def split: option.splits sum.splits intro: lifecycle_step.intros)

lemma lifecycle_run_wf: "lifecycle_run st st' \<Longrightarrow> store_wf st \<Longrightarrow> store_wf st'"
  by (induction rule: rtranclp_induct) (auto elim!: lifecycle_step.cases dest: transition_ok)

lemma update_ticket_simps [store_simps]:
  "lane_of (update_ticket r f st) d = lane_of st d"
  "st_objects (update_ticket r f st) = st_objects st"
  "dom (st_tickets (update_ticket r f st)) = dom (st_tickets st)"
  by (auto simp: update_ticket_def Let_def store_simps split: option.splits)

lemma update_ticket_wf: "store_wf (update_ticket r f st) = store_wf st"
  by (simp add: store_wf_def set_owned_actions store_simps)

lemma store_step_wf: "store_step st st' \<Longrightarrow> store_wf st \<Longrightarrow> store_wf st'"
  by (induction rule: store_step.induct)
    (blast intro: enqueue_wf lifecycle_run_wf select_first_run remove_actions_run swap_queued_wf
      move_queued_wf(1) update_ticket_wf [THEN iffD2] release_terminal_wf lifecycle_step.intros)+

end
