(* ===== verification/ActionQueue.thy ===== *)
theory ActionQueue
  imports ActionStore
begin

text \<open>
  The contract between the store of pending work and the scheduler of a session: a queue that is stable
  among equals. \<open>stable_queue\<close> states it over any queue; the interpretation \<open>service\<close> shows that the
  store keeps it under admissions by priority and \<open>selectFirst\<close>, with the lane and then the priority of
  an action as its key.
\<close>

section \<open>The contract of a queue with priorities\<close>

text \<open>
  What the scheduler relies on: an admission goes behind everything that is at least as urgent and
  ahead of the rest, and what is taken is the head.
\<close>

locale stable_queue =
  fixes waiting :: "'s \<Rightarrow> 'a list"
    and key :: "'a \<Rightarrow> 'k::linorder"
    and put :: "'a \<Rightarrow> 's \<Rightarrow> 's option"
    and get :: "'s \<Rightarrow> ('a \<times> 's) option"
    and valid :: "'s \<Rightarrow> bool"
  assumes put_waiting: "valid s \<Longrightarrow> put x s = Some s' \<Longrightarrow>
      waiting s' = filter (\<lambda>y. key x \<le> key y) (waiting s) @ x # filter (\<lambda>y. key y < key x) (waiting s)"
    and put_valid: "valid s \<Longrightarrow> put x s = Some s' \<Longrightarrow> valid s'"
    and get_waiting: "valid s \<Longrightarrow> get s = Some (x, s') \<Longrightarrow> waiting s = x # waiting s'"
    and get_valid: "valid s \<Longrightarrow> get s = Some (x, s') \<Longrightarrow> valid s'"
    and get_None: "valid s \<Longrightarrow> get s = None \<Longrightarrow> waiting s = []"
    and valid_sorted: "valid s \<Longrightarrow> sorted_wrt (\<lambda>x y. key y \<le> key x) (waiting s)"
begin

text \<open>A history: what was put in, and what was taken, each in its order.\<close>

inductive history :: "'s \<Rightarrow> 'a list \<Rightarrow> 'a list \<Rightarrow> 's \<Rightarrow> bool" for s0 where
  untouched: "history s0 [] [] s0"
| given: "history s0 ps ts s \<Longrightarrow> put x s = Some s' \<Longrightarrow> history s0 (ps @ [x]) ts s'"
| taken: "history s0 ps ts s \<Longrightarrow> get s = Some (x, s') \<Longrightarrow> history s0 ps (ts @ [x]) s'"

lemma history_valid: "history s0 ps ts s \<Longrightarrow> valid s0 \<Longrightarrow> valid s"
  by (induction rule: history.induct) (auto intro: put_valid get_valid)

text \<open>First in, first out among equals, whatever else comes and goes.\<close>

lemma fifo_per_key:
  assumes "history s0 ps ts s" "valid s0"
  shows "filter (\<lambda>x. key x = k) (waiting s0 @ ps) = filter (\<lambda>x. key x = k) (ts @ waiting s)"
  using assms
proof (induction rule: history.induct)
  case (given ps ts s x s')
  note w = put_waiting [OF history_valid [OF given.hyps(1) given.prems] given.hyps(2)]
  have urgent: "filter (\<lambda>y. key y = k) (filter (\<lambda>y. key x \<le> key y) ys)
      = (if key x \<le> k then filter (\<lambda>y. key y = k) ys else [])" for ys
    by (auto intro!: filter_cong simp: filter_empty_conv)
  have rest: "filter (\<lambda>y. key y = k) (filter (\<lambda>y. key y < key x) ys)
      = (if key x \<le> k then [] else filter (\<lambda>y. key y = k) ys)" for ys
    by (auto intro!: filter_cong simp: filter_empty_conv)
  show ?case
    using given.IH [OF given.prems] unfolding w filter_append filter.simps urgent rest by auto
next
  case (taken ps ts s x s')
  then show ?case
    using get_waiting [OF history_valid [OF taken.hyps(1) taken.prems] taken.hyps(2)] by auto
qed simp

lemma conserved:
  assumes "history s0 ps ts s" "valid s0"
  shows "mset (waiting s0 @ ps) = mset (ts @ waiting s)"
  using assms
proof (induction rule: history.induct)
  case (given ps ts s x s')
  have "(\<lambda>y. key y < key x) = (\<lambda>y. \<not> key x \<le> key y)"
    by (simp add: fun_eq_iff not_le)
  then have "mset (waiting s') = add_mset x (mset (waiting s))"
    unfolding put_waiting [OF history_valid [OF given.hyps(1) given.prems] given.hyps(2)]
    using multiset_partition [of "mset (waiting s)" "\<lambda>y. key x \<le> key y"] by simp
  with given show ?case by simp
next
  case (taken ps ts s x s')
  then show ?case
    using get_waiting [OF history_valid [OF taken.hyps(1) taken.prems] taken.hyps(2)] by auto
qed simp

text \<open>What is taken is the most urgent of what waits.\<close>

lemma get_greatest:
  assumes "valid s" "get s = Some (x, s')"
  shows "x \<in> set (waiting s) \<and> (\<forall>y\<in>set (waiting s). key y \<le> key x)"
  using valid_sorted [OF assms(1)] get_waiting [OF assms] by auto

text \<open>Admissions alone sort what came, and keep the order of equals.\<close>

lemma puts_sort:
  assumes "history s0 ps [] s" "valid s0"
  shows "waiting s = rev (sort_key key (rev (waiting s0 @ ps)))"
proof -
  have "sort_key key (rev (waiting s0 @ ps)) = rev (waiting s)"
  proof (rule properties_for_sort_key)
    show "mset (rev (waiting s)) = mset (rev (waiting s0 @ ps))"
      using conserved [OF assms] by (simp add: ac_simps)
    show "filter (\<lambda>x. key k = key x) (rev (waiting s)) = filter (\<lambda>x. key k = key x) (rev (waiting s0 @ ps))" for k
      using arg_cong [OF fifo_per_key [OF assms, of "key k"], of rev]
      by (simp add: eq_commute [of "key k"] rev_filter)
    show "sorted (map key (rev (waiting s)))"
      using valid_sorted [OF history_valid [OF assms]] by (simp add: rev_map sorted_wrt_rev sorted_wrt_map)
  qed
  then show ?thesis by simp
qed

end


section \<open>The store is such a queue\<close>

text \<open>Where a placement by priority puts an action: before the longest tail it may overtake.\<close>

lemma overtake_append: "n \<le> length xs \<Longrightarrow> overtake stop (xs @ ys) n = overtake stop xs n"
  by (induction n) (simp_all add: nth_append)

lemma insert_at_overtake:
  "insert_at (overtake stop xs (length xs)) x xs =
     rev (dropWhile (\<lambda>y. \<not> stop y) (rev xs)) @ x # rev (takeWhile (\<lambda>y. \<not> stop y) (rev xs))"
proof (induction xs rule: rev_induct)
  case (snoc y xs)
  have "overtake stop xs n \<le> n" for n
    by (induction n) auto
  from this [of "length xs"] snoc show ?case
    by (auto simp: insert_at_def overtake_append nth_append)
qed (simp add: insert_at_def)

lemma sorted_filter_split:
  fixes f :: "'a \<Rightarrow> 'k::linorder"
  assumes "sorted_wrt (\<lambda>x y. f y \<le> f x) ys"
  shows "filter (\<lambda>y. k \<le> f y) ys @ filter (\<lambda>y. f y < k) ys = ys"
  using assms
proof (induction ys)
  case (Cons a ys)
  show ?case
  proof (cases "k \<le> f a")
    case False
    with Cons.prems have "\<forall>y\<in>set (a # ys). f y < k" by auto
    then show ?thesis by (auto simp: filter_id_conv filter_empty_conv)
  qed (use Cons in auto)
qed simp

lemma takeWhile_none: "\<forall>y\<in>set ys. \<not> P y \<Longrightarrow> takeWhile P ys = []"
  by (cases ys) simp_all

lemma insert_at_priority:
  fixes f :: "'a \<Rightarrow> 'k::linorder"
  assumes "\<forall>y\<in>set ds. \<not> queued y" "\<forall>y\<in>set ys. queued y" "sorted_wrt (\<lambda>x y. f y \<le> f x) ys"
  defines "xs \<equiv> ds @ ys"
  shows "insert_at (overtake (\<lambda>y. \<not> queued y \<or> k \<le> f y) xs (length xs)) x xs =
    ds @ filter (\<lambda>y. k \<le> f y) ys @ x # filter (\<lambda>y. f y < k) ys"
proof -
  let ?go = "\<lambda>y. \<not> (\<not> queued y \<or> k \<le> f y)"
  let ?hi = "filter (\<lambda>y. k \<le> f y) ys" and ?lo = "filter (\<lambda>y. f y < k) ys"
  have xs: "rev xs = rev ?lo @ rev ?hi @ rev ds"
    unfolding xs_def by (subst sorted_filter_split [OF assms(3), symmetric, of k]) simp
  have stop: "takeWhile ?go (rev ?hi @ rev ds) = []"
    using assms(1) by (intro takeWhile_none) auto
  then have drop: "dropWhile ?go (rev ?hi @ rev ds) = rev ?hi @ rev ds"
    by (metis append_Nil takeWhile_dropWhile_id)
  have lo: "y \<in> set (rev ?lo) \<Longrightarrow> ?go y" for y
    using assms(2) by auto
  have "takeWhile ?go (rev ?lo @ zs) = rev ?lo @ takeWhile ?go zs" for zs
    by (rule takeWhile_append2) (rule lo)
  moreover have "dropWhile ?go (rev ?lo @ zs) = dropWhile ?go zs" for zs
    by (rule dropWhile_append2) (rule lo)
  ultimately have "takeWhile ?go (rev xs) = rev ?lo" "dropWhile ?go (rev xs) = rev ?hi @ rev ds"
    unfolding xs by (simp_all only: stop drop append_Nil2)
  then show ?thesis
    unfolding insert_at_overtake by simp
qed

section \<open>Served by lane, then by priority\<close>

definition service_key :: "('x, 'c) session_action \<Rightarrow> delivery_policy \<times> action_priority" where
  "service_key a = (sa_delivery a, sa_priority a)"

text \<open>
  The shape of a store that has only seen admissions by priority and selections: in a lane, the actions
  already taken, then those that wait, the most urgent first. \<open>key\<close> names what the actions' objects say,
  which neither operation changes.
\<close>

definition in_service ::
    "(action_ref \<Rightarrow> delivery_policy \<times> action_priority) \<Rightarrow> ('x, 'c) action_store \<Rightarrow> bool" where
  "in_service key st \<longleftrightarrow>
     store_wf st \<and> (\<forall>r. service_key (st_objects st r) = key r)
     \<and> (\<forall>d. \<exists>gone. lane_of st d = gone @ queued_actions (Some d) st)
     \<and> sorted_wrt (\<lambda>x y. key y \<le> key x) (queued_actions None st)"

definition admit :: "action_ref \<Rightarrow> ('x, 'c) action_store \<Rightarrow> ('x, 'c) action_store option" where
  "admit r st = (case enqueue r PlacePriority st of Inl _ \<Rightarrow> None | Inr st' \<Rightarrow> Some st')"

definition serve :: "('x, 'c) action_store \<Rightarrow> (action_ref \<times> ('x, 'c) action_store) option" where
  "serve st = (case select_first st of (None, _) \<Rightarrow> None | (Some r, st') \<Rightarrow> Some (r, st'))"

lemma queued_actions_lanes:
  "queued_actions None st = queued_actions (Some NextTurnBoundary) st @ queued_actions (Some WhenRunIdle) st"
  by (simp add: queued_actions_def store_actions_def)

lemma queued_actions_lane: "queued_actions (Some d) st = filter (is_queued st) (lane_of st d)"
  by (simp add: queued_actions_def store_actions_def)

lemma gone_not_queued: "lane_of st d = gone @ queued_actions (Some d) st \<Longrightarrow> \<forall>y\<in>set gone. \<not> is_queued st y"
proof -
  assume gone: "lane_of st d = gone @ queued_actions (Some d) st"
  have "filter (is_queued st) (queued_actions (Some d) st) = queued_actions (Some d) st"
    by (simp add: queued_actions_def)
  moreover have "filter (is_queued st) (gone @ queued_actions (Some d) st) = queued_actions (Some d) st"
    using gone by (simp add: queued_actions_lane)
  ultimately have "filter (is_queued st) gone = []" by simp
  then show ?thesis by (simp add: filter_empty_conv)
qed

lemma in_serviceD:
  assumes "in_service key st"
  shows "store_wf st" "key r = (sa_delivery (st_objects st r), sa_priority (st_objects st r))"
    "\<exists>gone. lane_of st d = gone @ queued_actions (Some d) st"
    "sorted_wrt (\<lambda>x y. key y \<le> key x) (queued_actions (Some d) st)"
    "r \<in> set (lane_of st d) \<Longrightarrow> fst (key r) = d"
proof -
  show w: "store_wf st" and k: "key r = (sa_delivery (st_objects st r), sa_priority (st_objects st r))" for r
    using assms unfolding in_service_def service_key_def by metis+
  show "\<exists>gone. lane_of st d = gone @ queued_actions (Some d) st"
    using assms unfolding in_service_def by blast
  show "sorted_wrt (\<lambda>x y. key y \<le> key x) (queued_actions (Some d) st)"
    using assms unfolding in_service_def queued_actions_lanes by (cases d) (simp_all add: sorted_wrt_append)
  show "r \<in> set (lane_of st d) \<Longrightarrow> fst (key r) = d"
    using store_wfD(2) [OF w] by (simp add: k)
qed

lemma admit_lane:
  assumes "in_service key st" "enqueue r PlacePriority st = Inr st'" and d: "d = sa_delivery (st_objects st r)"
    and gone: "lane_of st d = gone @ queued_actions (Some d) st"
  shows "lane_of st' d = gone @ filter (\<lambda>y. key r \<le> key y) (queued_actions (Some d) st)
        @ r # filter (\<lambda>y. key y < key r) (queued_actions (Some d) st)"
proof -
  let ?Q = "queued_actions (Some d) st"
  let ?rank = "\<lambda>y. sa_priority (st_objects st y)"
  have lex: "key r \<le> key y \<longleftrightarrow> ?rank r \<le> ?rank y" "key y < key r \<longleftrightarrow> ?rank y < ?rank r" if "y \<in> set ?Q" for y
    using that in_serviceD(5) [OF assms(1), of y d] in_serviceD(2) [OF assms(1)] d
    by (auto simp: queued_actions_lane)
  have Q: "filter (\<lambda>y. key r \<le> key y) ?Q = filter (\<lambda>y. ?rank r \<le> ?rank y) ?Q"
    "filter (\<lambda>y. key y < key r) ?Q = filter (\<lambda>y. ?rank y < ?rank r) ?Q"
    using lex by (auto intro!: filter_cong)
  have "sorted_wrt (\<lambda>x y. ?rank y \<le> ?rank x) ?Q"
    using in_serviceD(4) [OF assms(1), of d] in_serviceD(5) [OF assms(1)] in_serviceD(2) [OF assms(1)]
    by (elim sorted_wrt_mono_rel [rotated]) (auto simp: queued_actions_lane)
  moreover have "\<forall>y\<in>set ?Q. is_queued st y" by (simp add: queued_actions_def)
  ultimately have "insert_at (overtake (\<lambda>y. \<not> is_queued st y \<or> ?rank r \<le> ?rank y) (lane_of st d) (length (lane_of st d))) r (lane_of st d)
      = gone @ filter (\<lambda>y. ?rank r \<le> ?rank y) ?Q @ r # filter (\<lambda>y. ?rank y < ?rank r) ?Q"
    unfolding gone by (intro insert_at_priority [OF gone_not_queued [OF gone]]) auto
  then show ?thesis
    unfolding Q enqueue_eq(3) [OF assms(2)]
    by (simp add: store_simps d insertion_index_def less_eq_action_priority_def)
qed

lemma admit_Some: "admit r st = Some st' \<longleftrightarrow> enqueue r PlacePriority st = Inr st'"
  by (simp add: admit_def split: sum.splits)

lemma admit_waiting:
  assumes "in_service key st" "enqueue r PlacePriority st = Inr st'"
  defines "d \<equiv> sa_delivery (st_objects st r)"
  shows "queued_actions (Some e) st' =
     (if e = d then filter (\<lambda>y. key r \<le> key y) (queued_actions (Some d) st)
        @ r # filter (\<lambda>y. key y < key r) (queued_actions (Some d) st)
      else queued_actions (Some e) st)" (is ?lane)
    and "\<exists>gone. lane_of st' e = gone @ queued_actions (Some e) st'"
proof -
  have same: "is_queued st' y = is_queued st y" for y
    by (simp add: object_state_def enqueue_fields(1) [OF assms(2)])
  obtain gone where gone: "lane_of st d = gone @ queued_actions (Some d) st"
    using in_serviceD(3) [OF assms(1)] by blast
  note l = admit_lane [OF assms(1,2) meta_eq_to_obj_eq [OF d_def] gone]
  have r: "is_queued st r" using enqueue_eq(1) [OF assms(2)] .
  have other: "lane_of st' e = lane_of st e" if "e \<noteq> d"
    using enqueue_fields(3) [OF assms(2), of e] that unfolding d_def by simp
  have gone_away: "filter (is_queued st) gone = []"
    using gone_not_queued [OF gone] by (simp add: filter_empty_conv)
  have kept: "filter (is_queued st) (filter P (queued_actions (Some d) st)) = filter P (queued_actions (Some d) st)" for P
    by (rule filter_True) (simp add: queued_actions_def)
  show ?lane
    using r other by (auto simp: queued_actions_lane [of _ st'] same [THEN ext] l gone_away kept simp del: filter_filter) (simp add: queued_actions_lane)
  then show "\<exists>gone. lane_of st' e = gone @ queued_actions (Some e) st'"
    using l in_serviceD(3) [OF assms(1), of e] other by (cases "e = d") auto
qed

lemma admit_all_waiting:
  assumes "in_service key st" "enqueue r PlacePriority st = Inr st'"
  shows "queued_actions None st' =
    filter (\<lambda>y. key r \<le> key y) (queued_actions None st) @ r # filter (\<lambda>y. key y < key r) (queued_actions None st)"
proof (cases "sa_delivery (st_objects st r)")
  case NextTurnBoundary
  have "key y < key r" if "y \<in> set (queued_actions (Some WhenRunIdle) st)" for y
    using that in_serviceD(5) [OF assms(1), of y WhenRunIdle] in_serviceD(2) [OF assms(1), of r] NextTurnBoundary
    by (cases "key y") (auto simp: queued_actions_lane less_delivery_policy_def)
  then have "filter (\<lambda>y. key r \<le> key y) (queued_actions (Some WhenRunIdle) st) = []"
    "filter (\<lambda>y. key y < key r) (queued_actions (Some WhenRunIdle) st) = queued_actions (Some WhenRunIdle) st"
    by (auto simp: filter_empty_conv filter_id_conv not_le)
  then show ?thesis
    by (simp add: queued_actions_lanes admit_waiting(1) [OF assms] NextTurnBoundary)
next
  case WhenRunIdle
  have "key r \<le> key y" if "y \<in> set (queued_actions (Some NextTurnBoundary) st)" for y
    using that in_serviceD(5) [OF assms(1), of y NextTurnBoundary] in_serviceD(2) [OF assms(1), of r] WhenRunIdle
    by (cases "key y") (auto simp: queued_actions_lane less_delivery_policy_def)
  then have "filter (\<lambda>y. key r \<le> key y) (queued_actions (Some NextTurnBoundary) st) = queued_actions (Some NextTurnBoundary) st"
    "filter (\<lambda>y. key y < key r) (queued_actions (Some NextTurnBoundary) st) = []"
    by (auto simp: filter_empty_conv filter_id_conv not_less)
  then show ?thesis
    by (simp add: queued_actions_lanes admit_waiting(1) [OF assms] WhenRunIdle)
qed

lemma sorted_insert_between:
  fixes f :: "'a \<Rightarrow> 'k::linorder"
  assumes "sorted_wrt (\<lambda>x y. f y \<le> f x) ys"
  shows "sorted_wrt (\<lambda>x y. f y \<le> f x) (filter (\<lambda>y. f r \<le> f y) ys @ r # filter (\<lambda>y. f y < f r) ys)"
  using assms by (auto simp: sorted_wrt_append sorted_wrt_filter)

lemma admit_in_service:
  assumes "in_service key st" "enqueue r PlacePriority st = Inr st'"
  shows "in_service key st'"
  unfolding in_service_def admit_all_waiting [OF assms]
  using assms(1) enqueue_wf [OF in_serviceD(1) [OF assms(1)] assms(2)] admit_waiting(2) [OF assms]
    enqueue_fields(1) [OF assms(2)]
  by (simp add: in_service_def sorted_insert_between)

lemma find_filter: "find P xs = (case filter P xs of [] \<Rightarrow> None | x # _ \<Rightarrow> Some x)"
  by (induction xs) auto

lemma select_first_cases:
  "select_first st =
     (case queued_actions None st of [] \<Rightarrow> (None, st) | r # _ \<Rightarrow> (Some r, set_lifecycle r Selected st))"
  by (simp add: select_first_eq find_filter queued_actions_def split: list.splits)

lemma selected_waiting:
  "queued_actions p (set_lifecycle r Selected st) = filter (\<lambda>y. y \<noteq> r) (queued_actions p st)"
proof -
  have "is_queued (set_lifecycle r Selected st) = (\<lambda>y. is_queued st y \<and> y \<noteq> r)"
    by (auto simp: fun_eq_iff store_simps)
  then show ?thesis
    by (simp add: queued_actions_def store_actions_def store_simps split: option.split)
qed

lemma selected_in_service:
  assumes "in_service key st" "queued_actions None st = r # rest"
  shows "queued_actions None (set_lifecycle r Selected st) = rest" "in_service key (set_lifecycle r Selected st)"
proof -
  have d: "distinct (queued_actions None st)"
    using store_wf_distinct [OF in_serviceD(1) [OF assms(1)]] by (simp add: queued_actions_def)
  then show w: "queued_actions None (set_lifecycle r Selected st) = rest"
    unfolding selected_waiting assms(2) by (simp add: filter_id_conv) metis
  have "\<exists>gone. lane_of (set_lifecycle r Selected st) e = gone @ queued_actions (Some e) (set_lifecycle r Selected st)" for e
  proof -
    obtain gone where gone: "lane_of st e = gone @ queued_actions (Some e) st"
      using in_serviceD(3) [OF assms(1)] by blast
    consider "r \<notin> set (queued_actions (Some e) st)" | rest' where "queued_actions (Some e) st = r # rest'"
      using assms(2) d
      by (cases e; cases "queued_actions (Some NextTurnBoundary) st") (auto simp: queued_actions_lanes)
    then show ?thesis
    proof cases
      case 1
      then have "queued_actions (Some e) (set_lifecycle r Selected st) = queued_actions (Some e) st"
        unfolding selected_waiting by (auto simp: filter_id_conv)
      with gone show ?thesis by (simp add: store_simps)
    next
      case 2
      with d have "r \<notin> set rest'" by (cases e) (auto simp: queued_actions_lanes)
      with 2 have "queued_actions (Some e) (set_lifecycle r Selected st) = rest'"
        unfolding selected_waiting by (auto simp: filter_id_conv)
      with gone 2 have "lane_of (set_lifecycle r Selected st) e = (gone @ [r]) @ queued_actions (Some e) (set_lifecycle r Selected st)"
        by (simp add: store_simps)
      then show ?thesis by blast
    qed
  qed
  moreover have "sorted_wrt (\<lambda>x y. key y \<le> key x) rest"
    using assms unfolding in_service_def by simp
  ultimately show "in_service key (set_lifecycle r Selected st)"
    using assms(1) w unfolding in_service_def by (simp add: service_key_def store_simps)
qed

text \<open>The store hands its actions out by lane, then by priority, then by arrival.\<close>

interpretation service: stable_queue "queued_actions None" key admit serve "in_service key"
  for key :: "action_ref \<Rightarrow> delivery_policy \<times> action_priority"
proof
  fix st st' :: "('x, 'c) action_store" and r
  assume v: "in_service key st"
  show "admit r st = Some st' \<Longrightarrow> queued_actions None st' =
      filter (\<lambda>y. key r \<le> key y) (queued_actions None st) @ r # filter (\<lambda>y. key y < key r) (queued_actions None st)"
    using admit_all_waiting [OF v] by (simp add: admit_Some)
  show "admit r st = Some st' \<Longrightarrow> in_service key st'"
    using admit_in_service [OF v] by (simp add: admit_Some)
  show "serve st = Some (r, st') \<Longrightarrow> queued_actions None st = r # queued_actions None st'"
    using selected_in_service(1) [OF v] by (auto simp: serve_def select_first_cases split: list.splits)
  show "serve st = Some (r, st') \<Longrightarrow> in_service key st'"
    using selected_in_service(2) [OF v] by (auto simp: serve_def select_first_cases split: list.splits)
  show "serve st = None \<Longrightarrow> queued_actions None st = []"
    by (auto simp: serve_def select_first_cases split: list.splits)
  show "sorted_wrt (\<lambda>x y. key y \<le> key x) (queued_actions None st)"
    using v unfolding in_service_def by blast
qed

end
