(* ===== verification/ActionStoreProps.thy ===== *)
theory ActionStoreProps
  imports ActionQueue
begin

text \<open>
  What the store of pending work guarantees: its invariant, the order of service, and that a finished
  action is never started again.
\<close>

section \<open>The invariant\<close>

lemma store_run_wf: "store_run st st' \<Longrightarrow> store_wf st \<Longrightarrow> store_wf st'"
  by (induction rule: rtranclp_induct) (auto intro: store_step_wf)

lemma lane_of_empty [simp]: "lane_of (empty_store objs) d = []"
  by (cases d) (simp_all add: empty_store_def)

lemma empty_store_wf [simp]: "store_wf (empty_store objs)"
  unfolding store_wf_def set_owned_actions by simp (simp add: empty_store_def)

text \<open>
  In every store that the operations can reach, the invariant holds: no action is owned twice, each owned
  action stands in the lane of its delivery policy, and each has a ticket.
\<close>

theorem store_keeps_its_invariant:
  assumes "store_run (empty_store objs) st"
  shows "store_wf st \<and> distinct (owned_actions st) \<and> (\<forall>r\<in>set (owned_actions st). \<exists>t. ticket_for r st = Inr t)"
proof -
  have w: "store_wf st" by (rule store_run_wf [OF assms empty_store_wf])
  moreover have "\<exists>t. ticket_for r st = Inr t" if "r \<in> set (owned_actions st)" for r
    using store_wf_ticket [OF w that] by (auto simp: ticket_for_def Let_def)
  ultimately show ?thesis using store_wf_distinct by blast
qed

section \<open>Finished actions\<close>

definition finished :: "('x, 'c) action_store \<Rightarrow> action_ref \<Rightarrow> bool" where
  "finished st r \<longleftrightarrow> object_state st r \<in> set terminal_states"

lemma finished_no_transition: "finished st r \<longleftrightarrow> legal_transitions (object_state st r) = []"
  unfolding finished_def terminal_states_def by (cases "object_state st r") simp_all

lemma transition_keeps_finished:
  "transition_session_action q l p st = Inr st' \<Longrightarrow> finished st r \<Longrightarrow>
    sa_lifecycle (st_objects st' r) = sa_lifecycle (st_objects st r)"
  using transition_ok [of q l p st st'] by (auto simp: store_simps finished_no_transition)

lemma finished_cong: "sa_lifecycle (st_objects st' r) = sa_lifecycle (st_objects st r) \<Longrightarrow> finished st' r = finished st r"
  by (simp add: finished_def object_state_def action_state_def)

lemma lifecycle_run_keeps_finished:
  "lifecycle_run st st' \<Longrightarrow> finished st r \<Longrightarrow> sa_lifecycle (st_objects st' r) = sa_lifecycle (st_objects st r)"
proof (induction rule: rtranclp_induct)
  case (step y z)
  then show ?case
    using finished_cong [of y r st] by (auto elim!: lifecycle_step.cases dest!: transition_keeps_finished)
qed simp

lemma store_step_keeps_finished:
  assumes "store_step st st'" "finished st r"
  shows "sa_lifecycle (st_objects st' r) = sa_lifecycle (st_objects st r)"
  using assms
proof (induction rule: store_step.induct)
  case (swapped l q st st')
  then show ?case using swap_queued_eq [OF swapped.hyps] by (auto simp: store_simps)
next
  case (released q st st')
  then show ?case by (auto simp: release_terminal_def Let_def store_simps split: if_splits)
qed (auto simp: enqueue_fields move_queued_fields store_simps
      dest: lifecycle_run_keeps_finished select_first_run remove_actions_run transition_keeps_finished)

lemma store_run_keeps_finished:
  "store_run st st' \<Longrightarrow> finished st r \<Longrightarrow> sa_lifecycle (st_objects st' r) = sa_lifecycle (st_objects st r)"
proof (induction rule: rtranclp_induct)
  case (step y z)
  then show ?case
    using finished_cong [of y r st] store_step_keeps_finished [OF step.hyps(2)] by simp
qed simp

text \<open>
  C18. An action that completed, failed or was cancelled keeps its state whatever the store does next: it is
  never selected, cannot be enqueued, and no transition of it is legal.
\<close>

theorem finished_actions_never_run_again:
  assumes "store_run st st'" "object_state st r \<in> set terminal_states"
  shows "sa_lifecycle (st_objects st' r) = sa_lifecycle (st_objects st r)
    \<and> fst (select_first st') \<noteq> Some r
    \<and> (\<forall>placement. \<exists>e. enqueue r placement st' = Inl e)
    \<and> (\<forall>l p. \<exists>e. transition_session_action r l p st' = Inl e)"
proof -
  have f: "finished st r" using assms(2) by (simp add: finished_def)
  note k = store_run_keeps_finished [OF assms(1) f]
  with f have f': "finished st' r" using finished_cong by blast
  then have q: "\<not> is_queued st' r" and "legal_transitions (object_state st' r) = []"
    by (auto simp: finished_no_transition)
  then have "\<forall>l p. \<exists>e. transition_session_action r l p st' = Inl e"
    by (simp add: transition_session_action_def Let_def)
  moreover have "\<forall>placement. \<exists>e. enqueue r placement st' = Inl e"
    using q by (simp add: enqueue_def Let_def object_state_def)
  moreover have "fst (select_first st') \<noteq> Some r"
    using q by (auto simp: select_first_eq find_Some_iff split: option.splits)
  ultimately show ?thesis using k by blast
qed

section \<open>Rollback\<close>

text \<open>
  A turn goes back to the queue before it is dispatched, or after a dispatch that has settled and left
  none of its primary messages in the transcript: no message is delivered twice.
\<close>

theorem rollback_never_repeats_a_delivery:
  "(\<exists>st'. rollback_action r p st = Inr st') \<longleftrightarrow>
     object_state st r \<in> {SSelected, SPreparing}
     \<or> object_state st r = SCommitting
       \<and> (\<exists>proof_of. p = Some proof_of \<and> rp_settled proof_of
            \<and> set (map dr_message (primary_records (st_objects st r))) \<inter> set (rp_transcript proof_of) = {})"
  by (cases "object_state st r")
    (auto simp: rollback_action_def transition_session_action_def Let_def list_ex_iff split: option.splits)

section \<open>Cancellation\<close>

lemma cancel_all_clearable:
  assumes "distinct rs" "\<forall>r\<in>set rs. is_clearable (st_objects st r)"
  shows "cancel_all rs st = (None, fold (\<lambda>r. set_lifecycle r Cancelled) rs st)"
  using assms
proof (induction rs arbitrary: st)
  case (Cons r rs)
  have "transition_session_action r Cancelled None st = Inr (set_lifecycle r Cancelled st)"
    using Cons.prems(2)
    by (cases "object_state st r") (auto simp: transition_session_action_def Let_def is_clearable_def
        clearable_states_def object_state_def)
  moreover have "is_clearable (st_objects (set_lifecycle r Cancelled st) q)" if "q \<in> set rs" for q
    using Cons.prems that by (auto simp: is_clearable_def action_state_def store_simps)
  ultimately show ?case using Cons by simp
qed simp

lemma fold_cancelled:
  "sa_lifecycle (st_objects (fold (\<lambda>r. set_lifecycle r Cancelled) rs st) q) =
    (if q \<in> set rs then Cancelled else sa_lifecycle (st_objects st q))"
  by (induction rs arbitrary: st) (auto simp: store_simps)

text \<open>
  A cancellation among the clearable actions throws nothing, cancels exactly those that match, and leaves
  the ones that are dispatched or finished as they are.
\<close>

theorem cancellation_spares_dispatched_work:
  assumes "store_wf st" and gone_def: "gone = filter P (clearable_actions None st)"
  shows "\<exists>st'. remove_actions P (clearable_actions None st) st = (Inr gone, st')
    \<and> (\<forall>r. sa_lifecycle (st_objects st' r) = (if r \<in> set gone then Cancelled else sa_lifecycle (st_objects st r)))
    \<and> (\<forall>r\<in>set gone. object_state st r \<notin> {SCommitting, SRunning, SCompleted, SFailed, SCancelled})"
proof -
  have g: "distinct gone" "\<forall>r\<in>set gone. is_clearable (st_objects st r)"
    using store_wf_distinct [OF assms(1)] by (auto simp: gone_def clearable_actions_def)
  then show ?thesis
    using fold_cancelled [of gone st] cancel_all_clearable [OF g]
    by (auto simp: remove_actions_def Let_def gone_def is_clearable_def clearable_states_def object_state_def)
qed

section \<open>The order of service\<close>

fun admit_all :: "action_ref list \<Rightarrow> ('x, 'c) action_store \<Rightarrow> ('x, 'c) action_store option" where
  "admit_all [] st = Some st"
| "admit_all (r # rs) st = (case admit r st of None \<Rightarrow> None | Some st' \<Rightarrow> admit_all rs st')"

lemma empty_in_service: "in_service (\<lambda>r. service_key (objs r)) (empty_store objs)"
  unfolding in_service_def queued_actions_lanes queued_actions_lane by simp (simp add: empty_store_def)

lemma admit_all_history:
  assumes "admit_all rs st = Some st'" "service.history st0 ps [] st"
  shows "service.history st0 (ps @ rs) [] st'"
  using assms
proof (induction rs arbitrary: st ps)
  case (Cons r rs)
  then obtain st1 where st1: "admit r st = Some st1" "admit_all rs st1 = Some st'"
    by (auto split: option.splits)
  from Cons.IH [OF st1(2) service.given [OF Cons.prems(2) st1(1)]] show ?case by simp
qed simp

lemma admit_all_defined:
  assumes "\<forall>r\<in>set rs. is_queued st r" "distinct (map (\<lambda>r. sa_id (st_objects st r)) rs)"
    "\<forall>r\<in>set rs. st_tickets st (sa_id (st_objects st r)) = None"
  shows "\<exists>st'. admit_all rs st = Some st'"
  using assms
proof (induction rs arbitrary: st)
  case (Cons r rs)
  then obtain st1 where st1: "enqueue r PlacePriority st = Inr st1"
    by (auto simp: enqueue_def Let_def object_state_def)
  note f = enqueue_fields(1,2) [OF st1]
  have "\<exists>st'. admit_all rs st1 = Some st'"
    using Cons.prems by (intro Cons.IH) (auto simp: f object_state_def image_iff)
  with st1 show ?case by (simp add: admit_def)
qed simp

text \<open>
  C12. Inserting action by action is a stable sort: whatever is admitted to an empty store waits in the order of
  lane, then priority, then arrival.
\<close>

theorem admissions_are_served_by_priority_then_arrival:
  assumes "\<forall>r\<in>set rs. action_state (objs r) = SQueued" "distinct (map (\<lambda>r. sa_id (objs r)) rs)"
  shows "\<exists>st. admit_all rs (empty_store objs) = Some st
    \<and> queued_actions None st = rev (sort_key (\<lambda>r. service_key (objs r)) (rev rs))"
proof -
  obtain st where st: "admit_all rs (empty_store objs) = Some st"
    using admit_all_defined [of rs "empty_store objs"] assms by (auto simp: empty_store_def object_state_def)
  have "queued_actions None (empty_store objs) = []"
    by (simp add: queued_actions_def store_actions_def empty_store_def)
  with service.puts_sort [OF admit_all_history [OF st service.untouched] empty_in_service] st
  show ?thesis by simp
qed


section \<open>Moves\<close>

lemma filter_take_first_index:
  assumes "distinct xs" "i < length (filter P xs)" "first_index ((=) (filter P xs ! i)) xs = Some k"
  shows "filter P (take k xs) = take i (filter P xs) \<and> filter P (drop k xs) = drop i (filter P xs)"
  using assms
proof (induction xs arbitrary: i k)
  case (Cons x xs)
  show ?case
  proof (cases "P x")
    case True
    show ?thesis
    proof (cases i)
      case 0
      with True Cons.prems show ?thesis by auto
    next
      case (Suc j)
      with True Cons.prems(2) have "filter P xs ! j \<in> set xs"
        by (metis filter_is_subset length_Cons filter.simps(2) Suc_less_eq nth_mem subsetD)
      with True Suc Cons.prems Cons.IH [of j] show ?thesis by (auto split: if_splits)
    qed
  next
    case False
    with Cons.prems(2) have "filter P xs ! i \<in> set xs" "P (filter P xs ! i)"
      using nth_mem [of i "filter P xs"] by auto
    with False Cons.prems Cons.IH [of i] show ?thesis by (auto split: if_splits)
  qed
qed simp

lemma filter_insert_first_index:
  assumes "distinct xs" "P r"
  shows "filter P (insert_at (if i < length (filter P xs)
      then (case first_index ((=) (filter P xs ! i)) xs of Some k \<Rightarrow> k | None \<Rightarrow> length xs) else length xs) r xs)
    = insert_at i r (filter P xs)"
proof (cases "i < length (filter P xs)")
  case True
  then have "filter P xs ! i \<in> set xs" using nth_mem [of i "filter P xs"] by auto
  then obtain k where k: "first_index ((=) (filter P xs ! i)) xs = Some k"
    by (metis (full_types) first_index_None option.exhaust)
  show ?thesis
    using filter_take_first_index [OF assms(1) True k] True assms(2) k by (simp add: insert_at_def)
qed (use assms(2) in \<open>simp add: insert_at_def\<close>)

text \<open>
  A queued action that is moved leaves its lane and stands in the target lane at the position asked for,
  kept within the lane; nothing else moves.
\<close>

theorem moved_action_lands_where_asked:
  assumes "store_wf st" "r \<in> set (owned_actions st)" "object_state st r = SQueued"
  shows "\<exists>st'. move_queued r d k st = Inr st'
    \<and> (\<forall>e. queued_actions (Some e) st' =
        (let others = filter (\<lambda>q. q \<noteq> r) (queued_actions (Some e) st)
         in if e = d then insert_at (nat (max 0 (min k (int (length others))))) r others else others))"
proof -
  let ?f = "sa_delivery (st_objects st r)"
  define st1 where "st1 = set_lane ?f (remove1 r (lane_of st ?f)) st"
  define st2 where "st2 = update_object r (sa_delivery_update (\<lambda>_. d)) st1"
  define target where "target = lane_of st2 d"
  define pos where "pos = (let queued = filter (is_queued st2) target;
              i = nat (max 0 (min k (int (length queued)))) in
     (if i < length queued
                    then (case first_index ((=) (queued ! i)) target of Some k \<Rightarrow> k | None \<Rightarrow> length target)
                    else length target))"
  have r: "r \<in> set (lane_of st ?f)"
    using assms(2) store_wfD(2) [OF assms(1)] by (auto simp: set_owned_actions)
  then obtain y where y: "first_index ((=) r) (lane_of st ?f) = Some y"
    by (metis (full_types) first_index_None option.exhaust)
  have m: "move_queued r d k st = Inr (set_lane d (insert_at pos r target) st2)"
    using assms(3) y
    unfolding move_queued_def Let_def object_state_def pos_def target_def st2_def st1_def by simp
  have q: "is_queued st2 = is_queued st"
    by (auto simp: fun_eq_iff st2_def st1_def update_object_def object_state_def action_state_def store_simps)
  have l: "lane_of st2 e = filter (\<lambda>q. q \<noteq> r) (lane_of st e)" for e
  proof (cases "e = ?f")
    case True
    then show ?thesis
      by (simp add: st2_def st1_def store_simps distinct_remove1_removeAll [OF store_wfD(1) [OF assms(1)]]
          removeAll_filter_not_eq eq_commute [of r])
  next
    case False
    then have "r \<notin> set (lane_of st e)" using store_wfD(2) [OF assms(1), of r e] by blast
    then have "filter (\<lambda>q. q \<noteq> r) (lane_of st e) = lane_of st e" by (auto simp: filter_id_conv)
    with False show ?thesis by (simp add: st2_def st1_def store_simps)
  qed
  have "distinct target" by (simp add: target_def l store_wfD(1) [OF assms(1)])
  from filter_insert_first_index [OF this, of "is_queued st" r] assms(3)
  have "filter (is_queued st) (insert_at pos r target)
      = insert_at (nat (max 0 (min k (int (length (filter (is_queued st) target)))))) r (filter (is_queued st) target)"
    by (simp add: pos_def Let_def q)
  moreover have "filter (is_queued st) (lane_of st2 e) = filter (\<lambda>q. q \<noteq> r) (queued_actions (Some e) st)" for e
    by (simp add: l queued_actions_lane conj_commute)
  ultimately show ?thesis
    unfolding m queued_actions_lane using q
    by (auto simp: Let_def store_simps target_def)
qed

section \<open>Witnesses\<close>

text \<open>Four pending turns: 0 and 2 for the next turn boundary, 1 and 3 for an idle session.\<close>

definition sample_objects :: "action_ref \<Rightarrow> (unit, unit) session_action" where
  "sample_objects r =
     \<lparr>sa_id = [of_nat r], sa_source = js ''interactive'',
      sa_delivery = (if r = 0 \<or> r = 2 then NextTurnBoundary else WhenRunIdle),
      sa_priority = (if r = 2 \<or> r = 3 then UserPriority else BackgroundPriority),
      sa_wake = WakeImmediate, sa_payload = CommandPayload () [], sa_lifecycle = Queued,
      sa_queue_key = None, sa_agent_message_id = None, sa_suppress_continuation = False\<rparr>"

definition sample_store :: "(unit, unit) action_store" where
  "sample_store = the (admit_all [0, 1, 2] (empty_store sample_objects))"

lemma sample_store_eq:
  "admit_all [0, 1, 2] (empty_store sample_objects) = Some sample_store"
  "st_boundary sample_store = [2, 0]" "st_idle sample_store = [1]" "st_objects sample_store = sample_objects"
  by (simp_all add: sample_store_def admit_def enqueue_def Let_def empty_store_def sample_objects_def
      action_state_def insertion_index_def insert_at_def numeral_2_eq_2 object_state_def del: js_Cons)

lemma admit_all_run: "admit_all rs st = Some st' \<Longrightarrow> store_run st st'"
  by (induction rs arbitrary: st)
    (auto simp: admit_def split: option.splits sum.splits intro: converse_rtranclp_into_rtranclp store_step.enqueued)

lemma sample_run: "store_run (empty_store sample_objects) sample_store"
  by (rule admit_all_run [OF sample_store_eq(1)])

lemma sample_wf: "store_wf sample_store"
  by (rule store_run_wf [OF sample_run empty_store_wf])

lemma sample_owned: "owned_actions sample_store = [2, 0, 1]"
  by (simp add: store_actions_def sample_store_eq)

lemma sample_queued: "object_state sample_store r = SQueued"
  by (simp add: object_state_def action_state_def sample_store_eq sample_objects_def)

lemma sample_waiting: "queued_actions (Some NextTurnBoundary) sample_store = [2, 0]" "queued_actions (Some WhenRunIdle) sample_store = [1]"
  by (simp_all add: queued_actions_lane sample_store_eq sample_queued)

theorem store_keeps_its_invariant_witness:
  "store_run (empty_store sample_objects) sample_store \<and> owned_actions sample_store = [2, 0, 1]
    \<and> store_wf sample_store"
  using store_keeps_its_invariant [OF sample_run] sample_run sample_owned by blast

theorem finished_actions_never_run_again_witness:
  "\<exists>st'. release_terminal 2 (set_lifecycle 2 Cancelled sample_store) = Inr st'
    \<and> owned_actions st' = [0, 1] \<and> sa_lifecycle (st_objects st' 2) = Cancelled
    \<and> (\<exists>e. enqueue 2 PlaceFront st' = Inl e)"
proof -
  let ?st = "set_lifecycle 2 Cancelled sample_store"
  obtain st' where st': "release_terminal 2 ?st = Inr st'" "owned_actions st' = [0, 1]"
    by (simp add: release_terminal_def Let_def action_state_def store_simps terminal_states_def
        store_actions_def sample_store_eq sample_objects_def)
  have "2 \<in> set (owned_actions ?st)"
    by (simp add: store_actions_def store_simps sample_store_eq)
  then have "store_run ?st st'"
    using store_step.released [OF st'(1)] by blast
  moreover have "object_state ?st 2 \<in> set terminal_states"
    by (simp add: store_simps terminal_states_def)
  ultimately show ?thesis
    using finished_actions_never_run_again [of ?st st' 2] st' by (simp add: store_simps)
qed

theorem cancellation_spares_dispatched_work_witness:
  "\<exists>st'. remove_actions (\<lambda>_. True) (clearable_actions None (set_lifecycle 0 Committing sample_store))
      (set_lifecycle 0 Committing sample_store) = (Inr [2, 1], st')
    \<and> sa_lifecycle (st_objects st' 0) = Committing \<and> sa_lifecycle (st_objects st' 1) = Cancelled"
proof -
  let ?st = "set_lifecycle 0 Committing sample_store"
  have "[2, 1] = filter (\<lambda>_. True) (clearable_actions None ?st)"
    by (simp add: clearable_actions_def store_actions_def store_simps is_clearable_def action_state_def
        clearable_states_def sample_store_eq sample_objects_def)
  from cancellation_spares_dispatched_work [OF set_lifecycle_wf [THEN iffD2, OF sample_wf] this]
  show ?thesis by (auto simp: store_simps)
qed

theorem admissions_are_served_by_priority_then_arrival_witness:
  "\<exists>st. admit_all [0, 1, 2, 3] (empty_store sample_objects) = Some st \<and> queued_actions None st = [2, 0, 3, 1]"
proof -
  have "rev (sort_key (\<lambda>r. service_key (sample_objects r)) (rev [0, 1, 2, 3])) = [2, 0, 3, 1]"
    by (simp add: service_key_def sample_objects_def less_eq_action_priority_def less_eq_delivery_policy_def
        less_delivery_policy_def)
  with admissions_are_served_by_priority_then_arrival [of "[0, 1, 2, 3]" sample_objects] show ?thesis
    by (simp add: sample_objects_def action_state_def)
qed


theorem moved_action_lands_where_asked_witness:
  "\<exists>st'. move_queued 1 NextTurnBoundary 1 sample_store = Inr st'
    \<and> queued_actions (Some NextTurnBoundary) st' = [2, 1, 0] \<and> queued_actions (Some WhenRunIdle) st' = []"
proof -
  have "(1 :: action_ref) \<in> set (owned_actions sample_store)" by (simp add: sample_owned)
  from moved_action_lands_where_asked [OF sample_wf this sample_queued, of NextTurnBoundary 1]
  obtain st' where m: "move_queued 1 NextTurnBoundary 1 sample_store = Inr st'"
    and q: "\<And>e. queued_actions (Some e) st' =
        (let others = filter (\<lambda>q. q \<noteq> 1) (queued_actions (Some e) sample_store)
         in if e = NextTurnBoundary then insert_at (nat (max 0 (min 1 (int (length others))))) 1 others else others)"
    by blast
  from q [of NextTurnBoundary] q [of WhenRunIdle] m show ?thesis
    by (simp add: sample_waiting insert_at_def)
qed

end
