(* ===== verification/SlashCommands.thy ===== *)
theory SlashCommands
  imports JsValues
begin

text \<open>
  The text of a prompt before it becomes work: slash commands (coding-agent/src/core/slash-commands.ts),
  the suggestion for a mistyped one, and prompt templates with their arguments
  (coding-agent/src/core/prompt-templates.ts). The files a template is read from are not modelled: a
  template is its name and its content.
\<close>

section \<open>Parsing a command\<close>

record parsed_command =
  pc_name :: jstring
  pc_args :: jstring

definition parse_slash_command :: "jstring \<Rightarrow> parsed_command option" where
  "parse_slash_command text =
     (if text = [] \<or> hd text \<noteq> 47 then None
      else let name = takeWhile (\<lambda>u. \<not> js_space u) (tl text);
               rest = dropWhile (\<lambda>u. \<not> js_space u) (tl text)
           in if name = [] then None else Some \<lparr>pc_name = name, pc_args = js_trim rest\<rparr>)"

text \<open>The aliases of the built-in commands, and the built-in commands a session runs itself.\<close>

definition builtin_aliases :: "(jstring \<times> jstring) list" where
  "builtin_aliases =
     [(js ''clear'', js ''new''), (js ''usage'', js ''context''), (js ''thinking'', js ''effort''),
      (js ''rename'', js ''name''), (js ''side'', js ''btw'')]"

definition session_slash_command_names :: "jstring list" where
  "session_slash_command_names = [js ''compact'', js ''refine'', js ''goal'', js ''autonomous'']"

definition resolve_builtin_name :: "jstring \<Rightarrow> jstring" where
  "resolve_builtin_name name = (case map_of builtin_aliases name of Some t \<Rightarrow> t | None \<Rightarrow> name)"

record session_slash_command =
  sc_name :: jstring
  sc_args :: jstring
  sc_text :: jstring

definition parse_session_slash_command :: "jstring \<Rightarrow> session_slash_command option" where
  "parse_session_slash_command text =
     (if list_ex (\<lambda>u. u \<in> {13, 10, 0x2028, 0x2029}) text then None
      else case parse_slash_command text of
        None \<Rightarrow> None
      | Some p \<Rightarrow>
          let name = resolve_builtin_name (pc_name p) in
          if name \<in> set session_slash_command_names
          then Some \<lparr>sc_name = name, sc_args = pc_args p, sc_text = text\<rparr> else None)"

section \<open>The nearest command\<close>

text \<open>One row of the distance table: \<open>c\<close> is the cell before, \<open>ps\<close> the row before from the same column.\<close>

fun edit_cells :: "'a \<Rightarrow> 'a list \<Rightarrow> nat list \<Rightarrow> nat \<Rightarrow> nat list" where
  "edit_cells a (b # bs) (p # q # ps) c =
     (let v = min (min (q + 1) (c + 1)) (p + (if a = b then 0 else 1)) in v # edit_cells a bs (q # ps) v)"
| "edit_cells a bs ps c = []"

fun edit_rows :: "'a list \<Rightarrow> 'a list \<Rightarrow> nat \<Rightarrow> nat list \<Rightarrow> nat list" where
  "edit_rows [] right i previous = previous"
| "edit_rows (a # left) right i previous = edit_rows left right (i + 1) (i # edit_cells a right previous i)"

definition edit_distance :: "'a list \<Rightarrow> 'a list \<Rightarrow> nat" where
  "edit_distance left right = edit_rows left right 1 [0..<length right + 1] ! length right"

text \<open>The loop over the candidates: the first one at the least distance.\<close>

fun closest_candidate :: "'a list \<Rightarrow> 'a list list \<Rightarrow> ('a list \<times> nat) option \<Rightarrow> ('a list \<times> nat) option" where
  "closest_candidate input [] closest = closest"
| "closest_candidate input (c # cs) closest =
     (let d = edit_distance input c in
      closest_candidate input cs
        (case closest of None \<Rightarrow> Some (c, d) | Some (b, e) \<Rightarrow> if d < e then Some (c, d) else Some (b, e)))"

definition suggestion_threshold :: "'a list \<Rightarrow> nat" where
  "suggestion_threshold input = (if length input \<le> 3 then 1 else max 2 (length input div 3))"

definition find_slash_command_suggestion :: "'a list \<Rightarrow> 'a list list \<Rightarrow> 'a list option" where
  "find_slash_command_suggestion input candidates =
     (case closest_candidate input candidates None of
        None \<Rightarrow> None
      | Some (c, d) \<Rightarrow> if suggestion_threshold input < d then None else Some c)"

section \<open>Arguments\<close>

text \<open>A tab or a code unit of the category Zs.\<close>

definition arg_space :: "code_unit \<Rightarrow> bool" where
  "arg_space u \<longleftrightarrow> u \<in> {9, 0x20, 0xA0, 0x1680, 0x202F, 0x205F, 0x3000} \<or> 0x2000 \<le> u \<and> u \<le> 0x200A"

abbreviation is_quote :: "code_unit \<Rightarrow> bool" where
  "is_quote u \<equiv> u = 34 \<or> u = 39"

fun args_loop :: "jstring \<Rightarrow> jstring \<Rightarrow> code_unit option \<Rightarrow> bool \<Rightarrow> jstring list" where
  "args_loop [] current in_quote quoted = (if current \<noteq> [] \<or> quoted then [current] else [])"
| "args_loop (c # s) current (Some q) quoted =
     (if c = q then args_loop s current None quoted else args_loop s (current @ [c]) (Some q) quoted)"
| "args_loop (c # s) current None quoted =
     (if is_quote c then args_loop s current (Some c) True
      else if arg_space c then
        (if current \<noteq> [] \<or> quoted then current # args_loop s [] None False else args_loop s current None quoted)
      else args_loop s (current @ [c]) None quoted)"

definition parse_command_args :: "jstring \<Rightarrow> jstring list" where
  "parse_command_args s = args_loop s [] None False"

section \<open>Placeholders\<close>

datatype placeholder = Positional nat | Slice nat "nat option" | AllArguments

text \<open>What the expression matches after a dollar sign, and the text behind the match.\<close>

definition read_number :: "jstring \<Rightarrow> (nat \<times> jstring) option" where
  "read_number s =
     (let ds = takeWhile is_digit s in
      if ds = [] then None else Some (digits_value ds, dropWhile is_digit s))"

definition strip_text :: "jstring \<Rightarrow> jstring \<Rightarrow> jstring option" where
  "strip_text p s = (if take (length p) s = p then Some (drop (length p) s) else None)"

definition match_slice :: "jstring \<Rightarrow> (placeholder \<times> jstring) option" where
  "match_slice s =
     (case strip_text (js ''{@:'') s of
        None \<Rightarrow> None
      | Some s1 \<Rightarrow>
          (case read_number s1 of
             None \<Rightarrow> None
           | Some (n, s2) \<Rightarrow>
               (case s2 of
                  [] \<Rightarrow> None
                | c # s3 \<Rightarrow>
                    if c = 125 then Some (Slice n None, s3)
                    else if c = 58 then
                      (case read_number s3 of
                         Some (l, d # s4) \<Rightarrow> if d = 125 then Some (Slice n (Some l), s4) else None
                       | _ \<Rightarrow> None)
                    else None)))"

definition match_placeholder :: "jstring \<Rightarrow> (placeholder \<times> jstring) option" where
  "match_placeholder s =
     (case read_number s of
        Some (n, rest) \<Rightarrow> Some (Positional n, rest)
      | None \<Rightarrow>
          (case match_slice s of
             Some m \<Rightarrow> Some m
           | None \<Rightarrow>
               (case strip_text (js ''ARGUMENTS'') s of
                  Some rest \<Rightarrow> Some (AllArguments, rest)
                | None \<Rightarrow> map_option (Pair AllArguments) (strip_text (js ''@'') s))))"

definition placeholder_value :: "jstring list \<Rightarrow> placeholder \<Rightarrow> jstring" where
  "placeholder_value args p =
     (case p of
        Positional n \<Rightarrow> if n = 0 \<or> length args < n then [] else args ! (n - 1)
      | Slice n l \<Rightarrow>
          join_with (js '' '')
            (case l of None \<Rightarrow> drop (n - 1) args | Some len \<Rightarrow> take len (drop (n - 1) args))
      | AllArguments \<Rightarrow> join_with (js '' '') args)"

lemma read_number_shorter: "read_number s = Some (n, rest) \<Longrightarrow> length rest \<le> length s"
  using length_dropWhile_le by (auto simp: read_number_def Let_def split: if_splits)

lemma strip_text_shorter: "strip_text p s = Some rest \<Longrightarrow> length rest \<le> length s"
  by (auto simp: strip_text_def split: if_splits)

lemma match_slice_shorter: "match_slice s = Some (p, rest) \<Longrightarrow> length rest \<le> length s"
  unfolding match_slice_def
  by (auto dest!: read_number_shorter strip_text_shorter split: option.splits list.splits prod.splits if_splits)

lemma match_placeholder_shorter: "match_placeholder s = Some (p, rest) \<Longrightarrow> length rest < Suc (length s)"
  unfolding match_placeholder_def
  by (auto dest!: read_number_shorter strip_text_shorter match_slice_shorter simp: less_Suc_eq_le
      split: option.splits)

function substitute_args :: "jstring list \<Rightarrow> jstring \<Rightarrow> jstring" where
  "substitute_args args [] = []"
| "substitute_args args (c # s) =
     (if c = 36 then
        (case match_placeholder s of
           Some (p, rest) \<Rightarrow> placeholder_value args p @ substitute_args args rest
         | None \<Rightarrow> c # substitute_args args s)
      else c # substitute_args args s)"
  by pat_completeness auto

termination
  by (relation "measure (\<lambda>(args, s). length s)") (auto dest: match_placeholder_shorter)

definition expand_prompt_template :: "jstring \<Rightarrow> (jstring \<times> jstring) list \<Rightarrow> jstring" where
  "expand_prompt_template text templates =
     (case parse_slash_command text of
        None \<Rightarrow> text
      | Some p \<Rightarrow>
          (case map_of templates (pc_name p) of
             Some content \<Rightarrow> substitute_args (parse_command_args (pc_args p)) content
           | None \<Rightarrow> text))"

section \<open>Arguments survive quoting\<close>

text \<open>An argument without one of the quotation marks, in that mark.\<close>

definition quote_arg :: "jstring \<Rightarrow> jstring" where
  "quote_arg a = (let q = (if 34 \<in> set a then 39 else 34) in q # a @ [q])"

lemma args_loop_quoted:
  "q \<notin> set a \<Longrightarrow> args_loop (a @ q # s) current (Some q) quoted = args_loop s (current @ a) None quoted"
  by (induction a arbitrary: current) auto

lemma args_loop_quote_arg:
  assumes "\<not> (34 \<in> set a \<and> 39 \<in> set a)"
  shows "args_loop (quote_arg a @ s) [] None False = args_loop s a None True"
  using assms args_loop_quoted [of _ a s "[]" True] by (auto simp: quote_arg_def Let_def)

text \<open>
  C20. Arguments that do not mix both kinds of quotes, quoted and joined by blanks, are parsed back as they were.
\<close>

theorem quoted_arguments_parse_back:
  assumes "\<forall>a\<in>set args. \<not> (34 \<in> set a \<and> 39 \<in> set a)"
  shows "parse_command_args (join_with (js '' '') (map quote_arg args)) = args"
  using assms
proof (induction args)
  case (Cons a args)
  show ?case
  proof (cases args)
    case Nil
    with Cons.prems args_loop_quote_arg [of a "[]"] show ?thesis by (simp add: parse_command_args_def)
  next
    case (Cons b bs)
    from Cons.prems have a: "\<not> (34 \<in> set a \<and> 39 \<in> set a)" by simp
    have "parse_command_args (quote_arg a @ 32 # join_with (js '' '') (map quote_arg args))
        = a # parse_command_args (join_with (js '' '') (map quote_arg args))"
      unfolding parse_command_args_def args_loop_quote_arg [OF a] by (simp add: arg_space_def)
    with Cons.IH Cons.prems Cons show ?thesis by simp
  qed
qed (simp add: parse_command_args_def)

theorem quoted_arguments_parse_back_witness:
  "parse_command_args (quote_arg (js ''two words'') @ 32 # quote_arg [] @ 32 # quote_arg [34])
    = [js ''two words'', [], [34]]"
  using quoted_arguments_parse_back [of "[js ''two words'', [], [34]]"] by simp

section \<open>Templates\<close>

text \<open>A template as it is meant: plain text without a dollar sign, and placeholders.\<close>

datatype segment = Literal jstring | Hole placeholder

fun show_placeholder :: "placeholder \<Rightarrow> jstring" where
  "show_placeholder (Positional n) = 36 # dec_nat n"
| "show_placeholder (Slice n None) = js ''${@:'' @ dec_nat n @ [125]"
| "show_placeholder (Slice n (Some l)) = js ''${@:'' @ dec_nat n @ 58 # dec_nat l @ [125]"
| "show_placeholder AllArguments = js ''$@''"

fun show_segment :: "segment \<Rightarrow> jstring" where
  "show_segment (Literal s) = s"
| "show_segment (Hole p) = show_placeholder p"

fun segment_value :: "jstring list \<Rightarrow> segment \<Rightarrow> jstring" where
  "segment_value args (Literal s) = s"
| "segment_value args (Hole p) = placeholder_value args p"

text \<open>A positional placeholder ends where its digits end.\<close>

definition no_digit_first :: "jstring \<Rightarrow> bool" where
  "no_digit_first s \<longleftrightarrow> s = [] \<or> \<not> is_digit (hd s)"

fun template_ok :: "segment list \<Rightarrow> bool" where
  "template_ok [] = True"
| "template_ok (Literal s # ts) = (36 \<notin> set s \<and> template_ok ts)"
| "template_ok (Hole (Positional n) # ts) = (no_digit_first (concat (map show_segment ts)) \<and> template_ok ts)"
| "template_ok (Hole p # ts) = template_ok ts"

lemma takeWhile_digits:
  assumes "no_digit_first s"
  shows "takeWhile is_digit (dec_nat n @ s) = dec_nat n" "dropWhile is_digit (dec_nat n @ s) = s"
proof -
  have d: "\<And>u. u \<in> set (dec_nat n) \<Longrightarrow> is_digit u"
    using digits_of_dec_nat [of n] by (simp add: list_all_iff)
  have "takeWhile is_digit s = []" "dropWhile is_digit s = s"
    using assms by (cases s; simp add: no_digit_first_def)+
  then show "takeWhile is_digit (dec_nat n @ s) = dec_nat n" "dropWhile is_digit (dec_nat n @ s) = s"
    by (simp_all add: takeWhile_append2 [OF d] dropWhile_append2 [OF d])
qed

lemma read_number_dec_nat: "no_digit_first s \<Longrightarrow> read_number (dec_nat n @ s) = Some (n, s)"
  by (simp add: read_number_def Let_def takeWhile_digits digits_value_dec_nat)

lemma read_number_none: "\<not> is_digit u \<Longrightarrow> read_number (u # s) = None"
  by (simp add: read_number_def)

lemma strip_text_append [simp]: "strip_text p (p @ s) = Some s"
  by (simp add: strip_text_def)

lemma match_show_placeholder:
  assumes "\<And>n. p = Positional n \<Longrightarrow> no_digit_first s"
  shows "\<exists>t. show_placeholder p @ s = 36 # t \<and> match_placeholder t = Some (p, s)"
proof (cases p)
  case (Positional n)
  with assms show ?thesis by (simp add: match_placeholder_def read_number_dec_nat)
next
  case (Slice n l)
  have b: "no_digit_first (125 # t)" "no_digit_first (58 # t)" for t
    by (simp_all add: no_digit_first_def is_digit_def)
  have o: "read_number (123 # t) = None" for t
    by (rule read_number_none) (simp add: is_digit_def)
  have "strip_text (js ''{@:'') (123 # 64 # 58 # t) = Some t" for t
    by (simp add: strip_text_def)
  with Slice show ?thesis
    by (cases l) (simp_all add: match_placeholder_def match_slice_def read_number_dec_nat b o)
next
  case AllArguments
  have "read_number (64 # s) = None" by (rule read_number_none) (simp add: is_digit_def)
  with AllArguments show ?thesis
    by (simp add: match_placeholder_def match_slice_def strip_text_def)
qed

lemma substitute_literal: "36 \<notin> set s \<Longrightarrow> substitute_args args (s @ t) = s @ substitute_args args t"
  by (induction s) auto

text \<open>
  A template is filled hole by hole, its text kept as it is, whatever the arguments contain.
\<close>

theorem templates_fill_their_holes:
  assumes "template_ok ts"
  shows "substitute_args args (concat (map show_segment ts)) = concat (map (segment_value args) ts)"
  using assms
proof (induction ts rule: template_ok.induct [case_names Empty Literal Position Part All])
  case (Literal s ts)
  then show ?case by (simp add: substitute_literal)
next
  case (Position n ts)
  then obtain t where "show_placeholder (Positional n) @ concat (map show_segment ts) = 36 # t"
    "match_placeholder t = Some (Positional n, concat (map show_segment ts))"
    using match_show_placeholder [of "Positional n" "concat (map show_segment ts)"] by auto
  with Position show ?case by simp
next
  case (Part n l ts)
  then obtain t where "show_placeholder (Slice n l) @ concat (map show_segment ts) = 36 # t"
    "match_placeholder t = Some (Slice n l, concat (map show_segment ts))"
    using match_show_placeholder [of "Slice n l" "concat (map show_segment ts)"] by auto
  with Part show ?case by simp
next
  case (All ts)
  then obtain t where "show_placeholder AllArguments @ concat (map show_segment ts) = 36 # t"
    "match_placeholder t = Some (AllArguments, concat (map show_segment ts))"
    using match_show_placeholder [of AllArguments "concat (map show_segment ts)"] by auto
  with All show ?case by simp
qed simp

theorem templates_fill_their_holes_witness:
  "substitute_args [js ''$2'', js ''b''] (js ''fix $1 then $@'') = js ''fix $2 then $2 b''"
proof -
  have "template_ok [Literal (js ''fix ''), Hole (Positional 1), Literal (js '' then ''), Hole AllArguments]"
    by (simp add: no_digit_first_def is_digit_def)
  from templates_fill_their_holes [OF this, of "[js ''$2'', js ''b'']"] show ?thesis
    by (simp add: placeholder_value_def dec_nat.simps)
qed

section \<open>The distance is the least number of edits\<close>

text \<open>Two words built side by side, the cost being the units inserted, deleted or exchanged.\<close>

inductive aligned :: "'a list \<Rightarrow> 'a list \<Rightarrow> nat \<Rightarrow> bool" where
  aligned_Nil: "aligned [] [] 0"
| aligned_delete: "aligned xs ys n \<Longrightarrow> aligned (xs @ [x]) ys (n + 1)"
| aligned_insert: "aligned xs ys n \<Longrightarrow> aligned xs (ys @ [y]) (n + 1)"
| aligned_keep: "aligned xs ys n \<Longrightarrow> aligned (xs @ [x]) (ys @ [x]) n"
| aligned_exchange: "aligned xs ys n \<Longrightarrow> aligned (xs @ [x]) (ys @ [y]) (n + 1)"

text \<open>The recursion of the table, on reversed words.\<close>

fun rev_distance :: "'a list \<Rightarrow> 'a list \<Rightarrow> nat" where
  "rev_distance [] ys = length ys"
| "rev_distance xs [] = length xs"
| "rev_distance (x # xs) (y # ys) =
     min (min (rev_distance xs (y # ys) + 1) (rev_distance (x # xs) ys + 1))
       (rev_distance xs ys + (if x = y then 0 else 1))"

lemma rev_distance_Nil [simp]: "rev_distance xs [] = length xs"
  by (cases xs) simp_all

lemma rev_distance_le:
  "rev_distance (x # xs) ys \<le> rev_distance xs ys + 1"
  "rev_distance xs (y # ys) \<le> rev_distance xs ys + 1"
proof -
  show "rev_distance (x # xs) ys \<le> rev_distance xs ys + 1" by (cases ys) simp_all
  show "rev_distance xs (y # ys) \<le> rev_distance xs ys + 1" by (cases xs) simp_all
qed

lemma aligned_lower: "aligned xs ys n \<Longrightarrow> rev_distance (rev xs) (rev ys) \<le> n"
proof (induction rule: aligned.induct)
  case (aligned_delete xs ys n x)
  then show ?case using rev_distance_le(1) [of x "rev xs" "rev ys"] by simp
next
  case (aligned_insert xs ys n y)
  then show ?case using rev_distance_le(2) [of "rev xs" y "rev ys"] by simp
qed auto

lemma aligned_length: "aligned xs [] (length xs)" "aligned [] xs (length xs)"
proof -
  show "aligned xs [] (length xs)"
    by (induction xs rule: rev_induct) (use aligned_delete in \<open>fastforce intro: aligned_Nil\<close>)+
  show "aligned [] xs (length xs)"
    by (induction xs rule: rev_induct) (use aligned_insert in \<open>fastforce intro: aligned_Nil\<close>)+
qed

lemma aligned_reached: "aligned (rev xs) (rev ys) (rev_distance xs ys)"
proof (induction xs ys rule: rev_distance.induct)
  case (1 ys)
  then show ?case using aligned_length(2) [of "rev ys"] by simp
next
  case (2 x xs)
  then show ?case using aligned_length(1) [of "rev (x # xs)"] by simp
next
  case (3 x xs y ys)
  have "aligned (rev (x # xs)) (rev (y # ys)) (rev_distance xs (y # ys) + 1)"
    using aligned_delete [OF "3.IH"(1), of x] by simp
  moreover have "aligned (rev (x # xs)) (rev (y # ys)) (rev_distance (x # xs) ys + 1)"
    using aligned_insert [OF "3.IH"(2), of y] by simp
  moreover have "aligned (rev (x # xs)) (rev (y # ys)) (rev_distance xs ys + (if x = y then 0 else 1))"
    using aligned_keep [OF "3.IH"(3), of x] aligned_exchange [OF "3.IH"(3), of x y] by (cases "x = y") auto
  ultimately show ?case by (simp add: min_def)
qed

fun distance_row :: "'a list \<Rightarrow> 'a list \<Rightarrow> 'a list \<Rightarrow> nat list" where
  "distance_row done us [] = [rev_distance (rev done) (rev us)]"
| "distance_row done us (b # bs) = rev_distance (rev done) (rev us) # distance_row done (us @ [b]) bs"

lemma distance_row_head: "\<exists>ps. distance_row done us bs = rev_distance (rev done) (rev us) # ps"
  by (cases bs) simp_all

lemma edit_cells_row:
  "rev_distance (rev (done @ [a])) (rev us) #
     edit_cells a bs (distance_row done us bs) (rev_distance (rev (done @ [a])) (rev us)) = distance_row (done @ [a]) us bs"
proof (induction bs arbitrary: us)
  case (Cons b bs)
  obtain ps where q: "distance_row done (us @ [b]) bs = rev_distance (rev done) (rev (us @ [b])) # ps"
    using distance_row_head by blast
  have v: "min (min (rev_distance (rev done) (rev (us @ [b])) + 1) (rev_distance (rev (done @ [a])) (rev us) + 1))
      (rev_distance (rev done) (rev us) + (if a = b then 0 else 1)) = rev_distance (rev (done @ [a])) (rev (us @ [b]))"
    by simp
  have "edit_cells a (b # bs) (distance_row done us (b # bs)) (rev_distance (rev (done @ [a])) (rev us)) =
      rev_distance (rev (done @ [a])) (rev (us @ [b])) # edit_cells a bs (distance_row done (us @ [b]) bs)
        (rev_distance (rev (done @ [a])) (rev (us @ [b])))"
    unfolding distance_row.simps q edit_cells.simps v Let_def ..
  then show ?case
    unfolding Cons [of "us @ [b]"] distance_row.simps by simp
qed simp

lemma edit_rows_row:
  "edit_rows left right (length done + 1) (distance_row done [] right) = distance_row (done @ left) [] right"
proof (induction left arbitrary: "done")
  case (Cons a left)
  have "(length done + 1) # edit_cells a right (distance_row done [] right) (length done + 1) = distance_row (done @ [a]) [] right"
    using edit_cells_row [of "done" a "[]" right] by simp
  with Cons [of "done @ [a]"] show ?case by simp
qed simp

lemma first_row: "distance_row [] us bs = [length us..<length us + length bs + 1]"
  by (induction bs arbitrary: us) (simp_all add: upt_rec)

lemma last_cell: "distance_row done us bs ! length bs = rev_distance (rev done) (rev (us @ bs))"
  by (induction bs arbitrary: us) simp_all

text \<open>
  The row by row computation gives the least number of insertions, deletions and replacements.
\<close>

theorem edit_distance_is_least:
  "aligned left right (edit_distance left right) \<and> (\<forall>n. aligned left right n \<longrightarrow> edit_distance left right \<le> n)"
proof -
  have "edit_distance left right = rev_distance (rev left) (rev right)"
    using edit_rows_row [of left right "[]"] last_cell [of left "[]" right]
    by (simp add: edit_distance_def first_row del: upt_Suc)
  then show ?thesis
    using aligned_reached [of "rev left" "rev right"] aligned_lower by fastforce
qed

text \<open>A suggestion is a candidate within the threshold, and no candidate is nearer.\<close>

lemma closest_candidate_least:
  assumes "closest_candidate input cs closest = Some (c, d)"
    and "\<And>b e. closest = Some (b, e) \<Longrightarrow> e = edit_distance input b"
  shows "d = edit_distance input c \<and> (c \<in> set cs \<or> closest = Some (c, d))
    \<and> (\<forall>x\<in>set cs. d \<le> edit_distance input x) \<and> (\<forall>b e. closest = Some (b, e) \<longrightarrow> d \<le> e)"
  using assms
proof (induction cs arbitrary: closest)
  case (Cons x cs)
  let ?d = "edit_distance input x"
  consider "closest = None \<or> (\<exists>b e. closest = Some (b, e) \<and> ?d < e)" | b e where "closest = Some (b, e)" "e \<le> ?d"
    by (metis linorder_not_le option.exhaust surj_pair)
  then show ?case
  proof cases
    case 1
    then have "closest_candidate input cs (Some (x, ?d)) = Some (c, d)"
      using Cons.prems(1) by (auto simp: Let_def)
    from Cons.IH [OF this] have "d = edit_distance input c" "c \<in> set (x # cs)" "d \<le> ?d"
      "\<forall>x\<in>set cs. d \<le> edit_distance input x" by auto
    with 1 show ?thesis by auto
  next
    case 2
    then have "closest_candidate input cs closest = Some (c, d)"
      using Cons.prems(1) by (simp add: Let_def)
    from Cons.IH [OF this Cons.prems(2)] 2 show ?thesis by auto
  qed
qed auto

theorem suggestions_are_nearest:
  assumes "find_slash_command_suggestion input candidates = Some c"
  shows "c \<in> set candidates \<and> edit_distance input c \<le> suggestion_threshold input
    \<and> (\<forall>x\<in>set candidates. edit_distance input c \<le> edit_distance input x)"
proof -
  obtain d where d: "closest_candidate input candidates None = Some (c, d)" "d \<le> suggestion_threshold input"
    using assms by (auto simp: find_slash_command_suggestion_def split: option.splits if_splits)
  from closest_candidate_least [OF d(1)] d(2) show ?thesis by auto
qed

theorem suggestions_are_nearest_witness:
  "find_slash_command_suggestion (js ''compcat'') [js ''goal'', js ''compact''] = Some (js ''compact'')
    \<and> edit_distance (js ''compcat'') (js ''compact'') \<le> 2"
proof -
  have "find_slash_command_suggestion (js ''compcat'') [js ''goal'', js ''compact''] = Some (js ''compact'')"
    by code_simp
  with suggestions_are_nearest [OF this] show ?thesis by (simp add: suggestion_threshold_def)
qed

end
