(* ===== verification/SessionInput.thy ===== *)
theory SessionInput
  imports ActionStoreProps SlashCommands Messages ProviderRetry
begin

text \<open>
  How a session admits, batches, cancels and reorders its input (the input handlers of
  coding-agent/src/core/agent-session.ts, over the store of \<open>ActionStore\<close>). A handler is one
  synchronous stretch of the code: it takes the state and returns it with its result and with the calls
  it makes outside the store, in order. Messages live in a heap of their own, as the transcript, the
  delivery records and the capture sets share them; identities that \<open>randomUUID\<close> makes are arguments.
\<close>

section \<open>Prepared turns and commands\<close>

datatype refine_barrier = BarrierAlways | BarrierIfInFlight | BarrierSkip

datatype compaction_timing = BeforeModelSelection | AfterModelSelection | SkipCompaction

datatype context_timing = ContextAtPreparation | ContextAtCommit | ContextSkip

record turn_execution_policy =
  tep_initial_barrier :: refine_barrier
  tep_flush_bash :: bool
  tep_validate :: bool
  tep_await_model :: bool
  tep_compaction :: compaction_timing
  tep_final_barrier :: refine_barrier
  tep_before_agent_start :: bool
  tep_context :: context_timing
  tep_keep_empty_prompt :: bool
  tep_retry_chain :: bool

datatype policy_kind = QueuedPolicy | DirectPromptPolicy | InjectedPolicy | CustomTriggerPolicy

definition turn_execution_policies_equal :: "turn_execution_policy \<Rightarrow> turn_execution_policy \<Rightarrow> bool" where
  "turn_execution_policies_equal l r \<longleftrightarrow>
     tep_initial_barrier l = tep_initial_barrier r \<and> tep_flush_bash l = tep_flush_bash r
     \<and> tep_validate l = tep_validate r \<and> tep_await_model l = tep_await_model r
     \<and> tep_compaction l = tep_compaction r \<and> tep_final_barrier l = tep_final_barrier r
     \<and> tep_before_agent_start l = tep_before_agent_start r \<and> tep_context l = tep_context r
     \<and> tep_keep_empty_prompt l = tep_keep_empty_prompt r \<and> tep_retry_chain l = tep_retry_chain r"

fun policy_for :: "policy_kind \<Rightarrow> bool \<Rightarrow> bool \<Rightarrow> turn_execution_policy" where
  "policy_for QueuedPolicy after_accepted skip_pre_prompt =
     \<lparr>tep_initial_barrier = BarrierSkip, tep_flush_bash = False, tep_validate = True, tep_await_model = True,
      tep_compaction = BeforeModelSelection, tep_final_barrier = BarrierAlways, tep_before_agent_start = True,
      tep_context = ContextAtCommit, tep_keep_empty_prompt = True, tep_retry_chain = True\<rparr>"
| "policy_for DirectPromptPolicy after_accepted skip_pre_prompt =
     \<lparr>tep_initial_barrier = (if after_accepted then BarrierSkip else BarrierAlways), tep_flush_bash = True,
      tep_validate = True, tep_await_model = True,
      tep_compaction = (if skip_pre_prompt then SkipCompaction else AfterModelSelection),
      tep_final_barrier = BarrierIfInFlight, tep_before_agent_start = (\<not> skip_pre_prompt),
      tep_context = ContextAtPreparation, tep_keep_empty_prompt = False, tep_retry_chain = True\<rparr>"
| "policy_for InjectedPolicy after_accepted skip_pre_prompt =
     \<lparr>tep_initial_barrier = BarrierAlways, tep_flush_bash = True, tep_validate = True, tep_await_model = True,
      tep_compaction = BeforeModelSelection, tep_final_barrier = BarrierIfInFlight, tep_before_agent_start = True,
      tep_context = ContextAtPreparation, tep_keep_empty_prompt = True, tep_retry_chain = True\<rparr>"
| "policy_for CustomTriggerPolicy after_accepted skip_pre_prompt =
     \<lparr>tep_initial_barrier = BarrierAlways, tep_flush_bash = False, tep_validate = False, tep_await_model = False,
      tep_compaction = SkipCompaction, tep_final_barrier = BarrierSkip, tep_before_agent_start = False,
      tep_context = ContextSkip, tep_keep_empty_prompt = False, tep_retry_chain = False\<rparr>"

text \<open>
  \<open>pt_prepared\<close> is the identity of a preparation; \<open>pt_capture\<close> the messages of a dispatch that was
  cancelled while it ran.
\<close>

record prepared_turn = turn_payload +
  pt_images :: "part list option"
  pt_content :: "part list option"
  pt_custom :: "custom_message option"
  pt_prepared :: "nat option"
  pt_policy :: turn_execution_policy
  pt_visible :: bool
  pt_accepted :: bool
  pt_accepted_before_completion :: bool
  pt_capture :: "message_ref list option"
  pt_dispatch_ended :: bool

record prepared_command =
  pc_command :: session_slash_command
  pc_images :: "part list option"

type_synonym queued_action = "(unit prepared_turn_ext, prepared_command) session_action"
type_synonym queued_store = "(unit prepared_turn_ext, prepared_command) action_store"

definition as_turn :: "queued_action \<Rightarrow> prepared_turn option" where
  "as_turn a = (case sa_payload a of TurnPayload p \<Rightarrow> Some p | CommandPayload _ _ \<Rightarrow> None)"

definition update_turn :: "(prepared_turn \<Rightarrow> prepared_turn) \<Rightarrow> queued_action \<Rightarrow> queued_action" where
  "update_turn f a =
     (case sa_payload a of TurnPayload p \<Rightarrow> a\<lparr>sa_payload := TurnPayload (f p)\<rparr> | CommandPayload _ _ \<Rightarrow> a)"

definition payload_text :: "queued_action \<Rightarrow> jstring" where
  "payload_text a = (case sa_payload a of TurnPayload p \<Rightarrow> tp_text p | CommandPayload _ s \<Rightarrow> s)"

text \<open>\<open>None\<close> stands for the error of an action that is no turn, or has no primary record.\<close>

definition primary_delivery_record :: "queued_action \<Rightarrow> delivery_record option" where
  "primary_delivery_record a =
     (case as_turn a of None \<Rightarrow> None | Some p \<Rightarrow> find (\<lambda>d. dr_role d = PrimaryRecord) (tp_records p))"

section \<open>Agent messages and priorities\<close>

definition is_human_input_source :: "jstring \<Rightarrow> bool" where
  "is_human_input_source source \<longleftrightarrow> source = js ''interactive'' \<or> source = js ''rpc''"

definition is_agent_session_message_id :: "jstring option \<Rightarrow> bool" where
  "is_agent_session_message_id i = (case i of None \<Rightarrow> False | Some s \<Rightarrow> take 9 s = js ''agentmsg_'')"

text \<open>The priority of input that carries no message (a command) or this one.\<close>

definition session_action_priority_for :: "bool \<Rightarrow> message option \<Rightarrow> jstring option \<Rightarrow> action_priority" where
  "session_action_priority_for human m agent_id =
     (if \<not> human \<or> is_agent_session_message_id agent_id then BackgroundPriority
      else case m of None \<Rightarrow> UserPriority | Some (User _) \<Rightarrow> UserPriority | Some _ \<Rightarrow> BackgroundPriority)"

definition is_string_field :: "string \<Rightarrow> json option \<Rightarrow> bool" where
  "is_string_field k v = (case v of Some j \<Rightarrow> (case json_field (js k) j of Some (JStr _) \<Rightarrow> True | _ \<Rightarrow> False) | None \<Rightarrow> False)"

definition is_agent_session_custom :: "custom_message \<Rightarrow> bool" where
  "is_agent_session_custom c \<longleftrightarrow>
     cm_type c = js ''agent_message'' \<and> is_string_field ''id'' (cm_details c) \<and> is_string_field ''message'' (cm_details c)"

definition is_agent_session_message :: "message \<Rightarrow> bool" where
  "is_agent_session_message m = (case m of Custom c \<Rightarrow> is_agent_session_custom c | _ \<Rightarrow> False)"

text \<open>A number or a string of the details, as a template literal prints it.\<close>

definition detail_text :: "string \<Rightarrow> json option \<Rightarrow> jstring" where
  "detail_text k v =
     (case v of
        None \<Rightarrow> js ''undefined''
      | Some j \<Rightarrow>
          (case json_field (js k) j of Some (JStr s) \<Rightarrow> s | Some (JNum s) \<Rightarrow> s | _ \<Rightarrow> js ''undefined''))"

definition queued_agent_message_preview :: "queued_action \<Rightarrow> jstring" where
  "queued_agent_message_preview a =
     (case sa_payload a of
        CommandPayload _ s \<Rightarrow> s
      | TurnPayload p \<Rightarrow>
          let plain = (case tp_preview p of Some s \<Rightarrow> s | None \<Rightarrow> tp_text p) in
          (case pt_custom p of
             None \<Rightarrow> plain
           | Some c \<Rightarrow>
               if is_agent_session_custom c
               then js ''Agent message received: '' @ detail_text ''message'' (cm_details c)
               else if cm_type c = js ''async_bash_completion'' then
                 (case cm_details c of
                    None \<Rightarrow> js ''Background command finished''
                  | Some _ \<Rightarrow> js ''Background command finished: pid '' @ detail_text ''pid'' (cm_details c)
                      @ js '', exit '' @ detail_text ''exitCode'' (cm_details c))
               else plain))"

definition queue_visible :: "queued_action \<Rightarrow> bool" where
  "queue_visible a = (case as_turn a of None \<Rightarrow> True | Some p \<Rightarrow> pt_visible p \<or> pt_accepted p)"

definition visible_projection :: "queued_store \<Rightarrow> action_ref list \<Rightarrow> action_ref list" where
  "visible_projection st rs = filter (\<lambda>r. queue_visible (st_objects st r)) rs"

section \<open>The state of the input\<close>

datatype message_leg = DeliveryLeg | CompletionLeg

datatype input_effect =
    EmitQueueUpdate | NotifyCheckpoint | StartPump nat | FlushTerminalNotices | ResumeContinuations
  | SettleAgentMessage "jstring option" message_leg "jstring option"
  | SurfaceError jstring | AbortAgent | ClearAgentQueues | RecordCommand jstring

record input_session =
  si_store :: queued_store
  si_messages :: "message_ref \<Rightarrow> message"
  si_transcript :: "message_ref list"
  si_next_turn :: "custom_message list"
  si_digest_pending :: bool
  si_disposed :: bool
  si_disposing :: bool
  si_admission_pauses :: nat
  si_work_pauses :: nat
  si_suspended :: bool
  si_update_restart :: bool
  si_epoch :: nat
  si_arrivals :: nat
  si_pump_requested :: bool
  si_streaming :: bool
  si_compacting :: bool
  si_retrying :: bool
  si_bash :: bool
  si_refining :: bool
  si_branching :: bool
  si_steering_all :: bool
  si_follow_up_all :: bool
  si_forced :: "jstring list option"

datatype input_failure =
    SessionDisposed | AdmissionPaused | TooManyPending nat | NoPrimaryRecord | StoreFailed store_failure

definition with_store :: "queued_store \<Rightarrow> input_session \<Rightarrow> input_session" where
  "with_store st s = s\<lparr>si_store := st\<rparr>"

abbreviation action_at :: "input_session \<Rightarrow> action_ref \<Rightarrow> queued_action" where
  "action_at s r \<equiv> st_objects (si_store s) r"

abbreviation state_at :: "input_session \<Rightarrow> action_ref \<Rightarrow> action_state" where
  "state_at s r \<equiv> object_state (si_store s) r"

text \<open>\<open>update_turn\<close> on the object of a reference.\<close>

definition change_turn :: "action_ref \<Rightarrow> (prepared_turn \<Rightarrow> prepared_turn) \<Rightarrow> queued_store \<Rightarrow> queued_store" where
  "change_turn r f st = update_object r (update_turn f) st"

definition reject_agent_message :: "jstring option \<Rightarrow> jstring \<Rightarrow> input_effect list" where
  "reject_agent_message i e =
     (case i of
        None \<Rightarrow> []
      | Some _ \<Rightarrow> [SettleAgentMessage i DeliveryLeg (Some e), SettleAgentMessage i CompletionLeg (Some e)])"

definition runtime_activity :: "input_session \<Rightarrow> runtime_activity" where
  "runtime_activity s =
     \<lparr>ra_lower_agent_run = si_streaming s, ra_compaction = si_compacting s, ra_retry = si_retrying s,
      ra_bash = si_bash s, ra_refinement_apply = si_refining s, ra_branch_mutation = si_branching s,
      ra_pause_count = int (si_work_pauses s) + (if si_suspended s then 1 else 0),
      ra_disposing = (si_disposed s \<or> si_disposing s)\<rparr>"

definition busy_for_pump :: "input_session \<Rightarrow> bool" where
  "busy_for_pump s \<longleftrightarrow>
     si_compacting s \<or> si_retrying s \<or> si_bash s \<or> si_disposed s \<or> si_disposing s \<or> si_suspended s
     \<or> 0 < si_work_pauses s \<or> si_branching s"

definition busy_for_preflight :: "input_session \<Rightarrow> bool" where
  "busy_for_preflight s \<longleftrightarrow>
     si_compacting s \<or> si_retrying s \<or> si_bash s \<or> unfinished_actions None (si_store s) \<noteq> []"

definition handoff_deferred :: "nat \<Rightarrow> input_session \<Rightarrow> bool" where
  "handoff_deferred epoch s \<longleftrightarrow> epoch \<noteq> si_epoch s \<or> busy_for_pump s"

definition has_selectable_input :: "input_session \<Rightarrow> bool" where
  "has_selectable_input s \<longleftrightarrow>
     queued_actions None (si_store s) \<noteq> []
     \<or> list_ex (\<lambda>r. state_at s r = SSelected) (active_actions None (si_store s))"

definition has_pending_session_work :: "input_session \<Rightarrow> bool" where
  "has_pending_session_work s \<longleftrightarrow>
     list_ex (\<lambda>r. state_at s r \<in> {SQueued, SSelected, SPreparing}
        \<or> state_at s r = SCommitting
          \<and> (case primary_delivery_record (action_at s r) of Some d \<Rightarrow> \<not> dr_durable d | None \<Rightarrow> False))
       (unfinished_actions None (si_store s))"

definition schedule_pump :: "input_session \<Rightarrow> input_session \<times> input_effect list" where
  "schedule_pump s =
     (if si_suspended s \<or> 0 < si_work_pauses s then (s, [])
      else if si_disposed s \<or> si_disposing s \<or> si_pump_requested s \<or> \<not> has_selectable_input s then (s, [])
      else (s\<lparr>si_pump_requested := True\<rparr>, [StartPump (si_epoch s)]))"

definition resume_input_admission :: "input_session \<Rightarrow> input_session \<times> input_effect list" where
  "resume_input_admission s =
     (if \<not> si_suspended s then (s, [])
      else (s\<lparr>si_suspended := False, si_update_restart := False, si_epoch := si_epoch s + 1\<rparr>,
            [NotifyCheckpoint, FlushTerminalNotices]))"

definition resume_queued_work :: "input_session \<Rightarrow> input_session \<times> input_effect list" where
  "resume_queued_work s =
     (let (s1, fx1) = resume_input_admission s; (s2, fx2) = schedule_pump s1
      in (s2, fx1 @ ResumeContinuations # fx2))"

section \<open>New actions\<close>

record turn_options =
  to_agent_message_id :: "jstring option"
  to_queue_key :: "jstring option"
  to_content :: "part list option"
  to_message :: "(message_ref \<times> message) option"
  to_prefix :: "(jstring \<times> message_ref) list"
  to_preview_label :: "jstring option"
  to_suppress :: bool
  to_resume_if_idle :: bool
  to_source :: "jstring option"
  to_priority :: "action_priority option"
  to_policy :: "turn_execution_policy option"
  to_visible :: "bool option"
  to_accepted :: "bool option"
  to_accepted_before_completion :: "bool option"

definition delivery_policy_of :: "message_lane \<Rightarrow> delivery_policy" where
  "delivery_policy_of schedule = (if schedule = SteeringLane then NextTurnBoundary else WhenRunIdle)"

definition create_delivery_record :: "jstring \<Rightarrow> jstring \<Rightarrow> delivery_role \<Rightarrow> message_ref \<Rightarrow> delivery_record" where
  "create_delivery_record record_id action_id role m =
     \<lparr>dr_id = record_id, dr_role = role, dr_message = m, dr_started = False, dr_durable = False, dr_owner = action_id\<rparr>"

definition build_prompt_content :: "jstring \<Rightarrow> part list option \<Rightarrow> part list" where
  "build_prompt_content text images = TextPart text None # (case images of Some is \<Rightarrow> is | None \<Rightarrow> [])"

text \<open>
  \<open>fresh\<close> is the reference of the message the code builds when it is given none; \<open>ids\<close> are the ids of
  the action and of its primary record. The prefix messages come with their records' ids, cloned.
\<close>

definition create_prepared_turn_action ::
    "jstring \<times> jstring \<Rightarrow> message_ref \<Rightarrow> message_lane \<Rightarrow> jstring \<Rightarrow> part list option \<Rightarrow> turn_options \<Rightarrow> int
     \<Rightarrow> queued_action \<times> (message_ref \<times> message) option" where
  "create_prepared_turn_action ids fresh schedule text images opts now =
     (let (i, record_id) = ids;
          content = (case to_content opts of Some c \<Rightarrow> c | None \<Rightarrow> build_prompt_content text images);
          (m, msg) = (case to_message opts of
                        Some given \<Rightarrow> given
                      | None \<Rightarrow> (fresh, User \<lparr>um_content = Parts content, um_time = now\<rparr>));
          source = (case to_source opts of Some x \<Rightarrow> x | None \<Rightarrow> js ''internal'');
          payload = \<lparr>tp_records = map (\<lambda>(rid, p). create_delivery_record rid i PrefixRecord p) (to_prefix opts)
                       @ [create_delivery_record record_id i PrimaryRecord m],
             tp_text = text,
             tp_preview = (case to_preview_label opts of
                             Some l \<Rightarrow> if l = [] then None else Some (l @ js '': '' @ text) | None \<Rightarrow> None),
             pt_images = images, pt_content = Some content,
             pt_custom = (case to_message opts of Some (_, Custom c) \<Rightarrow> Some c | _ \<Rightarrow> None),
             pt_prepared = None,
             pt_policy = (case to_policy opts of Some p \<Rightarrow> p | None \<Rightarrow> policy_for QueuedPolicy False False),
             pt_visible = (case to_visible opts of Some b \<Rightarrow> b | None \<Rightarrow> True),
             pt_accepted = (case to_accepted opts of Some b \<Rightarrow> b | None \<Rightarrow> False),
             pt_accepted_before_completion =
               (case to_accepted_before_completion opts of Some b \<Rightarrow> b | None \<Rightarrow> False),
             pt_capture = None, pt_dispatch_ended = False\<rparr>
      in (\<lparr>sa_id = i, sa_source = source, sa_delivery = delivery_policy_of schedule,
            sa_priority = (case to_priority opts of Some p \<Rightarrow> p
              | None \<Rightarrow> session_action_priority_for (is_human_input_source source) (Some msg) (to_agent_message_id opts)),
            sa_wake = (if to_resume_if_idle opts then WakeImmediate
                       else if schedule = SteeringLane then OnLowerBoundary else ExternalResume),
            sa_payload = TurnPayload payload, sa_lifecycle = Queued, sa_queue_key = to_queue_key opts,
            sa_agent_message_id = to_agent_message_id opts, sa_suppress_continuation = to_suppress opts\<rparr>,
          (case to_message opts of None \<Rightarrow> Some (m, msg) | Some _ \<Rightarrow> None)))"

definition create_session_command_action ::
    "jstring \<Rightarrow> jstring \<Rightarrow> session_slash_command \<Rightarrow> part list option \<Rightarrow> message_lane \<Rightarrow> jstring option
     \<Rightarrow> jstring option \<Rightarrow> action_priority option \<Rightarrow> queued_action" where
  "create_session_command_action i text command images schedule agent_id source priority =
     (let src = (case source of Some x \<Rightarrow> x | None \<Rightarrow> js ''internal'') in
      \<lparr>sa_id = i, sa_source = src, sa_delivery = delivery_policy_of schedule,
       sa_priority = (case priority of Some p \<Rightarrow> p
         | None \<Rightarrow> session_action_priority_for (is_human_input_source src) None agent_id),
       sa_wake = WakeImmediate,
       sa_payload = CommandPayload \<lparr>pc_command = command, pc_images = images\<rparr> text,
       sa_lifecycle = Queued, sa_queue_key = None, sa_agent_message_id = agent_id, sa_suppress_continuation = False\<rparr>)"

section \<open>Admission\<close>

definition coalesced_follow_up_owner :: "queued_store \<Rightarrow> queued_action \<Rightarrow> action_ref option" where
  "coalesced_follow_up_owner st a =
     (if sa_delivery a \<noteq> WhenRunIdle \<or> as_turn a = None \<or> sa_queue_key a = None \<or> sa_queue_key a = Some [] then None
      else find (\<lambda>r. sa_queue_key (st_objects st r) = sa_queue_key a
                     \<and> object_state st r \<in> {SQueued, SSelected, SPreparing})
             (unfinished_actions None st))"

record admission_options =
  ao_restore :: bool
  ao_front :: bool
  ao_preserve_order :: bool
  ao_no_wake :: bool
  ao_immediately_eligible :: bool

record admission =
  ad_accepted :: bool
  ad_disposition :: admission_disposition
  ad_ticket :: "jstring option"

definition max_pending_per_session :: nat where
  "max_pending_per_session = 20"

definition carries_agent_message :: "input_session \<Rightarrow> queued_action \<Rightarrow> bool" where
  "carries_agent_message s a =
     (case primary_delivery_record a of
        Some d \<Rightarrow> is_agent_session_message (si_messages s (dr_message d)) | None \<Rightarrow> False)"

definition placement_of :: "admission_options \<Rightarrow> placement" where
  "placement_of opts =
     (if ao_front opts then PlaceFront
      else if ao_restore opts \<or> ao_preserve_order opts then PlaceTail else PlacePriority)"

text \<open>What follows an \<open>enqueue\<close> that did not throw: \<open>st\<close> is the store it left.\<close>

definition admitted ::
    "admission_options \<Rightarrow> bool \<Rightarrow> action_ref \<Rightarrow> queued_store \<Rightarrow> input_session
     \<Rightarrow> admission \<times> input_session \<times> input_effect list" where
  "admitted opts can_start r st s =
     (let a = st_objects st r;
          (found, st1) = (if can_start then select_first st else (None, st));
          disposition = (if found = Some r then StartsWhenAdmitted else AdmissionQueued);
          st2 = update_ticket r (snd \<circ> settle_accepted (Accepted (sa_id a) disposition)) st1;
          s1 = s\<lparr>si_store := st2, si_arrivals := si_arrivals s + 1\<rparr>;
          wake = (\<not> ao_restore opts \<and> \<not> ao_no_wake opts
                  \<and> (disposition = StartsWhenAdmitted \<or> sa_delivery a = NextTurnBoundary \<and> si_streaming s
                     \<or> as_turn a = None \<or> sa_wake a = WakeImmediate));
          (s2, fx) = (if wake \<and> as_turn a \<noteq> None \<and> sa_wake a = WakeImmediate then resume_input_admission s1 else (s1, []));
          (s3, fx') = (if wake then schedule_pump s2 else (s2, []))
      in (\<lparr>ad_accepted = True, ad_disposition = disposition, ad_ticket = Some (sa_id a)\<rparr>, s3,
          EmitQueueUpdate # fx @ fx'))"

definition admit_session_input ::
    "admission_options \<Rightarrow> action_ref \<Rightarrow> input_session
     \<Rightarrow> (input_failure + admission) \<times> input_session \<times> input_effect list" where
  "admit_session_input opts r s =
     (let a = action_at s r; pending = length (unfinished_actions None (si_store s)) in
      if si_disposed s \<or> si_disposing s then (Inl SessionDisposed, s, [])
      else if 0 < si_admission_pauses s then (Inl AdmissionPaused, s, [])
      else if \<not> ao_restore opts \<and> as_turn a \<noteq> None \<and> primary_delivery_record a = None
      then (Inl NoPrimaryRecord, s, [])
      else if \<not> ao_restore opts \<and> as_turn a \<noteq> None \<and> carries_agent_message s a \<and> max_pending_per_session \<le> pending
      then (Inl (TooManyPending pending), s, [])
      else case (if ao_restore opts then None else coalesced_follow_up_owner (si_store s) a) of
        Some owner \<Rightarrow>
          (Inr \<lparr>ad_accepted = False, ad_disposition = AdmissionQueued, ad_ticket = None\<rparr>, s,
           if sa_agent_message_id a \<noteq> sa_agent_message_id (action_at s owner)
           then reject_agent_message (sa_agent_message_id a)
                  (js ''Prompt was not queued because an equivalent follow-up is already pending.'')
           else [])
      | None \<Rightarrow>
          let can_start = (ao_immediately_eligible opts
                           \<and> (unfinished_actions None (si_store s) = [] \<or> ao_front opts)) in
          (case enqueue r (placement_of opts) (si_store s) of
             Inl e \<Rightarrow> (Inl (StoreFailed e), s, [])
           | Inr st \<Rightarrow> let (ad, s', fx) = admitted opts can_start r st s in (Inr ad, s', fx)))"

section \<open>The pump\<close>

text \<open>
  The start of a round: what is already selected, and nothing more when the pump has been restarted.
  Then the code waits for the agent and the refinement; \<open>pump_select\<close> goes on with the same action.
\<close>

datatype pump_outcome =
    PumpStop | PumpBlocked | RunCommand action_ref | Dispatch "action_ref list" | PumpThrows store_failure

definition preselected_action :: "queued_store \<Rightarrow> action_ref option" where
  "preselected_action st = find (\<lambda>r. object_state st r = SSelected) (active_actions None st)"

definition pump_restarted :: "input_session \<Rightarrow> input_session \<times> input_effect list" where
  "pump_restarted s =
     (case preselected_action (si_store s) of
        None \<Rightarrow> (s, [])
      | Some r \<Rightarrow>
          (case rollback_action r None (si_store s) of
             Inr st \<Rightarrow> (with_store st s, [NotifyCheckpoint, EmitQueueUpdate]) | Inl _ \<Rightarrow> (s, [])))"

definition forced_all_steering_batch :: "action_ref \<Rightarrow> input_session \<Rightarrow> jstring list option \<times> input_session" where
  "forced_all_steering_batch first s =
     (case si_forced s of
        None \<Rightarrow> (None, s)
      | Some armed \<Rightarrow>
          if sa_delivery (action_at s first) = NextTurnBoundary \<and> sa_id (action_at s first) \<in> set armed
          then (Some armed, s)
          else if list_ex (\<lambda>r. sa_id (action_at s r) \<in> set armed)
                    (queued_actions (Some NextTurnBoundary) (si_store s))
          then (None, s)
          else (None, s\<lparr>si_forced := None\<rparr>))"

definition joins_batch :: "jstring list option \<Rightarrow> turn_execution_policy \<Rightarrow> queued_action \<Rightarrow> bool" where
  "joins_batch forced policy a =
     (case as_turn a of
        None \<Rightarrow> False
      | Some p \<Rightarrow> (case forced of Some ids \<Rightarrow> sa_id a \<in> set ids | None \<Rightarrow> True)
          \<and> turn_execution_policies_equal policy (pt_policy p))"

text \<open>
  The loop that fills a batch: it looks at the next action of the lane and lets the store select. Each
  selection leaves one action fewer waiting.
\<close>

lemma select_first_shrinks:
  assumes "queued_actions (Some d) st = r # rest"
  shows "length (queued_actions None (snd (select_first st))) < length (queued_actions None st)"
proof -
  obtain q qs where q: "queued_actions None st = q # qs"
    using assms by (cases "queued_actions None st"; cases d) (auto simp: queued_actions_lanes)
  show ?thesis
    using length_filter_le [of "\<lambda>y. y \<noteq> q" qs] by (simp add: select_first_cases q selected_waiting less_Suc_eq_le)
qed

function collect_batch ::
    "delivery_policy \<Rightarrow> jstring list option \<Rightarrow> turn_execution_policy \<Rightarrow> action_ref list \<Rightarrow> queued_store
     \<Rightarrow> action_ref list \<times> queued_store" where
  "collect_batch d forced policy batch st =
     (case queued_actions (Some d) st of
        [] \<Rightarrow> (batch, st)
      | r # _ \<Rightarrow>
          if joins_batch forced policy (st_objects st r)
          then collect_batch d forced policy (batch @ [r]) (snd (select_first st))
          else (batch, st))"
  by pat_completeness auto

termination
  by (relation "measure (\<lambda>(d, forced, policy, batch, st). length (queued_actions None st))")
    (auto dest: select_first_shrinks)

declare collect_batch.simps [simp del]

text \<open>Every action of a batch to \<open>preparing\<close>; one that has gone elsewhere throws.\<close>

fun prepare_all :: "action_ref list \<Rightarrow> queued_store \<Rightarrow> store_failure option \<times> queued_store" where
  "prepare_all [] st = (None, st)"
| "prepare_all (r # rs) st =
     (case transition_session_action r (Preparing None) None st of
        Inl e \<Rightarrow> (Some e, st) | Inr st' \<Rightarrow> prepare_all rs st')"

definition batch_mode_all :: "jstring list option \<Rightarrow> action_ref \<Rightarrow> input_session \<Rightarrow> bool" where
  "batch_mode_all forced first s =
     (if forced \<noteq> None then True
      else if sa_delivery (action_at s first) = NextTurnBoundary then si_steering_all s else si_follow_up_all s)"

definition dispatch_batch :: "bool \<Rightarrow> action_ref \<Rightarrow> input_session \<Rightarrow> pump_outcome \<times> input_session \<times> input_effect list" where
  "dispatch_batch was_selected first s =
     (let (forced, s1) = forced_all_steering_batch first s;
          policy = (case as_turn (action_at s1 first) of Some p \<Rightarrow> pt_policy p
                    | None \<Rightarrow> policy_for QueuedPolicy False False);
          (batch, st) = (if \<not> was_selected \<and> batch_mode_all forced first s1
                         then collect_batch (sa_delivery (action_at s1 first)) forced policy [first] (si_store s1)
                         else ([first], si_store s1))
      in case prepare_all batch st of
           (Some e, st') \<Rightarrow> (PumpThrows e, with_store st' s1, [])
         | (None, st') \<Rightarrow> (Dispatch batch, with_store st' s1, [NotifyCheckpoint, EmitQueueUpdate]))"

definition pump_select ::
    "nat \<Rightarrow> action_ref option \<Rightarrow> input_session \<Rightarrow> pump_outcome \<times> input_session \<times> input_effect list" where
  "pump_select epoch preselected s =
     (let activity = runtime_activity s;
          turn_may_start =
            (case preselected of
               Some r \<Rightarrow> as_turn (action_at s r) \<noteq> None \<and> can_select_session_action (activity\<lparr>ra_refinement_apply := False\<rparr>)
             | None \<Rightarrow> False)
      in if handoff_deferred epoch s \<or> \<not> turn_may_start \<and> \<not> can_select_session_action activity
         then (PumpBlocked, s, [NotifyCheckpoint])
         else let (first, st) = (case preselected of Some r \<Rightarrow> (Some r, si_store s) | None \<Rightarrow> select_first (si_store s)) in
           (case first of
              None \<Rightarrow> (PumpStop, with_store st s, [])
            | Some r \<Rightarrow>
                if as_turn (st_objects st r) = None then (RunCommand r, with_store st s, [])
                else dispatch_batch (preselected \<noteq> None) r (with_store st s)))"

section \<open>Messages of a dispatch\<close>

definition update_first :: "('a \<Rightarrow> bool) \<Rightarrow> ('a \<Rightarrow> 'a) \<Rightarrow> 'a list \<Rightarrow> 'a list" where
  "update_first P f xs = (case first_index P xs of None \<Rightarrow> xs | Some i \<Rightarrow> xs[i := f (xs ! i)])"

definition mark_started :: "message_ref \<Rightarrow> prepared_turn \<Rightarrow> prepared_turn" where
  "mark_started m p = p\<lparr>tp_records := update_first (\<lambda>d. dr_message d = m) (\<lambda>d. d\<lparr>dr_started := True\<rparr>) (tp_records p)\<rparr>"

definition mark_durable :: "message_ref \<Rightarrow> prepared_turn \<Rightarrow> prepared_turn" where
  "mark_durable m p = p\<lparr>tp_records := update_first (\<lambda>d. dr_message d = m) (\<lambda>d. d\<lparr>dr_durable := True\<rparr>) (tp_records p)\<rparr>"

definition record_for :: "message_ref \<Rightarrow> queued_action \<Rightarrow> delivery_record option" where
  "record_for m a = (case as_turn a of None \<Rightarrow> None | Some p \<Rightarrow> find (\<lambda>d. dr_message d = m) (tp_records p))"

definition is_primary_record :: "delivery_record option \<Rightarrow> bool" where
  "is_primary_record d = (case d of Some x \<Rightarrow> dr_role x = PrimaryRecord | None \<Rightarrow> False)"

text \<open>A cancelled dispatch that still runs collects the messages of its run.\<close>

definition capture_message :: "message_ref \<Rightarrow> queued_store \<Rightarrow> queued_store" where
  "capture_message m st =
     fold (\<lambda>r st. change_turn r
        (\<lambda>p. case (pt_capture p, primary_delivery_record (st_objects st r)) of
               (Some ms, Some d) \<Rightarrow>
                 if \<not> pt_dispatch_ended p \<and> (m = dr_message d \<or> dr_started d)
                 then p\<lparr>pt_capture := Some (List.insert m ms)\<rparr> else p
             | _ \<Rightarrow> p) st)
       (owned_actions st) st"

definition on_message_start :: "message_ref \<Rightarrow> input_session \<Rightarrow> input_session \<times> input_effect list" where
  "on_message_start m s =
     fold (\<lambda>r (s, fx).
        let d = record_for m (action_at s r); st = change_turn r (mark_started m) (si_store s) in
        if is_primary_record d
        then (with_store (update_ticket r (snd \<circ> settle_delivered Delivered) st) s,
              fx @ (case sa_agent_message_id (action_at s r) of None \<Rightarrow> []
                    | i \<Rightarrow> [SettleAgentMessage i DeliveryLeg None]))
        else (with_store st s, fx))
       (actions_for_message m (si_store s)) (with_store (capture_message m (si_store s)) s, [])"

definition on_message_end :: "message_ref \<Rightarrow> input_session \<Rightarrow> input_session \<times> input_effect list" where
  "on_message_end m s =
     fold (\<lambda>r (s, fx).
        let d = record_for m (action_at s r); st = change_turn r (mark_durable m) (si_store s) in
        if is_primary_record d \<and> object_state st r = SCommitting
        then (case transition_session_action r (Running AgentTurn) None st of
                Inr st' \<Rightarrow> (with_store st' s, fx @ [NotifyCheckpoint, EmitQueueUpdate])
              | Inl _ \<Rightarrow> (with_store st s, fx))
        else (with_store st s, fx))
       (actions_for_message m (si_store s)) (with_store (capture_message m (si_store s)) s, [])"

text \<open>
  When a run ends, what the cancelled dispatches collected leaves the transcript, and they collect no more.
\<close>

definition captured_messages :: "queued_store \<Rightarrow> message_ref list" where
  "captured_messages st =
     concat (List.map_filter (\<lambda>r. case as_turn (st_objects st r) of Some p \<Rightarrow> pt_capture p | None \<Rightarrow> None) (owned_actions st))"

definition on_agent_end :: "input_session \<Rightarrow> input_session" where
  "on_agent_end s =
     s\<lparr>si_store := fold (\<lambda>r. change_turn r (\<lambda>p. if pt_capture p = None then p else p\<lparr>pt_dispatch_ended := True\<rparr>))
          (owned_actions (si_store s)) (si_store s),
       si_transcript := filter (\<lambda>m. m \<notin> set (captured_messages (si_store s))) (si_transcript s)\<rparr>"

section \<open>Commands\<close>

text \<open>
  A selected command between its fence and its execution, what its execution begins with, and its end
  with the error it threw, if any. Nothing cancels a running command, so its last transition is legal.
\<close>

datatype command_start = CommandGone | CommandDeferred | CommandRuns | CommandThrows store_failure

definition start_command :: "nat \<Rightarrow> action_ref \<Rightarrow> input_session \<Rightarrow> command_start \<times> input_session \<times> input_effect list" where
  "start_command epoch r s =
     (let moved = (\<lambda>outcome result. case result of
            Inl e \<Rightarrow> (CommandThrows e, s, [])
          | Inr st \<Rightarrow> (outcome, with_store st s, [NotifyCheckpoint, EmitQueueUpdate])) in
      if state_at s r = SCancelled then (CommandGone, s, [])
      else if handoff_deferred epoch s \<or> \<not> can_select_session_action (runtime_activity s)
      then moved CommandDeferred (rollback_action r None (si_store s))
      else moved CommandRuns (transition_session_action r (Running SessionCommandRun) None (si_store s)))"

definition deliver_command :: "action_ref \<Rightarrow> input_session \<Rightarrow> input_session \<times> input_effect list" where
  "deliver_command r s =
     (with_store (update_ticket r (snd \<circ> settle_delivered NotApplicable) (si_store s)) s,
      RecordCommand (payload_text (action_at s r))
        # (case sa_agent_message_id (action_at s r) of None \<Rightarrow> [] | i \<Rightarrow> [SettleAgentMessage i DeliveryLeg None]))"

definition end_command :: "jstring option \<Rightarrow> action_ref \<Rightarrow> input_session \<Rightarrow> input_session \<times> input_effect list" where
  "end_command error r s =
     (let agent_id = sa_agent_message_id (action_at s r);
          (st, fx) =
            (case transition_session_action r (case error of None \<Rightarrow> Completed | Some e \<Rightarrow> Failed e) None (si_store s) of
               Inl _ \<Rightarrow> (si_store s, [])
             | Inr st \<Rightarrow>
                 (case error of
                    None \<Rightarrow> (update_ticket r (snd \<circ> settle_completed None) st,
                             (case agent_id of None \<Rightarrow> [] | i \<Rightarrow> [SettleAgentMessage i CompletionLeg None]))
                  | Some e \<Rightarrow> (update_ticket r (snd \<circ> settle_completed (Some e) \<circ> snd \<circ> reject_delivered e) st,
                               reject_agent_message agent_id e)))
      in (with_store (case release_terminal r st of Inr st' \<Rightarrow> st' | Inl _ \<Rightarrow> st) s,
          fx @ [NotifyCheckpoint, EmitQueueUpdate]))"

section \<open>The end of a dispatch\<close>

definition set_primary_durable :: "prepared_turn \<Rightarrow> prepared_turn" where
  "set_primary_durable p =
     p\<lparr>tp_records := update_first (\<lambda>d. dr_role d = PrimaryRecord) (\<lambda>d. d\<lparr>dr_durable := True\<rparr>) (tp_records p)\<rparr>"

definition primary_in :: "message_ref list \<Rightarrow> queued_action \<Rightarrow> bool" where
  "primary_in transcript a =
     (case primary_delivery_record a of Some d \<Rightarrow> dr_message d \<in> set transcript | None \<Rightarrow> False)"

text \<open>After a dispatch that returned, for one action of the batch.\<close>

definition complete_action :: "action_ref \<Rightarrow> input_session \<Rightarrow> input_session \<times> input_effect list" where
  "complete_action r s =
     (let st1 = (if state_at s r = SCommitting \<and> primary_in (si_transcript s) (action_at s r)
                 then set_lifecycle r (Running AgentTurn) (change_turn r set_primary_durable (si_store s))
                 else si_store s)
      in if object_state st1 r = SRunning
         then (with_store (update_ticket r (snd \<circ> settle_completed None) (set_lifecycle r Completed st1)) s,
               case sa_agent_message_id (action_at s r) of None \<Rightarrow> []
               | i \<Rightarrow> [SettleAgentMessage i CompletionLeg None])
         else (with_store st1 s, []))"

text \<open>After one that threw: what is durable, and the context records that stay.\<close>

definition refresh_records :: "message_ref list \<Rightarrow> prepared_turn \<Rightarrow> prepared_turn" where
  "refresh_records transcript p =
     p\<lparr>tp_records :=
        filter (\<lambda>d. case dr_role d of PrefixRecord \<Rightarrow> \<not> dr_durable d | NextTurnRecord \<Rightarrow> dr_durable d | PrimaryRecord \<Rightarrow> True)
          (map (\<lambda>d. d\<lparr>dr_durable := (dr_durable d \<or> dr_message d \<in> set transcript)\<rparr>) (tp_records p))\<rparr>"

definition counts_for_failure :: "queued_store \<Rightarrow> action_ref \<Rightarrow> bool" where
  "counts_for_failure st r \<longleftrightarrow> as_turn (st_objects st r) \<noteq> None \<and> object_state st r \<noteq> SCancelled"

definition is_undelivered :: "queued_store \<Rightarrow> action_ref \<Rightarrow> bool" where
  "is_undelivered st r =
     (counts_for_failure st r
      \<and> (case primary_delivery_record (st_objects st r) of Some d \<Rightarrow> \<not> dr_durable d | None \<Rightarrow> False))"

definition refresh_batch :: "action_ref list \<Rightarrow> input_session \<Rightarrow> queued_store" where
  "refresh_batch batch s =
     fold (\<lambda>r st. if counts_for_failure st r then change_turn r (refresh_records (si_transcript s)) st else st)
       batch (si_store s)"

definition requeue_action :: "message_ref list \<Rightarrow> action_ref \<Rightarrow> queued_store \<Rightarrow> queued_store" where
  "requeue_action transcript r st =
     (let result =
        (if object_state st r = SCommitting
         then rollback_action r (Some \<lparr>rp_settled = True, rp_transcript = transcript\<rparr>) st
         else if object_state st r \<in> {SPreparing, SSelected} then rollback_action r None st
         else Inr st)
      in case result of Inr st' \<Rightarrow> st' | Inl _ \<Rightarrow> st)"

definition fail_action ::
    "jstring \<Rightarrow> action_ref list \<Rightarrow> action_ref \<Rightarrow> queued_store \<times> input_effect list \<Rightarrow> queued_store \<times> input_effect list" where
  "fail_action e undelivered r acc =
     (let (st, fx) = acc in
      if object_state st r = SCancelled then (st, fx)
      else
        let st1 = (if object_state st r \<in> {SCompleted, SFailed} then st else set_lifecycle r (Failed e) st);
            agent_id = sa_agent_message_id (st_objects st r);
            settle = (\<lambda>leg. case agent_id of None \<Rightarrow> [] | i \<Rightarrow> [SettleAgentMessage i leg (Some e)]);
            st2 = (if r \<in> set undelivered then update_ticket r (snd \<circ> reject_delivered e) st1 else st1)
        in (update_ticket r (snd \<circ> settle_completed (Some e)) st2,
            fx @ (if r \<in> set undelivered then settle DeliveryLeg else []) @ settle CompletionLeg))"

text \<open>
  The handler of the error: \<open>deferred\<close> tells whether the error only defers the input (it says so itself,
  the pump was restarted, or the session is busy).
\<close>

definition dispatch_failed ::
    "jstring \<Rightarrow> bool \<Rightarrow> action_ref list \<Rightarrow> input_session \<Rightarrow> input_session \<times> input_effect list" where
  "dispatch_failed e deferred batch s =
     (let st1 = refresh_batch batch s; undelivered = filter (is_undelivered st1) batch in
      if deferred
      then (with_store (fold (requeue_action (si_transcript s)) undelivered st1) s,
            if undelivered = [] then [] else [EmitQueueUpdate])
      else let (st2, fx) = fold (fail_action e undelivered) batch (st1, [])
           in (with_store st2 s,
               fx @ (if list_ex (\<lambda>r. case as_turn (st_objects st2 r) of None \<Rightarrow> True | Some p \<Rightarrow> pt_visible p) batch
                     then [SurfaceError e] else [])))"

definition release_finished :: "action_ref \<Rightarrow> queued_store \<Rightarrow> queued_store" where
  "release_finished r st =
     (let retained = (object_state st r = SCancelled
            \<and> (case as_turn (st_objects st r) of Some p \<Rightarrow> pt_capture p \<noteq> None | None \<Rightarrow> False))
      in if \<not> retained \<and> object_state st r \<in> {SCompleted, SFailed, SCancelled}
         then (case release_terminal r st of Inr st' \<Rightarrow> st' | Inl _ \<Rightarrow> st) else st)"

definition release_batch :: "action_ref list \<Rightarrow> input_session \<Rightarrow> input_session \<times> input_effect list" where
  "release_batch batch s =
     (with_store (fold release_finished batch (si_store s)) s, [NotifyCheckpoint, EmitQueueUpdate])"

section \<open>Cancellation\<close>

definition preparing_turns :: "queued_store \<Rightarrow> action_ref list" where
  "preparing_turns st =
     filter (\<lambda>r. as_turn (st_objects st r) \<noteq> None \<and> object_state st r = SPreparing) (active_actions None st)"

definition record_custom :: "input_session \<Rightarrow> delivery_record \<Rightarrow> custom_message option" where
  "record_custom s d = (case si_messages s (dr_message d) of Custom c \<Rightarrow> Some c | _ \<Rightarrow> None)"

definition is_digest :: "custom_message \<Rightarrow> bool" where
  "is_digest c \<longleftrightarrow> cm_type c = js ''harness_digest''"

text \<open>The context messages of a cancelled turn that go back to the next one; its digest does not.\<close>

definition restorable_messages :: "input_session \<Rightarrow> prepared_turn \<Rightarrow> custom_message list" where
  "restorable_messages s p =
     List.map_filter
       (\<lambda>d. case record_custom s d of
              Some c \<Rightarrow>
                if (dr_role d = NextTurnRecord \<or> pt_accepted p \<and> dr_role d = PrefixRecord) \<and> \<not> is_digest c \<and> \<not> dr_durable d
                then Some c else None
            | None \<Rightarrow> None)
       (tp_records p)"

definition has_digest :: "input_session \<Rightarrow> prepared_turn \<Rightarrow> bool" where
  "has_digest s p = list_ex (\<lambda>d. case record_custom s d of Some c \<Rightarrow> is_digest c | None \<Rightarrow> False) (tp_records p)"

text \<open>\<open>previous\<close> is the state in which the cancellation found the action.\<close>

definition cancel_one ::
    "(action_ref \<Rightarrow> action_state) \<Rightarrow> jstring \<Rightarrow> action_ref \<Rightarrow> custom_message list \<times> input_session
     \<Rightarrow> custom_message list \<times> input_session" where
  "cancel_one previous e r acc =
     (let (restored, s) = acc; a = action_at s r;
          settle = (case as_turn a of
                      Some p \<Rightarrow> if pt_accepted p \<or> \<not> pt_visible p \<or> previous r \<noteq> SQueued
                                then reject_delivered e else settle_delivered NotApplicable
                    | None \<Rightarrow> settle_delivered NotApplicable);
          st1 = update_ticket r (snd \<circ> settle_completed (Some e) \<circ> snd \<circ> settle) (si_store s)
      in case as_turn a of
           None \<Rightarrow> (restored, with_store (case release_terminal r st1 of Inr st' \<Rightarrow> st' | Inl _ \<Rightarrow> st1) s)
         | Some p \<Rightarrow>
             let digest = (si_digest_pending s \<or> has_digest s p); records = map dr_message (tp_records p) in
             if previous r = SCommitting
             then (restored @ restorable_messages s p,
                   s\<lparr>si_store := change_turn r (\<lambda>p. p\<lparr>pt_capture := Some (remdups records)\<rparr>) st1,
                     si_digest_pending := digest,
                     si_transcript := filter (\<lambda>m. m \<notin> set records) (si_transcript s)\<rparr>)
             else (restored @ restorable_messages s p,
                   s\<lparr>si_store := (case release_terminal r st1 of Inr st' \<Rightarrow> st' | Inl _ \<Rightarrow> st1),
                     si_digest_pending := digest\<rparr>))"

text \<open>The preparation of a batch hangs on its last turn: without that turn the others prepare again.\<close>

definition drop_preparation :: "action_ref list \<Rightarrow> action_ref list \<Rightarrow> queued_store \<Rightarrow> queued_store" where
  "drop_preparation preparing removed st =
     (if preparing \<noteq> [] \<and> last preparing \<in> set removed
      then fold (\<lambda>r st. if r \<in> set removed then st else change_turn r (\<lambda>p. p\<lparr>pt_prepared := None\<rparr>) st) preparing st
      else st)"

definition cancel_session_actions ::
    "(action_ref \<Rightarrow> bool) \<Rightarrow> jstring \<Rightarrow> action_ref list \<Rightarrow> input_session
     \<Rightarrow> (store_failure + action_ref list) \<times> input_session \<times> input_effect list" where
  "cancel_session_actions P e candidates s =
     (let previous = object_state (si_store s); preparing = preparing_turns (si_store s) in
      case remove_actions P candidates (si_store s) of
        (Inl err, st) \<Rightarrow> (Inl err, with_store st s, [])
      | (Inr removed, st) \<Rightarrow>
          let (restored, s') = fold (cancel_one previous e) removed
                                 ([], with_store (drop_preparation preparing removed st) s)
          in (Inr removed, s'\<lparr>si_next_turn := restored @ si_next_turn s'\<rparr>,
              if removed = [] then [] else [NotifyCheckpoint]))"

text \<open>A cancellation among the clearable actions throws nothing; its result is not looked at.\<close>

definition cancel_where :: "(action_ref \<Rightarrow> bool) \<Rightarrow> jstring \<Rightarrow> input_session \<Rightarrow> input_session \<times> input_effect list" where
  "cancel_where P e s = snd (cancel_session_actions P e (clearable_actions None (si_store s)) s)"

section \<open>Commands on the queue\<close>

definition lane_texts :: "queued_store \<Rightarrow> delivery_policy \<Rightarrow> action_ref list \<Rightarrow> jstring list" where
  "lane_texts st d rs = map (\<lambda>r. payload_text (st_objects st r)) (filter (\<lambda>r. sa_delivery (st_objects st r) = d) rs)"

definition clear_queue :: "input_session \<Rightarrow> (jstring list \<times> jstring list) \<times> input_session \<times> input_effect list" where
  "clear_queue s =
     (let st = si_store s;
          clearable = filter (\<lambda>r. case as_turn (st_objects st r) of None \<Rightarrow> True | Some p \<Rightarrow> pt_visible p)
                        (clearable_actions None st);
          is_preparing = (\<lambda>r. as_turn (st_objects st r) \<noteq> None \<and> object_state st r = SPreparing);
          s1 = (if list_ex is_preparing clearable then s\<lparr>si_epoch := si_epoch s + 1\<rparr> else s);
          prompt_error = js ''Queued prompt was cleared before delivery.'';
          agent_error = js ''Queued agent message was cleared before delivery.'';
          rejections = concat (map (\<lambda>r. reject_agent_message (sa_agent_message_id (st_objects st r))
                         (if is_preparing r then prompt_error else agent_error)) clearable);
          ids = map (\<lambda>r. sa_id (st_objects st r)) clearable;
          (s2, fx) = cancel_where (\<lambda>r. sa_id (st_objects st r) \<in> set ids) agent_error s1
      in ((lane_texts st NextTurnBoundary clearable, lane_texts st WhenRunIdle clearable), s2,
          rejections @ fx @ [ClearAgentQueues, EmitQueueUpdate]))"

definition remove_queued_follow_up :: "jstring \<Rightarrow> input_session \<Rightarrow> bool \<times> input_session \<times> input_effect list" where
  "remove_queued_follow_up key s =
     (let st = si_store s;
          matching = filter (\<lambda>r. as_turn (st_objects st r) \<noteq> None \<and> sa_queue_key (st_objects st r) = Some key)
                       (clearable_actions None st);
          e = js ''Queued agent message was cleared before delivery.'';
          ids = map (\<lambda>r. sa_id (st_objects st r)) matching
      in if matching = [] then (False, s, [])
         else let (s', fx) = cancel_where (\<lambda>r. sa_id (st_objects st r) \<in> set ids) e s
              in (True, s', concat (map (\<lambda>r. reject_agent_message (sa_agent_message_id (st_objects st r)) e) matching)
                    @ fx @ [EmitQueueUpdate]))"

text \<open>
  The turns of other agents, taken back: those that wait, and the one dispatch that has not started. An
  accepted prompt is cancelled with its own error, before the rest.
\<close>

definition may_take_back :: "queued_store \<Rightarrow> action_ref \<Rightarrow> bool" where
  "may_take_back st r \<longleftrightarrow>
     object_state st r \<in> {SQueued, SSelected, SPreparing}
     \<or> object_state st r = SCommitting
       \<and> length (filter (\<lambda>q. as_turn (st_objects st q) \<noteq> None \<and> object_state st q \<in> {SCommitting, SRunning})
                   (owned_actions st)) = 1
       \<and> (case primary_delivery_record (st_objects st r) of Some d \<Rightarrow> \<not> dr_started d | None \<Rightarrow> False)"

definition is_accepted_turn :: "queued_action \<Rightarrow> bool" where
  "is_accepted_turn a = (case as_turn a of Some p \<Rightarrow> pt_accepted p | None \<Rightarrow> False)"

definition cancel_group ::
    "bool \<Rightarrow> jstring \<Rightarrow> action_ref list \<Rightarrow> input_session \<Rightarrow> input_session \<times> input_effect list" where
  "cancel_group accepted e matching s =
     (let ids = map (\<lambda>r. sa_id (action_at s r)) (filter (\<lambda>r. is_accepted_turn (action_at s r) = accepted) matching)
      in if ids = [] then (s, [])
         else snd (cancel_session_actions (\<lambda>r. sa_id (action_at s r) \<in> set ids) e matching s))"

definition clear_turns_matching ::
    "(queued_action \<Rightarrow> bool) \<Rightarrow> input_session \<Rightarrow> (jstring list \<times> jstring list) \<times> input_session \<times> input_effect list" where
  "clear_turns_matching matches s =
     (let st = si_store s;
          matching = filter (\<lambda>r. as_turn (st_objects st r) \<noteq> None \<and> sa_agent_message_id (st_objects st r) \<noteq> None
                                 \<and> matches (st_objects st r) \<and> may_take_back st r) (owned_actions st);
          in_order = filter (is_queued st) matching @ filter (\<lambda>r. \<not> is_queued st r) matching;
          accepted_error = js ''Accepted agent message was cleared before delivery.'';
          queued_error = js ''Queued agent message was cleared before delivery.'';
          rejections = concat (map (\<lambda>r. reject_agent_message (sa_agent_message_id (st_objects st r))
                         (if is_accepted_turn (st_objects st r) then accepted_error else queued_error)) matching)
      in if matching = [] then (([], []), s, [])
         else let (s1, fx1) = cancel_group True accepted_error matching s;
                  (s2, fx2) = cancel_group False queued_error matching s1;
                  captured = list_ex (\<lambda>r. state_at s2 r = SCancelled
                               \<and> (case as_turn (action_at s2 r) of Some p \<Rightarrow> pt_capture p \<noteq> None | None \<Rightarrow> False)) matching
              in ((lane_texts st NextTurnBoundary in_order, lane_texts st WhenRunIdle in_order), s2,
                  rejections @ fx1 @ fx2 @ (if captured then [AbortAgent] else []) @ [EmitQueueUpdate]))"

datatype queue_mutation =
    DeleteItem | MoveItem int | ReplaceItem jstring "part list option" message_lane

datatype mutation_status = Applied | MutationRejected | Invalid

definition item_at :: "'a list \<Rightarrow> int \<Rightarrow> 'a option" where
  "item_at xs i = (if 0 \<le> i \<and> nat i < length xs then Some (xs ! nat i) else None)"

text \<open>A replaced text: the images it came with, or those it had.\<close>

definition kept_images :: "part list option \<Rightarrow> part list option" where
  "kept_images images = (case images of None \<Rightarrow> None | Some is \<Rightarrow> if is = [] then None else Some is)"

definition is_text_part :: "part \<Rightarrow> bool" where
  "is_text_part p = (case p of TextPart _ _ \<Rightarrow> True | ImagePart _ _ \<Rightarrow> False)"

definition replace_turn_text :: "jstring \<Rightarrow> part list option \<Rightarrow> prepared_turn \<Rightarrow> prepared_turn" where
  "replace_turn_text new_text images p =
     (let p1 = (case images of
                  Some is \<Rightarrow> p\<lparr>pt_images := kept_images images, pt_content := Some (TextPart new_text None # is)\<rparr>
                | None \<Rightarrow> p\<lparr>pt_content := map_option (\<lambda>c. TextPart new_text None # filter (\<lambda>b. \<not> is_text_part b) c) (pt_content p)\<rparr>)
      in p1\<lparr>tp_text := new_text, tp_preview := None, pt_prepared := None\<rparr>)"

definition is_user_message :: "message \<Rightarrow> bool" where
  "is_user_message m = (case m of User _ \<Rightarrow> True | _ \<Rightarrow> False)"

definition rewrite_user_content :: "content \<Rightarrow> message \<Rightarrow> message" where
  "rewrite_user_content c m = (case m of User u \<Rightarrow> User (u\<lparr>um_content := c\<rparr>) | _ \<Rightarrow> m)"

definition replace_item ::
    "action_ref \<Rightarrow> jstring \<Rightarrow> part list option \<Rightarrow> input_session \<Rightarrow> (mutation_status + input_session)" where
  "replace_item r new_text images s =
     (case sa_payload (action_at s r) of
        CommandPayload c _ \<Rightarrow>
          (case parse_session_slash_command new_text of
             None \<Rightarrow> Inl Invalid
           | Some command \<Rightarrow>
               let c' = c\<lparr>pc_command := command, pc_images := (if images = None then pc_images c else kept_images images)\<rparr>
               in Inr (with_store (update_object r (\<lambda>a. a\<lparr>sa_payload := CommandPayload c' new_text\<rparr>) (si_store s)) s))
      | TurnPayload p \<Rightarrow>
          if pt_accepted p
             \<or> list_ex (\<lambda>d. dr_role d = PrimaryRecord \<and> \<not> is_user_message (si_messages s (dr_message d))) (tp_records p)
          then Inl MutationRejected
          else
            let p' = replace_turn_text new_text images p;
                content = (case pt_content p' of Some c \<Rightarrow> Parts c | None \<Rightarrow> Plain new_text);
                primaries = map dr_message (filter (\<lambda>d. dr_role d = PrimaryRecord) (tp_records p))
            in Inr (s\<lparr>si_store := change_turn r (\<lambda>_. p') (si_store s),
                     si_messages := (\<lambda>m. if m \<in> set primaries then rewrite_user_content content (si_messages s m)
                                         else si_messages s m)\<rparr>))"

definition mutate_queued_message ::
    "message_lane \<Rightarrow> int \<Rightarrow> jstring \<Rightarrow> queue_mutation \<Rightarrow> input_session
     \<Rightarrow> (store_failure + mutation_status) \<times> input_session \<times> input_effect list" where
  "mutate_queued_message lane index expected mutation s =
     (let policy = queued_message_lane_delivery_policy lane;
          projection = visible_projection (si_store s) (queued_actions (Some policy) (si_store s))
      in case item_at projection index of
        None \<Rightarrow> (Inr MutationRejected, s, [])
      | Some r \<Rightarrow>
          if queued_agent_message_preview (action_at s r) \<noteq> expected then (Inr MutationRejected, s, [])
          else (case mutation of
            DeleteItem \<Rightarrow>
              let e = js ''Queued prompt was deleted before delivery.'';
                  (s1, fx1) = cancel_where ((=) r) e s;
                  (s2, fx2) = resume_queued_work s1
              in (Inr Applied, s2, reject_agent_message (sa_agent_message_id (action_at s r)) e @ fx1 @ EmitQueueUpdate # fx2)
          | MoveItem direction \<Rightarrow>
              (case item_at projection (index + direction) of
                 None \<Rightarrow> (Inr MutationRejected, s, [])
               | Some q \<Rightarrow>
                   (case swap_queued r q (si_store s) of
                      Inl err \<Rightarrow> (Inl err, s, [])
                    | Inr st \<Rightarrow> (Inr Applied, with_store st s, [EmitQueueUpdate])))
          | ReplaceItem new_text images target_lane \<Rightarrow>
              (case replace_item r new_text images s of
                 Inl status \<Rightarrow> (Inr status, s, [])
               | Inr s1 \<Rightarrow>
                   let target = queued_message_lane_delivery_policy target_lane;
                       relaned = (if target = policy then Inr (si_store s1)
                         else move_queued r target (int (length (queued_actions (Some target) (si_store s1))))
                                (update_object r (\<lambda>a. a\<lparr>sa_queue_key := None,
                                   sa_wake := (if target_lane = SteeringLane then OnLowerBoundary else ExternalResume)\<rparr>)
                                  (si_store s1)))
                   in (case relaned of
                         Inl err \<Rightarrow> (Inl err, s1, [])
                       | Inr st \<Rightarrow>
                           let (s2, fx) = resume_queued_work (with_store st s1)
                           in (Inr Applied, s2, fx @ [EmitQueueUpdate])))))"

section \<open>What clients see\<close>

datatype active_phase = PhasePreparing | PhaseCommitting | PhaseRunning

record session_action_snapshot =
  ss_queued_count :: nat
  ss_steering :: "jstring list"
  ss_follow_ups :: "jstring list"
  ss_active :: "(bool \<times> active_phase \<times> jstring) option"

text \<open>\<open>compactRlmText\<close>: white space runs to one blank, and at most 160 units.\<close>

fun collapse_space :: "jstring \<Rightarrow> jstring" where
  "collapse_space [] = []"
| "collapse_space (u # s) =
     (if js_space u then (case s of [] \<Rightarrow> [32] | v # _ \<Rightarrow> if js_space v then collapse_space s else 32 # collapse_space s)
      else u # collapse_space s)"

definition trim_right :: "jstring \<Rightarrow> jstring" where
  "trim_right s = rev (dropWhile js_space (rev s))"

definition compact_rlm_text :: "jstring \<Rightarrow> jstring" where
  "compact_rlm_text s =
     (let c = js_trim (collapse_space s) in
      if length c \<le> 160 then c else trim_right (take 157 c) @ js ''...'')"

fun phase_of :: "action_state \<Rightarrow> active_phase option" where
  "phase_of SSelected = Some PhasePreparing"
| "phase_of SPreparing = Some PhasePreparing"
| "phase_of SCommitting = Some PhaseCommitting"
| "phase_of SRunning = Some PhaseRunning"
| "phase_of _ = None"

definition session_action_snapshot :: "input_session \<Rightarrow> session_action_snapshot" where
  "session_action_snapshot s =
     (let st = si_store s;
          texts = (\<lambda>d. map (\<lambda>r. queued_agent_message_preview (st_objects st r))
                         (visible_projection st (queued_actions (Some d) st)));
          active = visible_projection st (active_actions None st)
      in \<lparr>ss_queued_count = length (texts NextTurnBoundary) + length (texts WhenRunIdle),
          ss_steering = texts NextTurnBoundary, ss_follow_ups = texts WhenRunIdle,
          ss_active = (case active of
             [] \<Rightarrow> None
           | r # _ \<Rightarrow> map_option (\<lambda>ph. (as_turn (st_objects st r) \<noteq> None, ph, compact_rlm_text (payload_text (st_objects st r))))
                       (phase_of (object_state st r)))\<rparr>)"

end
