(* ===== verification/SessionInputProps.thy ===== *)
theory SessionInputProps
  imports SessionInput
begin

text \<open>What the input of a session guarantees: its batches, its admissions and the end of its dispatches.\<close>

section \<open>Batches\<close>

lemma queued_actions_head_lane:
  assumes "store_wf st" "queued_actions None st = r # rest"
  defines "d \<equiv> sa_delivery (st_objects st r)"
  shows "\<exists>more. queued_actions (Some d) st = r # more"
    and "d = WhenRunIdle \<Longrightarrow> queued_actions (Some NextTurnBoundary) st = []"
proof -
  have lane: "q \<in> set (queued_actions (Some e) st) \<Longrightarrow> sa_delivery (st_objects st q) = e" for q e
    using store_wfD(2) [OF assms(1)] by (auto simp: queued_actions_lane)
  show "\<exists>more. queued_actions (Some d) st = r # more"
    and "d = WhenRunIdle \<Longrightarrow> queued_actions (Some NextTurnBoundary) st = []"
    using assms(2) lane [of r NextTurnBoundary] lane [of r WhenRunIdle] unfolding queued_actions_lanes d_def
    by (cases "queued_actions (Some NextTurnBoundary) st"; auto)+
qed

text \<open>What a selection leaves of the lane it takes from.\<close>

lemma select_lane:
  assumes "store_wf st" "queued_actions (Some d) st = r # rest"
    and "d = WhenRunIdle \<Longrightarrow> queued_actions (Some NextTurnBoundary) st = []"
  shows "select_first st = (Some r, set_lifecycle r Selected st)"
    and "queued_actions (Some d) (set_lifecycle r Selected st) = rest"
    and "d = WhenRunIdle \<Longrightarrow> queued_actions (Some NextTurnBoundary) (set_lifecycle r Selected st) = []"
proof -
  have "distinct (r # rest)"
    using store_wfD(1) [OF assms(1), of d] assms(2) by (simp add: queued_actions_lane flip: assms(2))
  then show "queued_actions (Some d) (set_lifecycle r Selected st) = rest"
    unfolding selected_waiting assms(2) by (simp add: filter_id_conv) metis
  show "select_first st = (Some r, set_lifecycle r Selected st)"
    using assms(2,3) by (cases d) (simp_all add: select_first_cases queued_actions_lanes)
  show "d = WhenRunIdle \<Longrightarrow> queued_actions (Some NextTurnBoundary) (set_lifecycle r Selected st) = []"
    using assms(3) by (simp add: selected_waiting)
qed

abbreviation selected_all :: "action_ref list \<Rightarrow> queued_store \<Rightarrow> queued_store" where
  "selected_all rs st \<equiv> fold (\<lambda>r. set_lifecycle r Selected) rs st"

lemma collect_batch_prefix:
  assumes "collect_batch d forced policy batch st = (batch', st')" "store_wf st"
    and "d = WhenRunIdle \<Longrightarrow> queued_actions (Some NextTurnBoundary) st = []"
  shows "\<exists>more rest. batch' = batch @ more \<and> queued_actions (Some d) st = more @ rest \<and> st' = selected_all more st
    \<and> (\<forall>r\<in>set more. joins_batch forced policy (st_objects st r))"
  using assms
proof (induction d forced policy batch st arbitrary: batch' st' rule: collect_batch.induct)
  case (1 d forced policy batch st)
  show ?case
  proof (cases "queued_actions (Some d) st")
    case Nil
    with "1.prems"(1) show ?thesis by (auto simp: collect_batch.simps [of d])
  next
    case (Cons r rest)
    show ?thesis
    proof (cases "joins_batch forced policy (st_objects st r)")
      case False
      with "1.prems"(1) Cons show ?thesis by (auto simp: collect_batch.simps [of d])
    next
      case True
      let ?st = "set_lifecycle r Selected st"
      note l = select_lane [OF "1.prems"(2) Cons "1.prems"(3)]
      have "collect_batch d forced policy (batch @ [r]) ?st = (batch', st')"
        using "1.prems"(1) Cons True l(1) by (simp add: collect_batch.simps [of d _ _ _ st])
      with "1.IH" [OF Cons True] l obtain more rest' where m: "batch' = (batch @ [r]) @ more"
        "rest = more @ rest'" "st' = selected_all more ?st" "\<forall>q\<in>set more. joins_batch forced policy (st_objects ?st q)"
        using "1.prems"(2) by (metis set_lifecycle_wf snd_conv)
      have "joins_batch forced policy (st_objects ?st q) = joins_batch forced policy (st_objects st q)" for q
        by (simp add: joins_batch_def as_turn_def store_simps split: option.split)
      with m True Cons show ?thesis by (intro exI [of _ "r # more"] exI [of _ rest']) auto
    qed
  qed
qed


lemma selected_all_state:
  "object_state (selected_all rs st) q = (if q \<in> set rs then SSelected else object_state st q)"
  by (induction rs arbitrary: st) (auto simp: store_simps)

lemma selected_all_frame:
  "sa_payload (st_objects (selected_all rs st) q) = sa_payload (st_objects st q)"
  "sa_id (st_objects (selected_all rs st) q) = sa_id (st_objects st q)"
  by (induction rs arbitrary: st) (auto simp: store_simps)

lemma prepare_all_selected:
  assumes "distinct rs" "\<forall>r\<in>set rs. object_state st r = SSelected"
  shows "\<exists>st'. prepare_all rs st = (None, st')
    \<and> (\<forall>q. object_state st' q = (if q \<in> set rs then SPreparing else object_state st q))
    \<and> (\<forall>q. sa_payload (st_objects st' q) = sa_payload (st_objects st q))"
  using assms
proof (induction rs arbitrary: st)
  case (Cons r rs)
  let ?st = "set_lifecycle r (Preparing None) st"
  have "transition_session_action r (Preparing None) None st = Inr ?st"
    using Cons.prems(2) by (simp add: transition_session_action_def Let_def)
  moreover have "distinct rs" "\<forall>q\<in>set rs. object_state ?st q = SSelected"
    using Cons.prems by (auto simp: store_simps)
  ultimately show ?case
    using Cons.IH [of ?st] Cons.prems(1) by (auto simp: store_simps)
qed simp

lemma forced_keeps_store: "forced_all_steering_batch r s = (forced, s') \<Longrightarrow> si_store s' = si_store s"
  by (auto simp: forced_all_steering_batch_def split: option.splits if_splits)

lemma policies_equal_iff: "turn_execution_policies_equal l r \<longleftrightarrow> l = r"
  by (auto simp: turn_execution_policies_equal_def)

lemma joins_batch_policy: "joins_batch forced policy a \<Longrightarrow> map_option pt_policy (as_turn a) = Some policy"
  by (cases "as_turn a") (simp_all add: joins_batch_def policies_equal_iff)

definition policy_of :: "input_session \<Rightarrow> action_ref \<Rightarrow> turn_execution_policy option" where
  "policy_of s r = map_option pt_policy (as_turn (action_at s r))"

text \<open>The batch of a selected turn: the turn and what follows it in its lane, all of one policy, all prepared.\<close>

lemma dispatch_batch_taken:
  assumes wf: "store_wf (si_store s)" and lane: "queued_actions (Some d) (si_store s) = r0 # waiting"
    and low: "d = WhenRunIdle \<Longrightarrow> queued_actions (Some NextTurnBoundary) (si_store s) = []"
    and st1_def: "st1 = set_lifecycle r0 Selected (si_store s)" and p: "as_turn (st_objects st1 r0) = Some p"
    and d: "sa_delivery (st_objects st1 r0) = d"
  obtains batch rest s' where "dispatch_batch False r0 (with_store st1 s) = (Dispatch batch, s', [NotifyCheckpoint, EmitQueueUpdate])"
    "batch \<noteq> []" "queued_actions (Some d) (si_store s) = batch @ rest"
    "\<forall>r\<in>set batch. policy_of s r = Some (pt_policy p)"
    "\<forall>r. state_at s' r = (if r \<in> set batch then SPreparing else state_at s r)"
proof -
  note sel = select_lane [OF wf lane low, folded st1_def]
  obtain forced s1 where f: "forced_all_steering_batch r0 (with_store st1 s) = (forced, s1)" by fastforce
  have s1: "si_store s1 = st1" using forced_keeps_store [OF f] by (simp add: with_store_def)
  obtain batch st2 where b: "(if batch_mode_all forced r0 s1
      then collect_batch d forced (pt_policy p) [r0] st1 else ([r0], st1)) = (batch, st2)" by fastforce
  have wf1: "store_wf st1" using wf lifecycle_run_wf [OF select_first_run [OF sel(1)]] by simp
  obtain more rest where m: "batch = r0 # more" "waiting = more @ rest" "st2 = selected_all more st1"
    "\<forall>r\<in>set more. joins_batch forced (pt_policy p) (st_objects st1 r)"
    using b collect_batch_prefix [of d forced "pt_policy p" "[r0]" st1 batch st2, OF _ wf1 sel(3)] sel(2)
    by (cases "batch_mode_all forced r0 s1") auto
  have "distinct (queued_actions (Some d) (si_store s))"
    using store_wfD(1) [OF wf, of d] by (simp add: queued_actions_lane)
  then have dist: "distinct batch" unfolding lane m(1,2) by simp
  have selected: "\<forall>r\<in>set batch. object_state st2 r = SSelected"
    using m(1,3) by (auto simp: selected_all_state store_simps st1_def)
  obtain st3 where st3: "prepare_all batch st2 = (None, st3)"
    "\<forall>q. object_state st3 q = (if q \<in> set batch then SPreparing else object_state st2 q)"
    using prepare_all_selected [OF dist selected] by blast
  have payload: "as_turn (st_objects st1 r) = as_turn (action_at s r)" for r
    by (simp add: as_turn_def store_simps st1_def)
  show thesis
  proof (rule that [of batch "with_store st3 s1" rest])
    show "dispatch_batch False r0 (with_store st1 s) = (Dispatch batch, with_store st3 s1, [NotifyCheckpoint, EmitQueueUpdate])"
      using p f b st3(1) by (cases "batch_mode_all forced r0 s1")
        (simp_all add: dispatch_batch_def Let_def s1 d del: prepare_all.simps)
    show "\<forall>r\<in>set batch. policy_of s r = Some (pt_policy p)"
      using m(1,4) p joins_batch_policy [of forced "pt_policy p" "st_objects st1 r" for r]
      by (auto simp: policy_of_def payload)
    show "\<forall>r. state_at (with_store st3 s1) r = (if r \<in> set batch then SPreparing else state_at s r)"
      using st3(2) m(1,3) by (auto simp: selected_all_state store_simps with_store_def st1_def)
  qed (use lane m in auto)
qed


section \<open>Admission\<close>

lemma update_ticket_for:
  assumes "st_tickets st (sa_id (st_objects st r)) = Some t"
  shows "ticket_for r (update_ticket r f st) = Inr (f t)"
  using assms by (simp add: update_ticket_def ticket_for_def Let_def)

lemma update_ticket_state [simp]: "object_state (update_ticket r f st) q = object_state st q"
  by (simp add: object_state_def store_simps)

lemma update_ticket_owned [simp]: "set (owned_actions (update_ticket r f st)) = set (owned_actions st)"
  by (simp add: set_owned_actions store_simps)

lemma set_lifecycle_owned [simp]: "owned_actions (set_lifecycle r l st) = owned_actions st"
  by (simp add: store_actions_def store_simps)

lemma resume_input_store [simp]: "si_store (fst (resume_input_admission s)) = si_store s"
  by (simp add: resume_input_admission_def)

lemma schedule_pump_store [simp]: "si_store (fst (schedule_pump s)) = si_store s"
  by (simp add: schedule_pump_def)

lemma select_first_frame:
  assumes "select_first st = (found, st')"
  shows "owned_actions st' = owned_actions st" "st_tickets st' = st_tickets st"
    "sa_id (st_objects st' q) = sa_id (st_objects st q)"
    "object_state st' q = (if found = Some q then SSelected else object_state st q)"
  using assms by (auto simp: select_first_cases store_simps split: list.splits if_splits)

lemma admitted_store:
  assumes "admitted opts can_start r st s = (ad, s', fx)"
  obtains found st1 where "(if can_start then select_first st else (None, st)) = (found, st1)"
    "si_store s' = update_ticket r (snd \<circ> settle_accepted (Accepted (sa_id (st_objects st r)) (ad_disposition ad))) st1"
    "ad_accepted ad" "ad_disposition ad = (if found = Some r then StartsWhenAdmitted else AdmissionQueued)"
proof -
  obtain found st1 where f: "(if can_start then select_first st else (None, st)) = (found, st1)" by fastforce
  show thesis
    by (rule that [OF f])
      (use assms in \<open>auto simp: admitted_def Let_def f split_beta split: if_splits
        dest!: arg_cong [where f = "\<lambda>s. si_store (fst (snd s))"]\<close>)
qed

lemma admitted_owns_ticket:
  assumes "store_wf (si_store s)" "enqueue r placement (si_store s) = Inr st" "admitted opts c r st s = (ad, s', fx)"
  shows "store_wf (si_store s') \<and> set (owned_actions (si_store s')) = insert r (set (owned_actions (si_store s)))
    \<and> r \<notin> set (owned_actions (si_store s))
    \<and> (\<exists>t. ticket_for r (si_store s') = Inr t
         \<and> tk_accepted t = Resolved (Accepted (sa_id (action_at s r)) (ad_disposition ad)))
    \<and> (ad_disposition ad = StartsWhenAdmitted \<longleftrightarrow> state_at s' r = SSelected)"
proof -
  obtain found st1 where f: "(if c then select_first st else (None, st)) = (found, st1)"
    and s': "si_store s' = update_ticket r (snd \<circ> settle_accepted (Accepted (sa_id (st_objects st r)) (ad_disposition ad))) st1"
    and disp: "ad_disposition ad = (if found = Some r then StartsWhenAdmitted else AdmissionQueued)"
    using admitted_store [OF assms(3)] by metis
  have same: "owned_actions st1 = owned_actions st" "st_tickets st1 = st_tickets st"
    "sa_id (st_objects st1 q) = sa_id (st_objects st q)"
    "object_state st1 q = (if found = Some q then SSelected else object_state st q)" for q
    using f select_first_frame [where st = st and found = found and st' = st1] by (auto split: if_splits)
  have wf: "store_wf st" by (rule enqueue_wf [OF assms(1,2)])
  then have wf1: "store_wf st1"
    using f lifecycle_run_wf [OF select_first_run] by (auto split: if_splits)
  have q: "object_state st r = SQueued"
    using enqueue_eq(1) [OF assms(2)] by (simp add: object_state_def enqueue_fields(1) [OF assms(2)])
  have t: "st_tickets st1 (sa_id (st_objects st1 r)) = Some new_ticket"
    by (simp add: same enqueue_fields [OF assms(2)])
  have "r \<notin> set (owned_actions (si_store s))"
    by (rule not_owned_without_ticket [OF assms(1) enqueue_eq(2) [OF assms(2)]])
  then show ?thesis
    using wf1 disp q update_ticket_for [OF t] enqueue_owned [OF assms(2)]
    by (auto simp: s' same update_ticket_wf enqueue_fields(1) [OF assms(2)] new_ticket_def settle_accepted_def
        settle_deferred_def split: if_splits)
qed

text \<open>
  C15. An input is refused and nothing changes, or it merges with an equivalent follow-up and nothing changes, or
  the store owns it with a ticket settled as the caller was told.
\<close>

theorem admissions_own_a_settled_ticket:
  assumes "store_wf (si_store s)" "admit_session_input opts r s = (result, s', fx)"
  shows "case result of
      Inl e \<Rightarrow> s' = s
    | Inr ad \<Rightarrow>
        if ad_accepted ad then
          store_wf (si_store s') \<and> set (owned_actions (si_store s')) = insert r (set (owned_actions (si_store s)))
          \<and> r \<notin> set (owned_actions (si_store s))
          \<and> (\<exists>t. ticket_for r (si_store s') = Inr t
               \<and> tk_accepted t = Resolved (Accepted (sa_id (action_at s r)) (ad_disposition ad)))
          \<and> (ad_disposition ad = StartsWhenAdmitted \<longleftrightarrow> state_at s' r = SSelected)
        else s' = s \<and> coalesced_follow_up_owner (si_store s) (action_at s r) \<noteq> None"
proof (cases result)
  case (Inl e)
  with assms(2) show ?thesis
    by (auto simp: admit_session_input_def Let_def split_beta split: if_splits option.splits sum.splits)
next
  case (Inr ad)
  have accepts: "ad_accepted (fst (admitted opts c r st s))" for c st
    by (cases "admitted opts c r st s") (auto elim: admitted_store)
  show ?thesis
  proof (cases "ad_accepted ad")
    case False
    from assms(2) Inr False show ?thesis
      by (auto simp: accepts admit_session_input_def Let_def split_beta split: if_splits option.splits sum.splits)
  next
    case True
    obtain c st where st: "enqueue r (placement_of opts) (si_store s) = Inr st" "admitted opts c r st s = (ad, s', fx)"
      using assms(2) Inr True
      by (auto simp: admit_session_input_def Let_def split: if_splits option.splits sum.splits prod.splits)
    from admitted_owns_ticket [OF assms(1) st] Inr True show ?thesis by simp
  qed
qed

section \<open>The end of a dispatch\<close>

lemma update_turn_frame [simp]:
  "sa_id (update_turn f a) = sa_id a" "sa_delivery (update_turn f a) = sa_delivery a"
  "sa_lifecycle (update_turn f a) = sa_lifecycle a" "sa_agent_message_id (update_turn f a) = sa_agent_message_id a"
  "as_turn (update_turn f a) = map_option f (as_turn a)"
  by (simp_all add: update_turn_def as_turn_def split: payload.split)

lemma change_turn_frame [store_simps]:
  "st_boundary (change_turn r f st) = st_boundary st" "st_idle (change_turn r f st) = st_idle st"
  "lane_of (change_turn r f st) d = lane_of st d"
  "st_tickets (change_turn r f st) = st_tickets st"
  "sa_id (st_objects (change_turn r f st) q) = sa_id (st_objects st q)"
  "sa_delivery (st_objects (change_turn r f st) q) = sa_delivery (st_objects st q)"
  "object_state (change_turn r f st) q = object_state st q"
  "as_turn (st_objects (change_turn r f st) q) = (if q = r then map_option f (as_turn (st_objects st q)) else as_turn (st_objects st q))"
  by (simp_all add: change_turn_def store_simps update_object_def object_state_def action_state_def)

text \<open>Stores with the same lanes, tickets and identities; their objects may differ in lifecycle and payload.\<close>

definition same_places :: "queued_store \<Rightarrow> queued_store \<Rightarrow> bool" where
  "same_places st st' \<longleftrightarrow>
     st_boundary st' = st_boundary st \<and> st_idle st' = st_idle st \<and> dom (st_tickets st') = dom (st_tickets st)
     \<and> (\<forall>q. sa_id (st_objects st' q) = sa_id (st_objects st q))
     \<and> (\<forall>q. sa_delivery (st_objects st' q) = sa_delivery (st_objects st q))"

lemma same_places_refl [simp, intro]: "same_places st st"
  by (simp add: same_places_def)

lemma same_places_trans: "same_places st st' \<Longrightarrow> same_places st' st'' \<Longrightarrow> same_places st st''"
  by (simp add: same_places_def)

lemma same_places_lane: "same_places st st' \<Longrightarrow> lane_of st' d = lane_of st d"
  by (cases d) (simp_all add: same_places_def)

lemma same_places_owned: "same_places st st' \<Longrightarrow> owned_actions st' = owned_actions st"
  by (simp add: same_places_def store_actions_def)

lemma same_places_wf: "same_places st st' \<Longrightarrow> store_wf st' = store_wf st"
  unfolding store_wf_def by (simp add: same_places_lane same_places_owned) (simp add: same_places_def)

lemma same_places_steps [intro]:
  "same_places st (change_turn r f st)" "same_places st (set_lifecycle r l st)" "same_places st (update_ticket r g st)"
  by (auto simp: same_places_def store_simps update_ticket_def Let_def split: option.splits)

lemma same_places_fold:
  assumes "\<And>x st. same_places st (g x st)"
  shows "same_places st (fold g xs st)"
proof (induction xs arbitrary: st)
  case (Cons x xs)
  show ?case using same_places_trans [OF assms [of st x] Cons.IH] by simp
qed simp

lemma refresh_batch_places: "same_places (si_store s) (refresh_batch batch s)"
  unfolding refresh_batch_def by (rule same_places_fold) auto

lemma refresh_batch_state: "object_state (refresh_batch batch s) q = state_at s q"
proof -
  have "object_state (fold (\<lambda>r st. if counts_for_failure st r then change_turn r g st else st) batch st) q = object_state st q" for g st
    by (induction batch arbitrary: st) (simp_all add: store_simps)
  then show ?thesis by (simp add: refresh_batch_def)
qed

lemma requeue_places: "same_places st (requeue_action transcript r st)"
  by (auto simp: requeue_action_def Let_def rollback_action_def split: sum.splits dest!: transition_ok)

lemma requeue_other: "q \<noteq> r \<Longrightarrow> object_state (requeue_action transcript r st) q = object_state st q"
  by (auto simp: requeue_action_def Let_def rollback_action_def store_simps split: sum.splits dest!: transition_ok)

lemma requeue_running: "object_state st r = SRunning \<Longrightarrow> requeue_action transcript r st = st"
  by (simp add: requeue_action_def)

lemma requeue_ticket: "st_tickets (requeue_action transcript r st) = st_tickets st"
  by (auto simp: requeue_action_def Let_def rollback_action_def store_simps split: sum.splits dest!: transition_ok)

lemma fold_requeue_running:
  assumes "object_state st r = SRunning"
  shows "object_state (fold (requeue_action transcript) rs st) r = SRunning
    \<and> st_tickets (fold (requeue_action transcript) rs st) = st_tickets st"
  using assms
proof (induction rs arbitrary: st)
  case (Cons q rs)
  then show ?case
    using requeue_other [of r q transcript st] requeue_running [of st q transcript]
    by (cases "q = r") (auto simp: requeue_ticket)
qed simp

lemma release_finished_cases:
  "release_finished r st = st \<or>
   (\<exists>st'. release_terminal r st = Inr st' \<and> release_finished r st = st' \<and> object_state st r \<in> set terminal_states)"
  by (auto simp: release_finished_def Let_def terminal_states_def split: sum.splits)

lemma release_terminal_fields:
  assumes "release_terminal r st = Inr st'"
  shows "st_objects st' = st_objects st" "st_tickets st' = (st_tickets st)(sa_id (st_objects st r) := None)"
    "lane_of st' d = (if d = sa_delivery (st_objects st r) then remove1 r (lane_of st d) else lane_of st d)"
  using assms by (auto simp: release_terminal_def Let_def store_simps split: if_splits)

lemma release_keeps_other:
  assumes "store_wf st" "r \<in> set (owned_actions st)" "q \<in> set (owned_actions st)" "q \<noteq> r \<or> object_state st q \<notin> set terminal_states"
  defines "st' \<equiv> release_finished r st"
  shows "store_wf st'" "q \<in> set (owned_actions st')" "object_state st' q = object_state st q"
    "st_tickets st' (sa_id (st_objects st' q)) = st_tickets st (sa_id (st_objects st q))"
proof -
  have "store_wf st' \<and> q \<in> set (owned_actions st') \<and> object_state st' q = object_state st q
      \<and> st_tickets st' (sa_id (st_objects st' q)) = st_tickets st (sa_id (st_objects st q))"
  proof (cases "release_finished r st = st")
    case True
    with assms show ?thesis by simp
  next
    case False
    then obtain st1 where r: "release_terminal r st = Inr st1" "st' = st1" "object_state st r \<in> set terminal_states"
      using release_finished_cases [of r st] unfolding st'_def by blast
    with assms(4) have n: "q \<noteq> r" by auto
    note f = release_terminal_fields [OF r(1)]
    have "sa_id (st_objects st q) \<noteq> sa_id (st_objects st r)"
      using store_wfD(3) [OF assms(1)] assms(2,3) n by (auto dest: inj_onD)
    moreover have "q \<in> set (lane_of st1 d)" if "q \<in> set (lane_of st d)" for d
      using that n by (auto simp: f(3))
    ultimately show ?thesis
      using assms(2,3) release_terminal_wf [OF assms(1) r(1)] unfolding r(2)
      by (auto simp: f(1,2) object_state_def set_owned_actions)
  qed
  then show "store_wf st'" "q \<in> set (owned_actions st')" "object_state st' q = object_state st q"
    "st_tickets st' (sa_id (st_objects st' q)) = st_tickets st (sa_id (st_objects st q))" by blast+
qed

lemma fold_release_keeps:
  assumes "store_wf st" "distinct rs" "set rs \<subseteq> set (owned_actions st)" "q \<in> set (owned_actions st)"
    "object_state st q \<notin> set terminal_states"
  defines "st' \<equiv> fold release_finished rs st"
  shows "q \<in> set (owned_actions st') \<and> object_state st' q = object_state st q
    \<and> st_tickets st' (sa_id (st_objects st' q)) = st_tickets st (sa_id (st_objects st q))"
  using assms(1-5) unfolding st'_def
proof (induction rs arbitrary: st)
  case (Cons r rs)
  have r: "r \<in> set (owned_actions st)" using Cons.prems(3) by simp
  note k = release_keeps_other [OF Cons.prems(1) r Cons.prems(4) disjI2 [OF Cons.prems(5)]]
  have "set rs \<subseteq> set (owned_actions (release_finished r st))"
  proof
    fix p assume "p \<in> set rs"
    with Cons.prems(2,3) have "p \<noteq> r" "p \<in> set (owned_actions st)" by auto
    then show "p \<in> set (owned_actions (release_finished r st))"
      using release_keeps_other(2) [OF Cons.prems(1) r] by blast
  qed
  with Cons.IH [OF k(1)] Cons.prems(2,5) k show ?case by auto
qed simp

text \<open>
  A dispatch that fails while its input is deferred goes back to the queue with what it has not
  delivered; a turn it has delivered stays in the store as running: no later step of the pump completes
  or releases it, its ticket stays open, and the session counts as busy from then on.
\<close>

theorem deferred_failures_strand_delivered_turns:
  assumes "store_wf (si_store s)" "distinct batch" "set batch \<subseteq> set (owned_actions (si_store s))"
    and "r \<in> set batch" "state_at s r = SRunning"
    and s': "s' = fst (release_batch batch (fst (dispatch_failed e True batch s)))"
  shows "state_at s' r = SRunning \<and> r \<in> set (owned_actions (si_store s'))
    \<and> ticket_for r (si_store s') = ticket_for r (si_store s) \<and> busy_for_preflight s'"
proof -
  let ?st1 = "refresh_batch batch s"
  let ?st2 = "fold (requeue_action (si_transcript s)) (filter (is_undelivered ?st1) batch) ?st1"
  have places: "same_places (si_store s) ?st2"
    by (rule same_places_trans [OF refresh_batch_places same_places_fold]) (rule requeue_places)
  have run: "object_state ?st2 r = SRunning" and tick: "st_tickets ?st2 = st_tickets ?st1"
    using fold_requeue_running [of ?st1 r] assms(5) by (simp_all add: refresh_batch_state)
  have tick1: "st_tickets ?st1 = st_tickets (si_store s)"
  proof -
    have "st_tickets (fold (\<lambda>r st. if counts_for_failure st r then change_turn r g st else st) rs st) = st_tickets st" for g rs st
      by (induction rs arbitrary: st) (simp_all add: store_simps)
    then show ?thesis by (simp add: refresh_batch_def)
  qed
  have owned: "set batch \<subseteq> set (owned_actions ?st2)" "r \<in> set (owned_actions ?st2)"
    using assms(3,4) by (auto simp: same_places_owned [OF places])
  have ids: "sa_id (st_objects ?st2 r) = sa_id (action_at s r)"
    using places by (simp add: same_places_def)
  have store: "si_store s' = fold release_finished batch ?st2"
    by (simp add: s' release_batch_def dispatch_failed_def Let_def with_store_def)
  have "store_wf ?st2" using assms(1) by (simp add: same_places_wf [OF places])
  note k = fold_release_keeps [OF this assms(2) owned, unfolded run, simplified terminal_states_def, simplified]
  have obj: "sa_id (st_objects (si_store s') r) = sa_id (action_at s r)"
  proof -
    have "st_objects (fold release_finished rs st) = st_objects st" for rs and st :: queued_store
    proof (induction rs arbitrary: st)
      case (Cons q rs)
      have "st_objects (release_finished q st) = st_objects st"
        using release_finished_cases [of q st] release_terminal_fields(1) by metis
      with Cons show ?case by simp
    qed simp
    then show ?thesis by (simp add: store ids)
  qed
  have "r \<in> set (unfinished_actions None (si_store s'))"
    using k by (auto simp: unfinished_actions_def store terminal_states_def)
  then have "busy_for_preflight s'" by (auto simp: busy_for_preflight_def)
  with k obj ids show ?thesis
    by (simp add: store ticket_for_def tick tick1)
qed

section \<open>Requeued turns\<close>

lemma fold_requeue_other:
  "q \<notin> set rs \<Longrightarrow> object_state (fold (requeue_action transcript) rs st) q = object_state st q"
  by (induction rs arbitrary: st) (auto simp: requeue_other)

lemma requeue_payload: "as_turn (st_objects (requeue_action transcript r st) q) = as_turn (st_objects st q)"
  by (auto simp: requeue_action_def Let_def rollback_action_def store_simps as_turn_def split: sum.splits dest!: transition_ok)

lemma primary_records_turn:
  "primary_records a = (case as_turn a of None \<Rightarrow> [] | Some p \<Rightarrow> filter (\<lambda>d. dr_role d = PrimaryRecord) (tp_records p))"
  by (simp add: primary_records_def as_turn_def split: payload.split)

lemma primary_delivery_hd:
  "primary_delivery_record a = (case primary_records a of [] \<Rightarrow> None | d # _ \<Rightarrow> Some d)"
  by (simp add: primary_delivery_record_def primary_records_turn find_filter split: option.split)

text \<open>Before its dispatch, or after one that left none of its primary messages in the transcript.\<close>

definition can_requeue :: "message_ref list \<Rightarrow> queued_store \<Rightarrow> action_ref \<Rightarrow> bool" where
  "can_requeue transcript st r \<longleftrightarrow>
     object_state st r \<in> {SPreparing, SSelected}
     \<or> object_state st r = SCommitting
       \<and> (\<forall>d\<in>set (primary_records (st_objects st r)). dr_message d \<notin> set transcript)"

lemma requeue_state:
  "can_requeue transcript st r \<Longrightarrow> object_state (requeue_action transcript r st) r = SQueued"
  by (auto simp: can_requeue_def requeue_action_def rollback_action_def transition_session_action_def Let_def
      store_simps list_ex_iff)

lemma can_requeue_other:
  "q \<noteq> r \<Longrightarrow> can_requeue transcript (requeue_action transcript q st) r = can_requeue transcript st r"
  by (simp add: can_requeue_def requeue_other primary_records_turn requeue_payload)

lemma fold_requeue_member:
  assumes "distinct rs" "r \<in> set rs" "can_requeue transcript st r"
  shows "object_state (fold (requeue_action transcript) rs st) r = SQueued"
  using assms
proof (induction rs arbitrary: st)
  case (Cons q rs)
  show ?case
  proof (cases "q = r")
    case True
    with Cons.prems show ?thesis by (simp add: fold_requeue_other requeue_state)
  next
    case False
    with Cons.prems have "can_requeue transcript (requeue_action transcript q st) r"
      by (simp add: can_requeue_other)
    with Cons.IH Cons.prems False show ?thesis by simp
  qed
qed simp

lemma refresh_records_primary:
  "filter (\<lambda>d. dr_role d = PrimaryRecord) (tp_records (refresh_records transcript p))
    = map (\<lambda>d. d\<lparr>dr_durable := (dr_durable d \<or> dr_message d \<in> set transcript)\<rparr>)
        (filter (\<lambda>d. dr_role d = PrimaryRecord) (tp_records p))"
proof -
  have "filter (\<lambda>d. dr_role d = PrimaryRecord)
      (filter (\<lambda>d. case dr_role d of PrefixRecord \<Rightarrow> \<not> dr_durable d | NextTurnRecord \<Rightarrow> dr_durable d | PrimaryRecord \<Rightarrow> True) ds)
    = filter (\<lambda>d. dr_role d = PrimaryRecord) ds" for ds
  proof -
    have "(case dr_role d of PrefixRecord \<Rightarrow> \<not> dr_durable d | NextTurnRecord \<Rightarrow> dr_durable d | PrimaryRecord \<Rightarrow> True)
        \<and> dr_role d = PrimaryRecord \<longleftrightarrow> dr_role d = PrimaryRecord" for d
      by (cases "dr_role d") simp_all
    then show ?thesis unfolding filter_filter by (rule filter_cong [OF refl])
  qed
  note kept = this
  show ?thesis by (simp add: refresh_records_def kept del: filter_filter) (simp add: filter_map o_def)
qed

lemma fold_refresh_turn:
  assumes "distinct rs"
  shows "as_turn (st_objects (fold (\<lambda>r st. if counts_for_failure st r then change_turn r g st else st) rs st) q)
    = (if q \<in> set rs \<and> counts_for_failure st q then map_option g (as_turn (st_objects st q)) else as_turn (st_objects st q))"
  using assms
proof (induction rs arbitrary: st)
  case (Cons r rs)
  have "counts_for_failure (change_turn r g st) q = counts_for_failure st q" for q
    by (auto simp: counts_for_failure_def store_simps)
  with Cons show ?case by (auto simp: store_simps)
qed simp

text \<open>
  C17. A deferred failure puts every turn that is not delivered back to \<open>queued\<close>, and moves nothing: the turns
  stand where they stood, ahead of what came after them.
\<close>

theorem deferred_failures_requeue_in_place:
  assumes "distinct batch" and s': "s' = fst (dispatch_failed e True batch s)"
  shows "(\<forall>d. lane_of (si_store s') d = lane_of (si_store s) d)
    \<and> (\<forall>r\<in>set batch. is_undelivered (refresh_batch batch s) r \<and> can_requeue (si_transcript s) (si_store s) r
          \<longrightarrow> state_at s' r = SQueued)
    \<and> (\<forall>r. r \<notin> set batch \<longrightarrow> state_at s' r = state_at s r)"
proof (intro conjI allI ballI impI)
  let ?st1 = "refresh_batch batch s"
  have store: "si_store s' = fold (requeue_action (si_transcript s)) (filter (is_undelivered ?st1) batch) ?st1"
    by (simp add: s' dispatch_failed_def Let_def with_store_def)
  have "same_places (si_store s) (si_store s')"
    unfolding store by (rule same_places_trans [OF refresh_batch_places same_places_fold]) (rule requeue_places)
  then show "lane_of (si_store s') d = lane_of (si_store s) d" for d
    by (rule same_places_lane)
  show "state_at s' r = state_at s r" if "r \<notin> set batch" for r
    using that by (simp add: store fold_requeue_other refresh_batch_state)
  show "state_at s' r = SQueued"
    if "r \<in> set batch" "is_undelivered ?st1 r \<and> can_requeue (si_transcript s) (si_store s) r" for r
  proof -
    have "dr_message ` set (primary_records (st_objects ?st1 r)) = dr_message ` set (primary_records (action_at s r))"
      using fold_refresh_turn [OF assms(1), of "refresh_records (si_transcript s)" "si_store s" r]
      by (cases "as_turn (action_at s r)")
        (simp_all add: primary_records_turn refresh_batch_def [symmetric] image_image refresh_records_primary
          del: set_filter)
    then have "(\<forall>d\<in>set (primary_records (st_objects ?st1 r)). dr_message d \<notin> T)
        = (\<forall>d\<in>set (primary_records (action_at s r)). dr_message d \<notin> T)" for T
      by (simp only: ball_simps(9) [symmetric, where f = dr_message and P = "\<lambda>m. m \<notin> T"])
    with that(2) have "can_requeue (si_transcript s) ?st1 r"
      by (simp add: can_requeue_def refresh_batch_state)
    then show ?thesis
      unfolding store using assms(1) that by (intro fold_requeue_member) auto
  qed
qed

section \<open>Failed turns\<close>

lemma fail_action_places: "same_places st (fst (fail_action e u r (st, fx)))"
proof -
  have "same_places st (if b then st else set_lifecycle r (Failed e) st)" for b by auto
  moreover have "same_places st1 (if b then update_ticket r f st1 else st1)" for b f and st1 :: queued_store by auto
  ultimately show ?thesis
    unfolding fail_action_def Let_def prod.case
    by (cases "object_state st r = SCancelled")
      (auto intro: same_places_trans [OF _ same_places_steps(3)] same_places_trans)
qed

lemma fail_action_state:
  "object_state (fst (fail_action e u r (st, fx))) q =
    (if q = r \<and> object_state st r \<notin> set terminal_states then SFailed else object_state st q)"
  by (auto simp: fail_action_def Let_def terminal_states_def store_simps)

lemma fold_fail_places: "same_places st (fst (fold (fail_action e u) rs (st, fx)))"
proof (induction rs arbitrary: st fx)
  case (Cons r rs)
  obtain st1 fx1 where s1: "fail_action e u r (st, fx) = (st1, fx1)" by fastforce
  then have "same_places st st1" using fail_action_places [of st e u r fx] by simp
  with Cons.IH [of st1 fx1] s1 show ?case by (auto intro: same_places_trans)
qed simp

lemma fold_fail_state:
  "object_state (fst (fold (fail_action e u) rs (st, fx))) q =
    (if q \<in> set rs \<and> object_state st q \<notin> set terminal_states then SFailed else object_state st q)"
proof (induction rs arbitrary: st fx)
  case (Cons r rs)
  obtain st1 fx1 where s1: "fail_action e u r (st, fx) = (st1, fx1)" by fastforce
  have "object_state st1 q = (if q = r \<and> object_state st r \<notin> set terminal_states then SFailed else object_state st q)"
    using fail_action_state [of e u r st fx q] s1 by simp
  with Cons.IH [of st1 fx1] s1 show ?case by (auto simp: terminal_states_def)
qed simp

lemma release_finished_objects [simp]: "st_objects (release_finished r st) = st_objects st"
  using release_finished_cases [of r st] release_terminal_fields(1) by metis

lemma release_finished_owned:
  assumes "store_wf st"
  shows "set (owned_actions (release_finished r st)) \<subseteq> set (owned_actions st)"
    and "object_state st r \<in> {SCompleted, SFailed} \<Longrightarrow> r \<notin> set (owned_actions (release_finished r st))"
    and "q \<noteq> r \<Longrightarrow> q \<in> set (owned_actions st) \<Longrightarrow> q \<in> set (owned_actions (release_finished r st))"
proof -
  have lane: "set (lane_of st' d) \<subseteq> set (lane_of st d)" "q \<noteq> r \<Longrightarrow> q \<in> set (lane_of st d) \<Longrightarrow> q \<in> set (lane_of st' d)"
    if "release_terminal r st = Inr st'" for st' d
    by (auto simp: release_terminal_fields(3) [OF that] dest: subsetD [OF set_remove1_subset])
  show "set (owned_actions (release_finished r st)) \<subseteq> set (owned_actions st)"
    "q \<noteq> r \<Longrightarrow> q \<in> set (owned_actions st) \<Longrightarrow> q \<in> set (owned_actions (release_finished r st))"
    using release_finished_cases [of r st] lane by (fastforce simp: set_owned_actions)+
  assume f: "object_state st r \<in> {SCompleted, SFailed}"
  then obtain st' where st': "release_terminal r st = Inr st'"
    by (auto simp: release_terminal_def Let_def object_state_def terminal_states_def)
  with f have "release_finished r st = st'" by (auto simp: release_finished_def Let_def)
  moreover have "r \<notin> set (lane_of st' d)" for d
    using store_wfD(1,2) [OF assms] by (auto simp: release_terminal_fields(3) [OF st'])
  ultimately show "r \<notin> set (owned_actions (release_finished r st))" by (simp add: set_owned_actions)
qed

lemma release_finished_wf:
  assumes "store_wf st" "r \<in> set (owned_actions st)"
  shows "store_wf (release_finished r st)"
  using release_finished_cases [of r st] release_terminal_wf [OF assms(1)] assms by auto

lemma fold_release_gone:
  assumes "store_wf st" "distinct rs" "set rs \<subseteq> set (owned_actions st)"
  shows "set (owned_actions (fold release_finished rs st)) \<subseteq> set (owned_actions st)
    \<and> (\<forall>r\<in>set rs. object_state st r \<in> {SCompleted, SFailed} \<longrightarrow> r \<notin> set (owned_actions (fold release_finished rs st)))
    \<and> (\<forall>q\<in>set (owned_actions st). q \<notin> set rs \<longrightarrow> q \<in> set (owned_actions (fold release_finished rs st)))
    \<and> st_objects (fold release_finished rs st) = st_objects st"
  using assms
proof (induction rs arbitrary: st)
  case (Cons r rs)
  let ?st = "release_finished r st"
  have r: "r \<in> set (owned_actions st)" using Cons.prems(3) by simp
  have sub: "set rs \<subseteq> set (owned_actions ?st)"
  proof
    fix p assume "p \<in> set rs"
    with Cons.prems(2,3) have "p \<noteq> r" "p \<in> set (owned_actions st)" by auto
    then show "p \<in> set (owned_actions ?st)" by (rule release_finished_owned(3) [OF Cons.prems(1)])
  qed
  have same: "object_state ?st q = object_state st q" for q by (simp add: object_state_def)
  let ?after = "fold release_finished rs ?st"
  have "distinct rs" using Cons.prems(2) by simp
  note ih = Cons.IH [OF release_finished_wf [OF Cons.prems(1) r] this sub, unfolded same]
  note one = release_finished_owned(1,2) [OF Cons.prems(1), of r]
  have "r \<notin> set (owned_actions ?after)" if "object_state st r \<in> {SCompleted, SFailed}"
    using one(2) [OF that] ih by blast
  moreover have "q \<in> set (owned_actions ?after)" if "q \<in> set (owned_actions st)" "q \<notin> set (r # rs)" for q
    using release_finished_owned(3) [OF Cons.prems(1), of q r] ih that by simp
  moreover have "set (owned_actions ?after) \<subseteq> set (owned_actions st)"
    using one(1) ih by blast
  ultimately show ?case using ih by simp
qed simp

text \<open>
  C16. After a dispatch that failed for good, every turn of the batch that was not cancelled is finished and
  released, and every other action is as it was.
\<close>

theorem failed_dispatches_leave_nothing_behind:
  assumes "store_wf (si_store s)" "distinct batch" "set batch \<subseteq> set (owned_actions (si_store s))"
    and s': "s' = fst (release_batch batch (fst (dispatch_failed e False batch s)))"
  shows "(\<forall>r\<in>set batch. state_at s r \<noteq> SCancelled \<longrightarrow>
      r \<notin> set (owned_actions (si_store s')) \<and> state_at s' r = (if state_at s r = SCompleted then SCompleted else SFailed))
    \<and> (\<forall>q\<in>set (owned_actions (si_store s)). q \<notin> set batch \<longrightarrow>
        q \<in> set (owned_actions (si_store s')) \<and> state_at s' q = state_at s q)"
proof -
  let ?st1 = "refresh_batch batch s"
  let ?u = "filter (is_undelivered ?st1) batch"
  let ?st2 = "fst (fold (fail_action e ?u) batch (?st1, []))"
  have store: "si_store s' = fold release_finished batch ?st2"
    by (simp add: s' release_batch_def dispatch_failed_def Let_def with_store_def split_beta)
  have places: "same_places (si_store s) ?st2"
    by (rule same_places_trans [OF refresh_batch_places fold_fail_places])
  have wf: "store_wf ?st2" using assms(1) by (simp add: same_places_wf [OF places])
  have state: "object_state ?st2 q =
      (if q \<in> set batch \<and> state_at s q \<notin> set terminal_states then SFailed else state_at s q)" for q
    by (simp add: fold_fail_state refresh_batch_state)
  have sub: "set batch \<subseteq> set (owned_actions ?st2)"
    using assms(3) by (simp add: same_places_owned [OF places])
  note g = fold_release_gone [OF wf assms(2) sub]
  then have same: "state_at s' q = object_state ?st2 q" for q
    by (simp add: store object_state_def)
  have fin: "object_state ?st2 r \<in> {SCompleted, SFailed}
      \<and> object_state ?st2 r = (if state_at s r = SCompleted then SCompleted else SFailed)"
    if "r \<in> set batch" "state_at s r \<noteq> SCancelled" for r
    using that by (auto simp: state terminal_states_def)
  have "r \<notin> set (owned_actions (si_store s'))
      \<and> state_at s' r = (if state_at s r = SCompleted then SCompleted else SFailed)"
    if "r \<in> set batch" "state_at s r \<noteq> SCancelled" for r
    using g fin [OF that] that(1) unfolding same by (simp only: store) blast
  moreover have "q \<in> set (owned_actions (si_store s')) \<and> state_at s' q = state_at s q"
    if "q \<in> set (owned_actions (si_store s))" "q \<notin> set batch" for q
    using g that unfolding same by (simp add: store same_places_owned [OF places] state)
  ultimately show ?thesis by blast
qed

section \<open>Mutations by a client\<close>

lemma update_object_other: "q \<noteq> r \<Longrightarrow> st_objects (update_object r f st) q = st_objects st q"
  by (simp add: update_object_def)

text \<open>A command that ran ends finished and released, with its ticket gone, and touches no other action.\<close>

lemma commands_end_released:
  assumes "store_wf (si_store s)" "r \<in> set (owned_actions (si_store s))" "state_at s r = SRunning"
  shows "r \<notin> set (owned_actions (si_store (fst (end_command error r s))))"
    and "state_at (fst (end_command error r s)) r = (if error = None then SCompleted else SFailed)"
    and "q \<noteq> r \<Longrightarrow> action_at (fst (end_command error r s)) q = action_at s q"
proof -
  let ?l = "case error of None \<Rightarrow> Completed | Some e \<Rightarrow> Failed e"
  let ?settle = "case error of None \<Rightarrow> snd \<circ> settle_completed None
    | Some e \<Rightarrow> snd \<circ> settle_completed (Some e) \<circ> snd \<circ> reject_delivered e"
  let ?st = "update_ticket r ?settle (set_lifecycle r ?l (si_store s))"
  have t: "transition_session_action r ?l None (si_store s) = Inr (set_lifecycle r ?l (si_store s))"
    using assms(3) by (cases error) (simp_all add: transition_session_action_def Let_def object_state_def)
  have places: "same_places (si_store s) ?st" by (blast intro: same_places_trans)
  have wf: "store_wf ?st" using assms(1) by (simp add: same_places_wf [OF places])
  have state: "object_state ?st r = (if error = None then SCompleted else SFailed)"
    by (cases error) (simp_all add: store_simps)
  then obtain st' where rel: "release_terminal r ?st = Inr st'"
    by (auto simp: release_terminal_def Let_def object_state_def terminal_states_def split: if_splits)
  have store: "si_store (fst (end_command error r s)) = st'"
    using rel t by (cases error) (simp_all add: end_command_def Let_def with_store_def)
  have "r \<notin> set (lane_of st' d)" for d
    using store_wfD(1,2) [OF wf] by (auto simp: release_terminal_fields(3) [OF rel])
  then show "r \<notin> set (owned_actions (si_store (fst (end_command error r s))))"
    by (simp add: store set_owned_actions)
  show "state_at (fst (end_command error r s)) r = (if error = None then SCompleted else SFailed)"
    using state release_terminal_fields(1) [OF rel] by (simp add: store object_state_def)
  show "action_at (fst (end_command error r s)) q = action_at s q" if "q \<noteq> r"
    using that release_terminal_fields(1) [OF rel] by (simp add: store store_simps set_lifecycle_def update_object_other)
qed

lemma change_turn_other: "q \<noteq> r \<Longrightarrow> st_objects (change_turn r f st) q = st_objects st q"
  by (simp add: change_turn_def update_object_other)

lemma release_terminal_objects:
  "st_objects (case release_terminal r st of Inr st' \<Rightarrow> st' | Inl e \<Rightarrow> st) = st_objects st"
  by (auto dest: release_terminal_fields(1) split: sum.split)

lemma cancel_one_other: "q \<noteq> r \<Longrightarrow> action_at (snd (cancel_one prev e r (cs, s))) q = action_at s q"
  by (auto simp: cancel_one_def Let_def with_store_def change_turn_other release_terminal_objects
      update_ticket_simps(2) split: option.split)

lemma fold_cancel_one_other:
  "q \<notin> set rs \<Longrightarrow> action_at (snd (fold (cancel_one prev e) rs (cs, s))) q = action_at s q"
proof (induction rs arbitrary: cs s)
  case (Cons r rs)
  obtain cs1 s1 where s1: "cancel_one prev e r (cs, s) = (cs1, s1)" by fastforce
  with Cons cancel_one_other [of q r prev e cs s] show ?case by simp
qed simp

lemma cancel_all_other:
  "q \<notin> set rs \<Longrightarrow> cancel_all rs st = (x, st') \<Longrightarrow> st_objects st' q = st_objects st q"
  by (induction rs arbitrary: st)
    (auto simp: set_lifecycle_def update_object_other split: sum.splits dest!: transition_ok)

lemma cancel_where_other:
  assumes "state_at s r = SQueued" "q \<noteq> r" "cancel_where ((=) r) e s = (s', fx)"
  shows "action_at s' q = action_at s q"
proof -
  let ?rs = "filter ((=) r) (clearable_actions None (si_store s))"
  obtain x st where x: "cancel_all ?rs (si_store s) = (x, st)" by fastforce
  have q: "q \<notin> set ?rs" using assms(2) by auto
  note st = cancel_all_other [OF q x]
  have "r \<notin> set (preparing_turns (si_store s))" using assms(1) by (simp add: preparing_turns_def)
  then have "drop_preparation (preparing_turns (si_store s)) ?rs st' = st'" for st'
    using last_in_set by (fastforce simp: drop_preparation_def)
  then show ?thesis
    using assms(3) st fold_cancel_one_other [OF q] x
    by (cases x) (auto simp: cancel_where_def cancel_session_actions_def remove_actions_def Let_def split_beta with_store_def)
qed

lemma resume_queued_work_store: "resume_queued_work s = (s', fx) \<Longrightarrow> si_store s' = si_store s"
  using resume_input_store schedule_pump_store unfolding resume_queued_work_def Let_def split_beta
  by (metis fst_conv)

lemma replace_item_other: "replace_item r t images s = Inr s' \<Longrightarrow> q \<noteq> r \<Longrightarrow> action_at s' q = action_at s q"
  by (auto simp: replace_item_def Let_def with_store_def change_turn_other update_object_other
      split: payload.splits option.splits if_splits)

lemma move_queued_other: "move_queued r d k st = Inr st' \<Longrightarrow> q \<noteq> r \<Longrightarrow> st_objects st' q = st_objects st q"
  using move_queued_fields(3) [of r d k st st'] by simp

lemma swap_queued_objects: "swap_queued r q st = Inr st' \<Longrightarrow> st_objects st' = st_objects st"
  using swap_queued_eq [of r q st st'] by (auto simp: store_simps)

lemma item_at_member: "item_at xs i = Some x \<Longrightarrow> x \<in> set xs"
  by (auto simp: item_at_def split: if_splits)

lemma replace_item_refusal: "replace_item r t images s \<noteq> Inl Applied"
  by (auto simp: replace_item_def Let_def split: payload.splits option.splits)

lemma replaced_and_moved_other:
  assumes "replace_item r t images s = Inr s1" "q \<noteq> r"
    and "(if same then Inr (si_store s1) else move_queued r d k (update_object r f (si_store s1))) = Inr st"
  shows "st_objects st q = action_at s q"
  using assms replace_item_other [OF assms(1,2)] move_queued_other [of r d k "update_object r f (si_store s1)" st q]
  by (auto simp: update_object_other split: if_splits)

text \<open>A mutation of the item it meant to change.\<close>

lemma mutation_of_item:
  assumes "mutate_queued_message lane index expected mutation s = (Inr status, s', fx)"
    and item: "item_at (visible_projection (si_store s)
        (queued_actions (Some (queued_message_lane_delivery_policy lane)) (si_store s))) index = Some r"
    and seen: "queued_agent_message_preview (action_at s r) = expected"
  shows "status = Applied \<Longrightarrow> q \<noteq> r \<Longrightarrow> action_at s' q = action_at s q" "status \<noteq> Applied \<Longrightarrow> s' = s \<and> fx = []"
proof -
  have queued: "state_at s r = SQueued"
    using item_at_member [OF item] by (auto simp: visible_projection_def queued_actions_def)
  show "action_at s' q = action_at s q" if "status = Applied" "q \<noteq> r"
  proof (cases mutation)
    case DeleteItem
    with assms that cancel_where_other [OF queued that(2)] show ?thesis
      by (auto simp: mutate_queued_message_def Let_def dest!: resume_queued_work_store split: prod.splits)
  next
    case (MoveItem direction)
    with assms that show ?thesis
      by (auto simp: mutate_queued_message_def Let_def with_store_def swap_queued_objects split: option.splits sum.splits)
  next
    case (ReplaceItem t images target)
    with assms that obtain s1 where s1: "replace_item r t images s = Inr s1"
      by (auto simp: mutate_queued_message_def replace_item_refusal split: sum.splits)
    with assms that ReplaceItem replaced_and_moved_other [OF s1 that(2)] show ?thesis
      by (auto simp: mutate_queued_message_def Let_def with_store_def dest!: resume_queued_work_store
          split: prod.splits sum.splits)
  qed
  show "s' = s \<and> fx = []" if "status \<noteq> Applied"
    using assms that
    by (cases mutation)
      (auto simp: mutate_queued_message_def Let_def split: prod.splits option.splits sum.splits if_splits)
qed

text \<open>
  C19. A mutation of the queue is applied only to the item that the client saw at that position, and changes no
  other action; a refused one changes nothing.
\<close>

theorem mutations_touch_only_what_was_seen:
  assumes "mutate_queued_message lane index expected mutation s = (Inr status, s', fx)"
  shows "if status = Applied then
      \<exists>r. item_at (visible_projection (si_store s)
              (queued_actions (Some (queued_message_lane_delivery_policy lane)) (si_store s))) index = Some r
        \<and> queued_agent_message_preview (action_at s r) = expected
        \<and> (\<forall>q. q \<noteq> r \<longrightarrow> action_at s' q = action_at s q)
    else s' = s \<and> fx = []"
proof -
  let ?shown = "visible_projection (si_store s) (queued_actions (Some (queued_message_lane_delivery_policy lane)) (si_store s))"
  show ?thesis
  proof (cases "item_at ?shown index")
    case None
    with assms show ?thesis by (auto simp: mutate_queued_message_def)
  next
    case (Some r)
    show ?thesis
    proof (cases "queued_agent_message_preview (action_at s r) = expected")
      case False
      with assms Some show ?thesis by (auto simp: mutate_queued_message_def)
    next
      case True
      from mutation_of_item [OF assms Some True] Some True show ?thesis by auto
    qed
  qed
qed

section \<open>Witnesses\<close>

text \<open>A session at rest with two steering prompts of a user in its queue, and a third about to be admitted.\<close>

definition sample_turn :: "action_ref \<Rightarrow> queued_action" where
  "sample_turn r =
     \<lparr>sa_id = [of_nat r], sa_source = js ''interactive'', sa_delivery = NextTurnBoundary, sa_priority = UserPriority,
      sa_wake = OnLowerBoundary,
      sa_payload = TurnPayload
        \<lparr>tp_records = [create_delivery_record [] [of_nat r] PrimaryRecord r], tp_text = js ''go'', tp_preview = None,
         pt_images = None, pt_content = None, pt_custom = None, pt_prepared = None,
         pt_policy = policy_for QueuedPolicy False False, pt_visible = True, pt_accepted = False,
         pt_accepted_before_completion = False, pt_capture = None, pt_dispatch_ended = False\<rparr>,
      sa_lifecycle = Queued, sa_queue_key = None, sa_agent_message_id = None, sa_suppress_continuation = False\<rparr>"

definition sample_input_store :: queued_store where
  "sample_input_store = the (admit_all [0, 1] (empty_store sample_turn))"

definition sample_input :: "queued_store \<Rightarrow> input_session" where
  "sample_input st =
     \<lparr>si_store = st, si_messages = (\<lambda>_. User \<lparr>um_content = Plain (js ''go''), um_time = 0\<rparr>),
      si_transcript = [], si_next_turn = [], si_digest_pending = False, si_disposed = False, si_disposing = False,
      si_admission_pauses = 0, si_work_pauses = 0, si_suspended = False, si_update_restart = False, si_epoch = 0,
      si_arrivals = 0, si_pump_requested = False, si_streaming = False, si_compacting = False, si_retrying = False,
      si_bash = False, si_refining = False, si_branching = False, si_steering_all = True, si_follow_up_all = False,
      si_forced = None\<rparr>"

lemma sample_input_admitted: "admit_all [0, 1] (empty_store sample_turn) = Some sample_input_store"
proof -
  have "\<forall>r\<in>set [0, 1]. is_queued (empty_store sample_turn) r"
    by (simp add: empty_store_def object_state_def action_state_def sample_turn_def)
  moreover have "distinct (map (\<lambda>r. sa_id (st_objects (empty_store sample_turn) r)) [0, 1])"
    by (simp add: empty_store_def sample_turn_def)
  ultimately have "\<exists>st. admit_all [0, 1] (empty_store sample_turn) = Some st"
    by (intro admit_all_defined) (simp_all add: empty_store_def)
  then show ?thesis by (auto simp: sample_input_store_def)
qed

lemma sample_input_wf: "store_wf sample_input_store"
  by (rule store_run_wf [OF admit_all_run [OF sample_input_admitted] empty_store_wf])

lemma sample_input_fields:
  "owned_actions sample_input_store = [0, 1]" "st_objects sample_input_store = sample_turn"
  by (simp_all add: sample_input_store_def admit_def enqueue_def Let_def empty_store_def sample_turn_def
      action_state_def insertion_index_def insert_at_def object_state_def store_actions_def)


theorem admissions_own_a_settled_ticket_witness:
  "\<exists>ad s' fx. admit_session_input \<lparr>ao_restore = False, ao_front = False, ao_preserve_order = False,
      ao_no_wake = False, ao_immediately_eligible = True\<rparr> 2 (sample_input sample_input_store) = (Inr ad, s', fx)
    \<and> ad_accepted ad \<and> 2 \<in> set (owned_actions (si_store s')) \<and> state_at s' 2 = SQueued"
proof -
  let ?opts = "\<lparr>ao_restore = False, ao_front = False, ao_preserve_order = False,
      ao_no_wake = False, ao_immediately_eligible = True\<rparr>"
  let ?s = "sample_input sample_input_store"
  obtain result s' fx where r: "admit_session_input ?opts 2 ?s = (result, s', fx)"
    by (metis prod_cases3)
  have "(case fst (admit_session_input ?opts 2 ?s) of Inl e \<Rightarrow> False
      | Inr ad \<Rightarrow> ad_accepted ad \<and> ad_disposition ad = AdmissionQueued)"
    by code_simp
  with r obtain ad where ad: "result = Inr ad" "ad_accepted ad" "ad_disposition ad = AdmissionQueued"
    by (auto split: sum.splits)
  have "state_at (fst (snd (admit_session_input ?opts 2 ?s))) 2 = SQueued"
    by code_simp
  moreover have "2 \<in> set (owned_actions (si_store s'))"
    using admissions_own_a_settled_ticket [OF _ r] ad sample_input_wf by (simp add: sample_input_def)
  ultimately show ?thesis using r ad by auto
qed

text \<open>The first prompt runs; the second is still on its way.\<close>

definition sample_running :: input_session where
  "sample_running = sample_input (set_lifecycle 1 Committing (set_lifecycle 0 (Running AgentTurn) sample_input_store))"

lemma sample_running_facts:
  "store_wf (si_store sample_running)" "set [0, 1] \<subseteq> set (owned_actions (si_store sample_running))"
  "state_at sample_running 0 = SRunning" "state_at sample_running 1 = SCommitting" "distinct [0, 1 :: action_ref]"
  by (simp_all add: sample_running_def sample_input_def sample_input_wf sample_input_fields store_simps)

theorem deferred_failures_strand_delivered_turns_witness:
  "\<exists>s'. s' = fst (release_batch [0, 1] (fst (dispatch_failed (js ''stopped'') True [0, 1] sample_running)))
    \<and> state_at s' 0 = SRunning \<and> 0 \<in> set (owned_actions (si_store s')) \<and> busy_for_preflight s'"
  using deferred_failures_strand_delivered_turns [OF sample_running_facts(1,5,2) _ sample_running_facts(3) refl, of "js ''stopped''"]
  by simp

theorem deferred_failures_requeue_in_place_witness:
  "\<exists>s'. s' = fst (dispatch_failed (js ''stopped'') True [0, 1] sample_running) \<and> state_at s' 1 = SQueued
    \<and> lane_of (si_store s') NextTurnBoundary = [0, 1]"
proof -
  have "is_undelivered (refresh_batch [0, 1] sample_running) 1"
    by code_simp
  moreover have "can_requeue (si_transcript sample_running) (si_store sample_running) 1"
    using sample_running_facts(4) by (simp add: can_requeue_def sample_running_def sample_input_def)
  moreover have "lane_of (si_store sample_running) NextTurnBoundary = [0, 1]"
    by code_simp
  ultimately show ?thesis
    using deferred_failures_requeue_in_place [OF sample_running_facts(5) refl, of "js ''stopped''" sample_running]
    by (simp del: lane_of.simps)
qed

theorem failed_dispatches_leave_nothing_behind_witness:
  "\<exists>s'. s' = fst (release_batch [0, 1] (fst (dispatch_failed (js ''stopped'') False [0, 1] sample_running)))
    \<and> state_at s' 0 = SFailed \<and> 1 \<notin> set (owned_actions (si_store s'))"
  using failed_dispatches_leave_nothing_behind [OF sample_running_facts(1,5,2) refl, of "js ''stopped''"]
  by (simp add: sample_running_facts(3) sample_running_facts(4) [simplified])

theorem mutations_touch_only_what_was_seen_witness:
  "\<exists>s' fx. mutate_queued_message SteeringLane 0 (js ''go'') (MoveItem 1) (sample_input sample_input_store)
      = (Inr Applied, s', fx)
    \<and> action_at s' 5 = action_at (sample_input sample_input_store) 5"
proof -
  let ?s = "sample_input sample_input_store"
  obtain result s' fx where r: "mutate_queued_message SteeringLane 0 (js ''go'') (MoveItem 1) ?s = (result, s', fx)"
    by (metis prod_cases3)
  have "fst (mutate_queued_message SteeringLane 0 (js ''go'') (MoveItem 1) ?s) = Inr Applied"
    by code_simp
  with r have result: "result = Inr Applied" by simp
  have "item_at (visible_projection (si_store ?s) (queued_actions (Some NextTurnBoundary) (si_store ?s))) 0 = Some 0"
    by code_simp
  then show ?thesis
    using mutations_touch_only_what_was_seen [OF r [unfolded result]] r result by simp
qed

end
