(* ===== verification/Autonomous.thy ===== *)
theory Autonomous
  imports Messages SlashCommands "HOL-Library.AList" "HOL-Library.List_Lexorder"
begin

text \<open>
  The autonomous mode of a session (coding-agent/src/core/autonomous.ts), its slash command and the
  handlers of agent-session.ts that hold, resume and keep alive a continuation while child agents run,
  and the loop of a headless run (modes/headless-completion.ts). Processes, the hash of untracked files
  and the abort signal are functions on a world (\<open>gate_world\<close>); a counter or a limit is an integer,
  a number that comes from a configuration may be any JavaScript number.
\<close>

section \<open>Configuration and state\<close>

type_synonym limit_value = "rat jsnum option"

record autonomous_limits =
  lm_continuations :: int
  lm_turns :: int
  lm_tokens :: int
  lm_timeout :: int

record gate_options =
  go_commands :: "jstring list option"
  go_retries :: limit_value
  go_timeout :: limit_value

record gate_config =
  gc_commands :: "jstring list"
  gc_retries :: int
  gc_timeout :: int

record autonomous_config =
  ac_enabled :: "bool option"
  ac_continuations :: limit_value
  ac_turns :: limit_value
  ac_tokens :: limit_value
  ac_timeout :: limit_value
  ac_prompt :: "jstring option"
  ac_gates :: "gate_options option"
  ac_keep_alive :: limit_value

definition no_config :: autonomous_config where
  "no_config = \<lparr>ac_enabled = None, ac_continuations = None, ac_turns = None, ac_tokens = None, ac_timeout = None,
     ac_prompt = None, ac_gates = None, ac_keep_alive = None\<rparr>"

definition no_gate_options :: gate_options where
  "no_gate_options = \<lparr>go_commands = None, go_retries = None, go_timeout = None\<rparr>"

record gate_failure =
  gf_command :: jstring
  gf_attempt :: int
  gf_exit :: jstring
  gf_output :: jstring

record worktree_snapshot =
  ws_status :: jstring
  ws_diff :: jstring
  ws_untracked :: jstring

record autonomous_state =
  au_enabled :: bool
  au_continuations :: int
  au_turns :: int
  au_tokens :: int
  au_started :: "int option"
  au_limits :: autonomous_limits
  au_prompt :: jstring
  au_gates :: gate_config
  au_attempts :: "(jstring \<times> int) list"
  au_failure :: "gate_failure option"
  au_snapshot :: "worktree_snapshot option"
  au_keep_alive :: int

definition default_continuation_prompt :: jstring where
  "default_continuation_prompt = js ''No human input is available in autonomous mode. Continue working until the host evaluator, verifier, or configured autonomous limits stop the run. If you were asking the user a question, make a reasonable assumption and verify it. If you believe you are blocked, prove it with host-observable evidence, preserve that evidence, and keep looking for safe progress while budget remains. Do not end the session yourself; the verifier/evaluator decides completion when configured gates pass.''"

definition default_limits :: autonomous_limits where
  "default_limits = \<lparr>lm_continuations = 3, lm_turns = 12, lm_tokens = 80000, lm_timeout = 30 * 60 * 1000\<rparr>"

definition default_gates :: gate_config where
  "default_gates = \<lparr>gc_commands = [], gc_retries = 3, gc_timeout = 5 * 60 * 1000\<rparr>"

definition default_keep_alive :: int where
  "default_keep_alive = 25 * 60 * 1000"

definition max_keep_alive :: int where
  "max_keep_alive = 2147483647"

definition unlimited_limit :: int where
  "unlimited_limit = 2 ^ 53 - 1"

definition is_unlimited_limit :: "int \<Rightarrow> bool" where
  "is_unlimited_limit v \<longleftrightarrow> unlimited_limit \<le> v"

definition normalize_limit :: "limit_value \<Rightarrow> int \<Rightarrow> int" where
  "normalize_limit v fallback = (case v of Some (Fin x) \<Rightarrow> if x \<le> 0 then fallback else \<lfloor>x\<rfloor> | _ \<Rightarrow> fallback)"

definition normalize_keep_alive :: "limit_value \<Rightarrow> int" where
  "normalize_keep_alive v =
     (if v = Some (Fin 0) then 0 else min (normalize_limit v default_keep_alive) max_keep_alive)"

text \<open>The limits of the settings file, which lie between the explicit configuration and the defaults.\<close>

datatype limit_setting = UnlimitedSetting | NumberSetting "rat jsnum"

definition resolve_limit_setting :: "limit_setting option \<Rightarrow> int option" where
  "resolve_limit_setting v =
     (case v of
        Some UnlimitedSetting \<Rightarrow> Some unlimited_limit
      | Some (NumberSetting (Fin x)) \<Rightarrow>
          (let t = (if x < 0 then \<lceil>x\<rceil> else \<lfloor>x\<rfloor>) in if 0 < t then Some t else None)
      | _ \<Rightarrow> None)"

record limit_defaults =
  ld_continuations :: "int option"
  ld_turns :: "int option"
  ld_tokens :: "int option"
  ld_timeout :: "int option"

definition or_else :: "'a option \<Rightarrow> 'a \<Rightarrow> 'a" where
  "or_else v d = (case v of Some x \<Rightarrow> x | None \<Rightarrow> d)"

lemma or_else_simps [simp]: "or_else (Some x) d = x" "or_else None d = d"
  by (simp_all add: or_else_def)

definition trimmed_prompt :: "jstring option \<Rightarrow> jstring option" where
  "trimmed_prompt p = (case p of Some s \<Rightarrow> if js_trim s = [] then None else Some (js_trim s) | None \<Rightarrow> None)"

definition create_autonomous_state :: "autonomous_config option \<Rightarrow> limit_defaults \<Rightarrow> int \<Rightarrow> autonomous_state" where
  "create_autonomous_state config defaults now =
     (let c = or_else config no_config; g = or_else (ac_gates c) no_gate_options; enabled = (ac_enabled c = Some True) in
      \<lparr>au_enabled = enabled, au_continuations = 0, au_turns = 0, au_tokens = 0,
       au_started = (if enabled then Some now else None),
       au_limits =
         \<lparr>lm_continuations = normalize_limit (ac_continuations c) (or_else (ld_continuations defaults) (lm_continuations default_limits)),
          lm_turns = normalize_limit (ac_turns c) (or_else (ld_turns defaults) (lm_turns default_limits)),
          lm_tokens = normalize_limit (ac_tokens c) (or_else (ld_tokens defaults) (lm_tokens default_limits)),
          lm_timeout = normalize_limit (ac_timeout c) (or_else (ld_timeout defaults) (lm_timeout default_limits))\<rparr>,
       au_prompt = or_else (trimmed_prompt (ac_prompt c)) default_continuation_prompt,
       au_gates =
         \<lparr>gc_commands = or_else (go_commands g) (gc_commands default_gates),
          gc_retries = normalize_limit (go_retries g) (gc_retries default_gates),
          gc_timeout = normalize_limit (go_timeout g) (gc_timeout default_gates)\<rparr>,
       au_attempts = [], au_failure = None, au_snapshot = None,
       au_keep_alive = normalize_keep_alive (ac_keep_alive c)\<rparr>)"

definition set_autonomous_enabled :: "bool \<Rightarrow> int \<Rightarrow> autonomous_state \<Rightarrow> autonomous_state" where
  "set_autonomous_enabled enabled now st =
     (if enabled
      then st\<lparr>au_enabled := True, au_continuations := 0, au_turns := 0, au_tokens := 0, au_started := Some now,
              au_attempts := [], au_failure := None, au_snapshot := None\<rparr>
      else st\<lparr>au_enabled := False, au_started := None, au_attempts := [], au_failure := None, au_snapshot := None\<rparr>)"

definition set_autonomous_limits :: "autonomous_config option \<Rightarrow> autonomous_state \<Rightarrow> autonomous_state" where
  "set_autonomous_limits config st =
     (case config of
        None \<Rightarrow> st
      | Some c \<Rightarrow>
          let l = au_limits st; g = au_gates st in
          st\<lparr>au_limits :=
               \<lparr>lm_continuations = normalize_limit (ac_continuations c) (lm_continuations l),
                lm_turns = normalize_limit (ac_turns c) (lm_turns l),
                lm_tokens = normalize_limit (ac_tokens c) (lm_tokens l),
                lm_timeout = normalize_limit (ac_timeout c) (lm_timeout l)\<rparr>,
             au_prompt := or_else (trimmed_prompt (ac_prompt c)) (au_prompt st),
             au_gates := (case ac_gates c of
                 None \<Rightarrow> g
               | Some o' \<Rightarrow> \<lparr>gc_commands = or_else (go_commands o') (gc_commands g),
                   gc_retries = normalize_limit (go_retries o') (gc_retries g),
                   gc_timeout = normalize_limit (go_timeout o') (gc_timeout g)\<rparr>),
             au_keep_alive := (case ac_keep_alive c of None \<Rightarrow> au_keep_alive st | v \<Rightarrow> normalize_keep_alive v)\<rparr>)"

definition autonomous_token_delta :: "usage option \<Rightarrow> int" where
  "autonomous_token_delta u =
     (case u of None \<Rightarrow> 0 | Some x \<Rightarrow> usage_input x + usage_output x + usage_cache_write x)"

definition add_autonomous_usage :: "usage option \<Rightarrow> autonomous_state \<Rightarrow> autonomous_state" where
  "add_autonomous_usage u st =
     (if au_enabled st
      then st\<lparr>au_turns := au_turns st + 1, au_tokens := au_tokens st + autonomous_token_delta u\<rparr> else st)"

definition add_autonomous_continuation :: "autonomous_state \<Rightarrow> autonomous_state" where
  "add_autonomous_continuation st =
     (if au_enabled st then st\<lparr>au_continuations := au_continuations st + 1\<rparr> else st)"

datatype limit_reason = ContinuationLimit | TurnLimit | TokenLimit | TimeLimit

definition autonomous_limit_reason :: "autonomous_state \<Rightarrow> int \<Rightarrow> limit_reason option" where
  "autonomous_limit_reason st now =
     (if lm_continuations (au_limits st) \<le> au_continuations st then Some ContinuationLimit
      else if lm_turns (au_limits st) \<le> au_turns st then Some TurnLimit
      else if lm_tokens (au_limits st) \<le> au_tokens st then Some TokenLimit
      else case au_started st of
        Some t \<Rightarrow> if lm_timeout (au_limits st) \<le> now - t then Some TimeLimit else None
      | None \<Rightarrow> None)"

section \<open>Gate commands\<close>

text \<open>What a child process printed, chunk by chunk: each stream up to a limit.\<close>

datatype output_chunk = OutChunk jstring | ErrChunk jstring

record collected =
  co_out :: jstring
  co_err :: jstring
  co_truncated :: bool

definition append_chunk :: "nat \<Rightarrow> jstring \<Rightarrow> jstring \<Rightarrow> jstring \<times> bool" where
  "append_chunk max_chars chunk s =
     (let remaining = int max_chars - int (length s) in
      (if 0 < remaining then s @ take (nat remaining) chunk else s, int (length chunk) > remaining))"

fun collect_chunk :: "nat \<Rightarrow> output_chunk \<Rightarrow> collected \<Rightarrow> collected" where
  "collect_chunk max_chars (OutChunk chunk) c =
     (let (s, cut) = append_chunk max_chars chunk (co_out c) in c\<lparr>co_out := s, co_truncated := co_truncated c \<or> cut\<rparr>)"
| "collect_chunk max_chars (ErrChunk chunk) c =
     (let (s, cut) = append_chunk max_chars chunk (co_err c) in c\<lparr>co_err := s, co_truncated := co_truncated c \<or> cut\<rparr>)"

definition collect_output :: "nat \<Rightarrow> output_chunk list \<Rightarrow> collected" where
  "collect_output max_chars chunks =
     fold (collect_chunk max_chars) chunks \<lparr>co_out = [], co_err = [], co_truncated = False\<rparr>"

record process_result =
  pr_status :: "int option"
  pr_signal :: "jstring option"
  pr_stdout :: jstring
  pr_stderr :: jstring
  pr_error :: "jstring option"
  pr_timed_out :: bool
  pr_truncated :: bool

datatype process_call = ShellCommand jstring int | GitStatus | GitDiff

record 'w gate_world =
  gw_run :: "process_call \<Rightarrow> 'w \<Rightarrow> process_result \<times> 'w"
  gw_hash :: "jstring list \<Rightarrow> 'w \<Rightarrow> jstring \<times> 'w"
  gw_aborted :: "'w \<Rightarrow> bool"

definition max_gate_output :: nat where
  "max_gate_output = 6000"

definition truncate_gate_output :: "jstring \<Rightarrow> bool \<Rightarrow> jstring" where
  "truncate_gate_output s already =
     (if length s \<le> max_gate_output \<and> \<not> already then s
      else take max_gate_output s @ 10 # js ''... [truncated]'')"

definition format_process_exit :: "process_result \<Rightarrow> jstring" where
  "format_process_exit r =
     (if pr_timed_out r then js ''timed out''
      else case pr_error r of
        Some e \<Rightarrow> e
      | None \<Rightarrow>
          (case pr_signal r of
             Some s \<Rightarrow> js ''terminated by '' @ s
           | None \<Rightarrow> js ''exited '' @ (case pr_status r of Some n \<Rightarrow> dec_int n | None \<Rightarrow> js ''unknown'')))"

definition gate_output :: "process_result \<Rightarrow> jstring" where
  "gate_output r =
     truncate_gate_output (js_trim (join_with [10] (filter (\<lambda>s. s \<noteq> []) [pr_stdout r, pr_stderr r]))) (pr_truncated r)"

definition untracked_paths :: "jstring \<Rightarrow> jstring list" where
  "untracked_paths status =
     sort (map (drop 3) (filter (\<lambda>entry. take 3 entry = js ''?? '') (split_on 0 status)))"

definition git_failed :: "process_result \<Rightarrow> bool" where
  "git_failed r \<longleftrightarrow> pr_status r \<noteq> Some 0 \<or> pr_error r \<noteq> None \<or> pr_timed_out r \<or> pr_truncated r"

definition capture_snapshot :: "'w gate_world \<Rightarrow> 'w \<Rightarrow> worktree_snapshot option attempt \<times> 'w" where
  "capture_snapshot h w =
     (if gw_aborted h w then (Threw, w)
      else let (status, w1) = gw_run h GitStatus w in
        if gw_aborted h w1 then (Threw, w1)
        else if git_failed status then (Got None, w1)
        else let (diff, w2) = gw_run h GitDiff w1 in
          if gw_aborted h w2 then (Threw, w2)
          else if git_failed diff then (Got None, w2)
          else let (hash, w3) = gw_hash h (untracked_paths (pr_stdout status)) w2 in
            if gw_aborted h w3 then (Threw, w3)
            else (Got (Some \<lparr>ws_status = pr_stdout status, ws_diff = pr_stdout diff, ws_untracked = hash\<rparr>), w3))"

datatype gate_result = GatesPassed | GateFailed | RetryExhausted

definition gate_unchanged :: "jstring \<Rightarrow> worktree_snapshot option \<Rightarrow> autonomous_state \<Rightarrow> bool" where
  "gate_unchanged command current st \<longleftrightarrow>
     (case au_failure st of Some f \<Rightarrow> gf_command f = command | None \<Rightarrow> False)
     \<and> au_snapshot st \<noteq> None \<and> current = au_snapshot st"

definition note_unchanged :: "jstring \<Rightarrow> autonomous_state \<Rightarrow> autonomous_state" where
  "note_unchanged command st =
     (case au_failure st of
        None \<Rightarrow> st
      | Some f \<Rightarrow>
          let attempt = or_else (map_of (au_attempts st) command) (gf_attempt f) + 1 in
          st\<lparr>au_attempts := AList.update command attempt (au_attempts st),
             au_failure := Some (f\<lparr>gf_attempt := attempt,
               gf_exit := js ''not rerun: workspace unchanged since previous failed gate'',
               gf_output := js ''The autonomous gate was not rerun because the workspace has not changed since this failure. Edit source files, tests, or a blocker artifact before attempting to finish again.''\<rparr>)\<rparr>)"

definition note_passed :: "jstring \<Rightarrow> autonomous_state \<Rightarrow> autonomous_state" where
  "note_passed command st =
     (let st1 = st\<lparr>au_attempts := AList.update command 0 (au_attempts st)\<rparr> in
      if (case au_failure st of Some f \<Rightarrow> gf_command f = command | None \<Rightarrow> False)
      then st1\<lparr>au_failure := None, au_snapshot := None\<rparr> else st1)"

definition note_failed ::
    "jstring \<Rightarrow> process_result \<Rightarrow> worktree_snapshot option \<Rightarrow> autonomous_state \<Rightarrow> autonomous_state" where
  "note_failed command r post st =
     (let attempt = or_else (map_of (au_attempts st) command) 0 + 1 in
      st\<lparr>au_attempts := AList.update command attempt (au_attempts st),
         au_failure := Some \<lparr>gf_command = command, gf_attempt = attempt, gf_exit = format_process_exit r,
           gf_output = gate_output r\<rparr>,
         au_snapshot := post\<rparr>)"

definition gate_verdict :: "jstring \<Rightarrow> autonomous_state \<Rightarrow> gate_result" where
  "gate_verdict command st =
     (if gc_retries (au_gates st) < or_else (map_of (au_attempts st) command) 0 then RetryExhausted else GateFailed)"

fun run_gates ::
    "'w gate_world \<Rightarrow> jstring list \<Rightarrow> autonomous_state \<Rightarrow> 'w \<Rightarrow> gate_result attempt \<times> autonomous_state \<times> 'w" where
  "run_gates h [] st w = (Got GatesPassed, st\<lparr>au_failure := None, au_snapshot := None\<rparr>, w)"
| "run_gates h (command # commands) st w =
     (case capture_snapshot h w of
        (Threw, w1) \<Rightarrow> (Threw, st, w1)
      | (Got current, w1) \<Rightarrow>
          if gate_unchanged command current st
          then (Got (gate_verdict command (note_unchanged command st)), note_unchanged command st, w1)
          else let (r, w2) = gw_run h (ShellCommand command (gc_timeout (au_gates st))) w1 in
            if gw_aborted h w2 then (Threw, st, w2)
            else (case capture_snapshot h w2 of
                (Threw, w3) \<Rightarrow> (Threw, st, w3)
              | (Got post, w3) \<Rightarrow>
                  if pr_status r = Some 0 \<and> pr_error r = None \<and> \<not> pr_timed_out r
                  then run_gates h commands (note_passed command st) w3
                  else (Got (gate_verdict command (note_failed command r post st)), note_failed command r post st, w3)))"

definition run_quality_gates ::
    "'w gate_world \<Rightarrow> jstring option \<Rightarrow> autonomous_state \<Rightarrow> 'w \<Rightarrow> gate_result attempt \<times> autonomous_state \<times> 'w" where
  "run_quality_gates h cwd st w =
     (if gw_aborted h w then (Threw, st, w)
      else if cwd = None \<or> cwd = Some [] then (Got GateFailed, st, w)
      else run_gates h (gc_commands (au_gates st)) st w)"

definition refresh_quality_gates ::
    "'w gate_world \<Rightarrow> jstring option \<Rightarrow> autonomous_state \<Rightarrow> 'w
     \<Rightarrow> gate_result option attempt \<times> autonomous_state \<times> 'w" where
  "refresh_quality_gates h cwd st w =
     (if gw_aborted h w then (Threw, st, w)
      else if \<not> au_enabled st \<or> gc_commands (au_gates st) = [] then (Got None, st, w)
      else case run_quality_gates h cwd st w of
        (Threw, st', w') \<Rightarrow> (Threw, st', w')
      | (Got r, st', w') \<Rightarrow> (Got (Some r), st', w'))"

section \<open>Continuations\<close>

definition user_text :: "jstring \<Rightarrow> int \<Rightarrow> user_message" where
  "user_text s time = \<lparr>um_content = Parts [TextPart s None], um_time = time\<rparr>"

definition continuation_message :: "autonomous_state \<Rightarrow> int \<Rightarrow> user_message" where
  "continuation_message st time = user_text (js ''[autonomous-continuation]'' @ [10, 10] @ au_prompt st) time"

text \<open>\<open>stamp\<close> prints a time as \<open>Date.toISOString\<close> does.\<close>

definition gate_failure_text :: "(int \<Rightarrow> jstring) \<Rightarrow> gate_failure \<Rightarrow> int \<Rightarrow> int \<Rightarrow> jstring" where
  "gate_failure_text stamp f max_retries time =
     js ''[autonomous-continuation: gate-failed]'' @ [10, 10]
     @ js ''Autonomous quality gate failed (attempt '' @ dec_int (gf_attempt f) @ js ''/'' @ dec_int max_retries
     @ js ''): '' @ 96 # gf_command f @ 96 # js '' '' @ gf_exit f @ js ''.'' @ [10]
     @ (if gf_output f \<noteq> [] then 10 # js ''Output:'' @ 10 # gf_output f @ [10] else [10])
     @ 10 # js ''Continue working. Fix the failure, then produce terminal evidence. Timestamp: '' @ stamp time @ js ''.''"

definition gate_failure_message :: "(int \<Rightarrow> jstring) \<Rightarrow> autonomous_state \<Rightarrow> int \<Rightarrow> user_message option" where
  "gate_failure_message stamp st time =
     map_option (\<lambda>f. user_text (gate_failure_text stamp f (gc_retries (au_gates st)) time) time) (au_failure st)"

definition keep_alive_message :: "autonomous_state \<Rightarrow> int \<Rightarrow> user_message" where
  "keep_alive_message st time =
     (let minutes = max 1 ((2 * au_keep_alive st + 60000) div 120000) in
      user_text
        (js ''[autonomous-continuation: subagent-keep-alive]'' @ [10, 10]
         @ js ''Subagents have been running for at least '' @ dec_int minutes @ js '' minute''
         @ (if minutes = 1 then [] else js ''s'')
         @ js '' without a reply or exit being delivered. Check their status (for example agent_observe, ''
         @ js ''rlm.list_subagents, or process inspection) and cancel or unblock any that are hung; ''
         @ js ''then continue working.'') time)"

datatype continue_reason = MissingEvidence | FailedGate | NotNeeded | LimitReached

definition should_continue ::
    "'w gate_world \<Rightarrow> jstring option \<Rightarrow> assistant_message \<Rightarrow> int \<Rightarrow> autonomous_state \<Rightarrow> 'w
     \<Rightarrow> (bool \<times> continue_reason) attempt \<times> autonomous_state \<times> 'w" where
  "should_continue h cwd m now st w =
     (if gw_aborted h w then (Threw, st, w)
      else if \<not> au_enabled st \<or> am_stop m = ErrorStop \<or> am_stop m = Aborted then (Got (False, NotNeeded), st, w)
      else case refresh_quality_gates h cwd st w of
        (Threw, st1, w1) \<Rightarrow> (Threw, st1, w1)
      | (Got result, st1, w1) \<Rightarrow>
          if gw_aborted h w1 then (Threw, st1, w1)
          else (Got
            (case result of
               Some GatesPassed \<Rightarrow> (False, NotNeeded)
             | Some RetryExhausted \<Rightarrow> (False, LimitReached)
             | Some GateFailed \<Rightarrow>
                 if autonomous_limit_reason st1 now \<noteq> None then (False, LimitReached) else (True, FailedGate)
             | None \<Rightarrow>
                 if autonomous_limit_reason st1 now \<noteq> None then (False, LimitReached) else (True, MissingEvidence)),
            st1, w1))"

definition message_for :: "(int \<Rightarrow> jstring) \<Rightarrow> continue_reason \<Rightarrow> autonomous_state \<Rightarrow> int \<Rightarrow> user_message" where
  "message_for stamp reason st now =
     or_else (if reason = FailedGate then gate_failure_message stamp st now else None) (continuation_message st now)"

definition next_continuation ::
    "'w gate_world \<Rightarrow> (int \<Rightarrow> jstring) \<Rightarrow> jstring option \<Rightarrow> assistant_message \<Rightarrow> int \<Rightarrow> autonomous_state \<Rightarrow> 'w
     \<Rightarrow> user_message option attempt \<times> autonomous_state \<times> 'w" where
  "next_continuation h stamp cwd m now st w =
     (if gw_aborted h w then (Threw, st, w)
      else if \<not> au_enabled st then (Got None, st, w)
      else case should_continue h cwd m now st w of
        (Threw, st1, w1) \<Rightarrow> (Threw, st1, w1)
      | (Got (goes_on, reason), st1, w1) \<Rightarrow>
          if gw_aborted h w1 then (Threw, st1, w1)
          else if \<not> goes_on then (Got None, st1, w1)
          else let st2 = st1\<lparr>au_continuations := au_continuations st1 + 1\<rparr> in (Got (Some (message_for stamp reason st2 now)), st2, w1))"

section \<open>The slash command\<close>

definition budget_flags :: "jstring list" where
  "budget_flags = [js ''max-continuations'', js ''max-turns'', js ''max-tokens'', js ''timeout-ms'', js ''gate'',
     js ''gate-retries'', js ''gate-timeout-ms'', js ''subagent-keep-alive-ms'']"

datatype budget_failure =
    UnexpectedArgument jstring | UnknownFlag jstring | MissingValue jstring
  | NotPositive jstring | BadKeepAlive | UnknownSubcommand

definition strip_separators :: "jstring \<Rightarrow> jstring" where
  "strip_separators v = filter (\<lambda>u. u \<noteq> 44 \<and> u \<noteq> 95) v"

definition positive_digits :: "jstring \<Rightarrow> bool" where
  "positive_digits s \<longleftrightarrow> s \<noteq> [] \<and> hd s \<noteq> 48 \<and> list_all is_digit s"

definition parse_keep_alive :: "jstring \<Rightarrow> budget_failure + rat jsnum" where
  "parse_keep_alive v =
     (let digits = strip_separators v in
      if (digits = js ''0'' \<or> positive_digits digits) \<and> int (digits_value digits) \<le> max_keep_alive
      then Inr (Fin (of_nat (digits_value digits))) else Inl BadKeepAlive)"

definition parse_budget_int :: "jstring \<Rightarrow> bool \<Rightarrow> jstring \<Rightarrow> budget_failure + rat jsnum" where
  "parse_budget_int flag allow_unlimited v =
     (if allow_unlimited \<and> js_lower v = js ''unlimited'' then Inr (Fin (of_int unlimited_limit))
      else let digits = strip_separators v in
        if positive_digits digits then Inr (finite_number (of_nat (digits_value digits))) else Inl (NotPositive flag))"

text \<open>A token up to its equals sign, and what follows it.\<close>

definition split_flag :: "jstring \<Rightarrow> jstring \<times> jstring option" where
  "split_flag token =
     (takeWhile (\<lambda>u. u \<noteq> 61) token,
      case dropWhile (\<lambda>u. u \<noteq> 61) token of [] \<Rightarrow> None | _ # v \<Rightarrow> Some v)"

definition flag_name :: "jstring \<Rightarrow> jstring" where
  "flag_name raw = (if take 13 raw = js ''--autonomous-'' then drop 13 raw else drop 2 raw)"

definition map_gates :: "(gate_options \<Rightarrow> gate_options) \<Rightarrow> autonomous_config \<Rightarrow> autonomous_config" where
  "map_gates f c = c\<lparr>ac_gates := Some (f (or_else (ac_gates c) no_gate_options))\<rparr>"

text \<open>One option, into the configuration and the gate commands read so far.\<close>

definition apply_option ::
    "jstring \<Rightarrow> jstring \<Rightarrow> autonomous_config \<times> jstring list \<Rightarrow> budget_failure + autonomous_config \<times> jstring list" where
  "apply_option flag v acc =
     (let (c, gates) = acc;
          number = (\<lambda>allow f. case parse_budget_int flag allow v of Inl e \<Rightarrow> Inl e | Inr n \<Rightarrow> Inr (f n, gates)) in
      if flag = js ''gate'' then Inr (c, gates @ [v])
      else if flag = js ''gate-retries'' then number False (\<lambda>n. map_gates (\<lambda>g. g\<lparr>go_retries := Some n\<rparr>) c)
      else if flag = js ''gate-timeout-ms'' then number False (\<lambda>n. map_gates (\<lambda>g. g\<lparr>go_timeout := Some n\<rparr>) c)
      else if flag = js ''max-continuations'' then number True (\<lambda>n. c\<lparr>ac_continuations := Some n\<rparr>)
      else if flag = js ''max-turns'' then number True (\<lambda>n. c\<lparr>ac_turns := Some n\<rparr>)
      else if flag = js ''max-tokens'' then number True (\<lambda>n. c\<lparr>ac_tokens := Some n\<rparr>)
      else if flag = js ''timeout-ms'' then number True (\<lambda>n. c\<lparr>ac_timeout := Some n\<rparr>)
      else if flag = js ''subagent-keep-alive-ms''
      then (case parse_keep_alive v of Inl e \<Rightarrow> Inl e | Inr n \<Rightarrow> Inr (c\<lparr>ac_keep_alive := Some n\<rparr>, gates))
      else Inr acc)"

definition read_option ::
    "jstring \<Rightarrow> jstring \<Rightarrow> jstring \<Rightarrow> autonomous_config \<times> jstring list
     \<Rightarrow> budget_failure + autonomous_config \<times> jstring list" where
  "read_option raw flag v acc = (if v = [] then Inl (MissingValue raw) else apply_option flag v acc)"

fun read_options ::
    "jstring list \<Rightarrow> autonomous_config \<times> jstring list \<Rightarrow> budget_failure + autonomous_config \<times> jstring list" where
  "read_options [] acc = Inr acc"
| "read_options (token # rest) acc =
     (if take 2 token \<noteq> js ''--'' then Inl (UnexpectedArgument token)
      else if flag_name (fst (split_flag token)) \<notin> set budget_flags then Inl (UnknownFlag (fst (split_flag token)))
      else case snd (split_flag token) of
        Some v \<Rightarrow>
          (case read_option (fst (split_flag token)) (flag_name (fst (split_flag token))) v acc of
             Inl e \<Rightarrow> Inl e | Inr acc' \<Rightarrow> read_options rest acc')
      | None \<Rightarrow>
          (case rest of
             [] \<Rightarrow> Inl (MissingValue (fst (split_flag token)))
           | v # rest' \<Rightarrow>
               if take 2 v = js ''--'' then Inl (MissingValue (fst (split_flag token)))
               else (case read_option (fst (split_flag token)) (flag_name (fst (split_flag token))) v acc of
                       Inl e \<Rightarrow> Inl e | Inr acc' \<Rightarrow> read_options rest' acc')))"

text \<open>One named limit takes the others off.\<close>

definition name_whole_budget :: "autonomous_config \<Rightarrow> autonomous_config" where
  "name_whole_budget c =
     (let or_unlimited = (\<lambda>v. Some (or_else v (Fin (of_int unlimited_limit)))) in
      if ac_continuations c \<noteq> None \<or> ac_turns c \<noteq> None \<or> ac_tokens c \<noteq> None \<or> ac_timeout c \<noteq> None
      then c\<lparr>ac_continuations := or_unlimited (ac_continuations c), ac_turns := or_unlimited (ac_turns c),
             ac_tokens := or_unlimited (ac_tokens c), ac_timeout := or_unlimited (ac_timeout c)\<rparr>
      else c)"

definition parse_budget_options :: "jstring list \<Rightarrow> budget_failure + autonomous_config" where
  "parse_budget_options tokens =
     (case read_options tokens (no_config, []) of
        Inl e \<Rightarrow> Inl e
      | Inr (c, gates) \<Rightarrow>
          Inr (name_whole_budget (if gates = [] then c else map_gates (\<lambda>g. g\<lparr>go_commands := Some gates\<rparr>) c)))"

datatype autonomous_command = ShowStatus | TurnOn autonomous_config | TurnOff

definition parse_autonomous_command :: "jstring \<Rightarrow> budget_failure + autonomous_command option" where
  "parse_autonomous_command text =
     (case parse_session_slash_command text of
        None \<Rightarrow> Inr None
      | Some command \<Rightarrow>
          if sc_name command \<noteq> js ''autonomous'' then Inr None
          else
            let tokens = parse_command_args (sc_args command); sub = (case tokens of [] \<Rightarrow> [] | t # _ \<Rightarrow> js_lower t);
                alone = (\<lambda>c. if length tokens > 1 then Inl (UnexpectedArgument (tokens ! 1)) else Inr (Some c)) in
            if tokens = [] \<or> sub = js ''status'' then alone ShowStatus
            else if sub \<in> {js ''on'', js ''enable'', js ''enabled''}
            then (case parse_budget_options (tl tokens) of Inl e \<Rightarrow> Inl e | Inr c \<Rightarrow> Inr (Some (TurnOn c)))
            else if sub \<in> {js ''off'', js ''disable'', js ''disabled''} then alone TurnOff
            else Inl UnknownSubcommand)"

section \<open>The session\<close>

text \<open>
  \<open>as_timer\<close> is the window of the armed keep-alive timer. The surroundings are what the handlers ask the
  rest of the session; \<open>sr_admits\<close> tells whether an admission goes through or throws.
\<close>

record autonomous_session =
  as_state :: autonomous_state
  as_awaits :: bool
  as_timer :: "int option"

record surroundings =
  sr_closed :: bool
  sr_goal_owns :: bool
  sr_children_busy :: bool
  sr_paused :: bool
  sr_admits :: bool

definition on_state :: "(autonomous_state \<Rightarrow> autonomous_state) \<Rightarrow> autonomous_session \<Rightarrow> autonomous_session" where
  "on_state f s = s\<lparr>as_state := f (as_state s)\<rparr>"

definition arm_keep_alive :: "autonomous_session \<Rightarrow> autonomous_session" where
  "arm_keep_alive s =
     (if as_timer s \<noteq> None \<or> au_keep_alive (as_state s) \<le> 0 then s else s\<lparr>as_timer := Some (au_keep_alive (as_state s))\<rparr>)"

definition disarm_keep_alive :: "autonomous_session \<Rightarrow> autonomous_session" where
  "disarm_keep_alive s = s\<lparr>as_timer := None\<rparr>"

definition clear_await :: "autonomous_session \<Rightarrow> autonomous_session" where
  "clear_await s = disarm_keep_alive (s\<lparr>as_awaits := False\<rparr>)"

text \<open>\<open>ShowStatus\<close> only prints.\<close>

fun handle_autonomous_command :: "autonomous_command \<Rightarrow> int \<Rightarrow> autonomous_session \<Rightarrow> autonomous_session" where
  "handle_autonomous_command ShowStatus now s = s"
| "handle_autonomous_command (TurnOn config) now s =
     (let s1 = disarm_keep_alive (on_state (set_autonomous_limits (Some config) \<circ> set_autonomous_enabled True now) s)
      in if as_awaits s1 then arm_keep_alive s1 else s1)"
| "handle_autonomous_command TurnOff now s = clear_await (on_state (set_autonomous_enabled False now) s)"

definition hold_for_children :: "surroundings \<Rightarrow> assistant_message \<Rightarrow> int \<Rightarrow> autonomous_session \<Rightarrow> bool \<times> autonomous_session" where
  "hold_for_children env m now s =
     (if \<not> au_enabled (as_state s) \<or> am_stop m = ErrorStop \<or> am_stop m = Aborted then (False, s)
      else if autonomous_limit_reason (as_state s) now \<noteq> None then (False, s)
      else if \<not> sr_children_busy env then (False, s)
      else if sr_goal_owns env then (True, clear_await s)
      else (True, arm_keep_alive (s\<lparr>as_awaits := True\<rparr>)))"

definition restore_counts :: "autonomous_state \<Rightarrow> autonomous_state \<Rightarrow> autonomous_state" where
  "restore_counts old st =
     st\<lparr>au_continuations := au_continuations old, au_attempts := au_attempts old, au_failure := au_failure old,
        au_snapshot := au_snapshot old\<rparr>"

text \<open>
  The hook of the loop, after the goal had nothing to add: \<open>arrived\<close> tells whether input arrived while the
  gates ran. A throw keeps what the gates wrote.
\<close>

definition autonomous_hook ::
    "'w gate_world \<Rightarrow> (int \<Rightarrow> jstring) \<Rightarrow> jstring option \<Rightarrow> surroundings \<Rightarrow> bool \<Rightarrow> bool \<Rightarrow> assistant_message \<Rightarrow> int
     \<Rightarrow> autonomous_session \<Rightarrow> 'w \<Rightarrow> user_message list attempt \<times> autonomous_session \<times> 'w" where
  "autonomous_hook h stamp cwd env suppressed arrived m now s w =
     (if suppressed then (Got [], s, w)
      else case hold_for_children env m now s of
        (True, s1) \<Rightarrow> (Got [], s1, w)
      | (False, s1) \<Rightarrow>
          (case next_continuation h stamp cwd m now (as_state s1) w of
             (Threw, st, w1) \<Rightarrow> (Threw, s1\<lparr>as_state := st\<rparr>, w1)
           | (Got None, st, w1) \<Rightarrow> (Got [], s1\<lparr>as_state := st\<rparr>, w1)
           | (Got (Some message), st, w1) \<Rightarrow>
               if arrived then (Got [], s1\<lparr>as_state := restore_counts (as_state s1) st\<rparr>, w1)
               else (Got [message], s1\<lparr>as_state := st\<rparr>, w1)))"

definition may_resume_owed :: "surroundings \<Rightarrow> autonomous_session \<Rightarrow> bool \<times> autonomous_session" where
  "may_resume_owed env s =
     (if \<not> as_awaits s \<or> sr_closed env \<or> sr_children_busy env then (False, s)
      else if \<not> au_enabled (as_state s) \<or> sr_goal_owns env then (False, clear_await s)
      else (\<not> sr_paused env, s))"

text \<open>A continuation is counted, then admitted; when the admission throws the counts go back.\<close>

definition admit_owed ::
    "bool \<Rightarrow> autonomous_state \<Rightarrow> user_message \<Rightarrow> autonomous_session \<Rightarrow> user_message list \<times> autonomous_session" where
  "admit_owed admits old message s =
     (if admits then ([message], clear_await s) else ([], on_state (restore_counts old) s))"

definition resume_owed ::
    "'w gate_world \<Rightarrow> (int \<Rightarrow> jstring) \<Rightarrow> jstring option \<Rightarrow> surroundings \<Rightarrow> bool \<Rightarrow> assistant_message option \<Rightarrow> int
     \<Rightarrow> autonomous_session \<Rightarrow> 'w \<Rightarrow> user_message list \<times> autonomous_session \<times> 'w" where
  "resume_owed h stamp cwd env arrived last_message now s w =
     (let old = as_state s in
      case last_message of
        None \<Rightarrow>
          if autonomous_limit_reason old now \<noteq> None then ([], clear_await s, w)
          else let s1 = on_state add_autonomous_continuation s;
                   (sent, s2) = admit_owed (sr_admits env) old (continuation_message (as_state s1) now) s1
               in (sent, s2, w)
      | Some m \<Rightarrow>
          (case should_continue h cwd m now old w of
             (Threw, st, w1) \<Rightarrow> ([], s\<lparr>as_state := restore_counts old st\<rparr>, w1)
           | (Got (goes_on, reason), st, w1) \<Rightarrow>
               let s1 = s\<lparr>as_state := st\<rparr> in
               if \<not> goes_on \<or> sr_closed env \<or> \<not> au_enabled st \<or> sr_goal_owns env \<or> arrived then ([], clear_await s1, w1)
               else let s2 = on_state add_autonomous_continuation s1;
                        (sent, s3) = admit_owed (sr_admits env) old (message_for stamp reason (as_state s2) now) s2
                    in (sent, s3, w1)))"

definition deliver_keep_alive ::
    "surroundings \<Rightarrow> int \<Rightarrow> autonomous_session \<Rightarrow> bool \<times> user_message list \<times> autonomous_session" where
  "deliver_keep_alive env now s =
     (if autonomous_limit_reason (as_state s) now \<noteq> None then (True, [], clear_await s)
      else let s1 = on_state add_autonomous_continuation s;
               (sent, s2) = admit_owed (sr_admits env) (as_state s) (keep_alive_message (as_state s1) now) s1
           in (sr_admits env, sent, s2))"

text \<open>The timer has fired; \<open>None\<close> hands over to the resumption.\<close>

definition fire_keep_alive ::
    "surroundings \<Rightarrow> int \<Rightarrow> autonomous_session \<Rightarrow> user_message list option \<times> autonomous_session" where
  "fire_keep_alive env now s0 =
     (let s = disarm_keep_alive s0 in
      if \<not> as_awaits s \<or> sr_closed env then (Some [], s)
      else if \<not> sr_children_busy env then (None, s)
      else if \<not> au_enabled (as_state s) \<or> sr_goal_owns env then (Some [], clear_await s)
      else if sr_paused env then (Some [], arm_keep_alive s)
      else let (delivered, sent, s1) = deliver_keep_alive env now s
           in (Some sent, if delivered then s1 else arm_keep_alive s1))"

section \<open>A headless run\<close>

definition latest_gate_attempt :: "autonomous_state \<Rightarrow> int" where
  "latest_gate_attempt st =
     fold max (map snd (au_attempts st)) (max (case au_failure st of Some f \<Rightarrow> gf_attempt f | None \<Rightarrow> 0) 0)"

definition should_continue_gates :: "autonomous_state \<Rightarrow> int \<Rightarrow> bool" where
  "should_continue_gates st now \<longleftrightarrow>
     au_enabled st \<and> gc_commands (au_gates st) \<noteq> [] \<and> au_failure st \<noteq> None
     \<and> latest_gate_attempt st \<le> gc_retries (au_gates st) \<and> autonomous_limit_reason st now = None"

text \<open>
  What the loop asks of a session: wait until it is idle, its state, a prompt, its gates, the clock, and
  how its last answer ended (\<open>True\<close> for an error or an abort). The pause between two prompts without
  progress is part of the prompt.
\<close>

record 's headless_host =
  hh_idle :: "'s \<Rightarrow> 's"
  hh_state :: "'s \<Rightarrow> autonomous_state"
  hh_now :: "'s \<Rightarrow> int"
  hh_count :: "'s \<Rightarrow> 's"
  hh_prompt :: "jstring \<Rightarrow> 's \<Rightarrow> 's"
  hh_refresh :: "'s \<Rightarrow> 's"
  hh_failed :: "'s \<Rightarrow> bool"

definition headless_prompt :: "'s headless_host \<Rightarrow> (int \<Rightarrow> jstring) \<Rightarrow> gate_failure \<Rightarrow> 's \<Rightarrow> jstring" where
  "headless_prompt h stamp f s =
     gate_failure_text stamp (f\<lparr>gf_attempt := latest_gate_attempt (hh_state h s)\<rparr>) (gc_retries (au_gates (hh_state h s))) (hh_now h s)"

datatype headless_step = HeadlessDone | HeadlessGoesOn

definition headless_round :: "'s headless_host \<Rightarrow> (int \<Rightarrow> jstring) \<Rightarrow> bool \<Rightarrow> 's \<Rightarrow> headless_step \<times> 's" where
  "headless_round h stamp waits_for_children s0 =
     (let s = hh_idle h s0 in
      case au_failure (hh_state h s) of
        None \<Rightarrow> (HeadlessDone, s)
      | Some f \<Rightarrow>
          if \<not> should_continue_gates (hh_state h s) (hh_now h s) then (HeadlessDone, s)
          else let s1 = hh_refresh h (hh_prompt h (headless_prompt h stamp f s) (hh_count h s)) in
            if hh_failed h s1 \<and> \<not> should_continue_gates (hh_state h s1) (hh_now h s1) \<and> \<not> waits_for_children
            then (HeadlessDone, s1) else (HeadlessGoesOn, s1))"

partial_function (option) headless_completion ::
    "'s headless_host \<Rightarrow> (int \<Rightarrow> jstring) \<Rightarrow> bool \<Rightarrow> 's \<Rightarrow> 's option" where
  "headless_completion h stamp waits s =
     (case headless_round h stamp waits s of
        (HeadlessDone, s1) \<Rightarrow> Some s1
      | (HeadlessGoesOn, s1) \<Rightarrow> headless_completion h stamp waits s1)"

end
