(* ===== verification/AutonomousProps.thy ===== *)
theory AutonomousProps
  imports Autonomous
begin

text \<open>What the autonomous mode guarantees: its output, its gates, its limits, and the end of a headless run.\<close>

section \<open>Collected output\<close>

fun chunk_out :: "output_chunk \<Rightarrow> jstring" where
  "chunk_out (OutChunk s) = s"
| "chunk_out (ErrChunk s) = []"

fun chunk_err :: "output_chunk \<Rightarrow> jstring" where
  "chunk_err (OutChunk s) = []"
| "chunk_err (ErrChunk s) = s"

lemma append_chunk_take:
  "append_chunk m chunk (take m s) = (take m (s @ chunk), int (length chunk) > int m - int (min m (length s)))"
  by (auto simp: append_chunk_def Let_def min_def nat_diff_distrib)

definition kept_output :: "nat \<Rightarrow> jstring \<Rightarrow> jstring \<Rightarrow> collected" where
  "kept_output m out err = \<lparr>co_out = take m out, co_err = take m err, co_truncated = (m < length out \<or> m < length err)\<rparr>"

lemma collect_chunk_kept:
  "collect_chunk m c (kept_output m out err) = kept_output m (out @ chunk_out c) (err @ chunk_err c)"
  by (cases c) (auto simp: kept_output_def append_chunk_take min_def not_less le_less)

lemma fold_collect_kept:
  "fold (collect_chunk m) cs (kept_output m out err)
    = kept_output m (out @ concat (map chunk_out cs)) (err @ concat (map chunk_err cs))"
  by (induction cs arbitrary: out err) (simp_all add: collect_chunk_kept)

text \<open>
  However a process splits its output into chunks, each stream is kept up to the limit, and the flag tells
  exactly whether something is missing.
\<close>

theorem kept_output_is_the_head_of_the_output:
  "collect_output m chunks =
    \<lparr>co_out = take m (concat (map chunk_out chunks)), co_err = take m (concat (map chunk_err chunks)),
     co_truncated = (m < length (concat (map chunk_out chunks)) \<or> m < length (concat (map chunk_err chunks)))\<rparr>"
proof -
  have "\<lparr>co_out = [], co_err = [], co_truncated = False\<rparr> = kept_output m [] []"
    by (simp add: kept_output_def)
  then show ?thesis
    unfolding collect_output_def by (simp add: fold_collect_kept) (simp add: kept_output_def)
qed

section \<open>Gates\<close>

definition attempts_of :: "jstring \<Rightarrow> autonomous_state \<Rightarrow> int" where
  "attempts_of c st = or_else (map_of (au_attempts st) c) 0"

definition failing :: "jstring \<Rightarrow> autonomous_state \<Rightarrow> bool" where
  "failing c st \<longleftrightarrow> (\<exists>f. au_failure st = Some f \<and> gf_command f = c)"

text \<open>The failure a state keeps has been counted.\<close>

definition failure_counted :: "autonomous_state \<Rightarrow> bool" where
  "failure_counted st \<longleftrightarrow>
     (\<forall>f. au_failure st = Some f \<longrightarrow> map_of (au_attempts st) (gf_command f) = Some (gf_attempt f))"

text \<open>What the gates leave alone.\<close>

definition same_budget :: "autonomous_state \<Rightarrow> autonomous_state \<Rightarrow> bool" where
  "same_budget st st' \<longleftrightarrow>
     au_enabled st' = au_enabled st \<and> au_continuations st' = au_continuations st \<and> au_turns st' = au_turns st
     \<and> au_tokens st' = au_tokens st \<and> au_started st' = au_started st \<and> au_limits st' = au_limits st
     \<and> au_prompt st' = au_prompt st \<and> au_gates st' = au_gates st \<and> au_keep_alive st' = au_keep_alive st"

lemma same_budget_refl [simp, intro]: "same_budget st st"
  by (simp add: same_budget_def)

lemma same_budget_trans: "same_budget a b \<Longrightarrow> same_budget b c \<Longrightarrow> same_budget a c"
  by (simp add: same_budget_def)

lemma note_budget [intro, simp]:
  "same_budget st (note_unchanged c st)" "same_budget st (note_passed c st)" "same_budget st (note_failed c r post st)"
  by (simp_all add: same_budget_def note_unchanged_def note_passed_def note_failed_def Let_def split: option.splits)

lemma attempts_of_notes [simp]:
  "attempts_of d (note_passed c st) = (if d = c then 0 else attempts_of d st)"
  "attempts_of d (note_failed c r post st) = (if d = c then attempts_of c st + 1 else attempts_of d st)"
  by (simp_all add: attempts_of_def note_passed_def note_failed_def Let_def update_conv' split: option.splits)

lemma attempts_of_unchanged:
  assumes "failure_counted st" "failing c st"
  shows "attempts_of d (note_unchanged c st) = (if d = c then attempts_of c st + 1 else attempts_of d st)"
  using assms
  by (auto simp: attempts_of_def note_unchanged_def failing_def failure_counted_def Let_def update_conv')

lemma failure_counted_notes:
  "failure_counted st \<Longrightarrow> failure_counted (note_passed c st)"
  "failure_counted (note_failed c r post st)"
  "failure_counted st \<Longrightarrow> failing c st \<Longrightarrow> failure_counted (note_unchanged c st)"
  by (auto simp: failure_counted_def note_passed_def note_failed_def note_unchanged_def failing_def Let_def update_conv'
      split: option.splits)

lemma failing_notes [simp]:
  "failing d (note_failed c r post st) \<longleftrightarrow> d = c"
  "failing c st \<Longrightarrow> failing d (note_unchanged c st) \<longleftrightarrow> d = c"
  by (auto simp: failing_def note_failed_def note_unchanged_def Let_def)

lemma gate_unchanged_failing: "gate_unchanged c current st \<Longrightarrow> failing c st"
  by (auto simp: gate_unchanged_def failing_def split: option.splits)

lemma gate_verdict_iff:
  "gate_verdict c st = GateFailed \<longleftrightarrow> attempts_of c st \<le> gc_retries (au_gates st)"
  "gate_verdict c st = RetryExhausted \<longleftrightarrow> gc_retries (au_gates st) < attempts_of c st"
  "gate_verdict c st \<noteq> GatesPassed"
  by (auto simp: gate_verdict_def attempts_of_def)

lemma note_gates [simp]:
  "au_gates (note_unchanged c st) = au_gates st" "au_gates (note_passed c st) = au_gates st"
  "au_gates (note_failed c r post st) = au_gates st"
  using note_budget [of st] by (simp_all add: same_budget_def)

text \<open>How one evaluation of the gates can go, for the first of them.\<close>

lemma run_gates_cases [consumes 1, case_names Thrown Unchanged Failed Passed]:
  assumes "run_gates h (c # cs) st w = (result, st', w')"
  obtains "result = Threw" "st' = st"
    | current where "gate_unchanged c current st" "result = Got (gate_verdict c st')" "st' = note_unchanged c st"
    | r post where "result = Got (gate_verdict c st')" "st' = note_failed c r post st"
    | w1 where "run_gates h cs (note_passed c st) w1 = (result, st', w')"
proof (cases "capture_snapshot h w")
  case (Pair before w1)
  show thesis
  proof (cases before)
    case Threw
    with assms Pair have "result = Threw" "st' = st" by simp_all
    then show thesis by (rule that(1))
  next
    case (Got current)
    obtain r w2 where run: "gw_run h (ShellCommand c (gc_timeout (au_gates st))) w1 = (r, w2)" by fastforce
    obtain after w3 where later: "capture_snapshot h w2 = (after, w3)" by fastforce
    show thesis
    proof (cases "gate_unchanged c current st")
      case True
      with assms Pair Got have "(Got (gate_verdict c (note_unchanged c st)), note_unchanged c st, w1) = (result, st', w')"
        by (simp only: run_gates.simps prod.case attempt.case if_True)
      then have "result = Got (gate_verdict c st')" "st' = note_unchanged c st" by auto
      with True show thesis by (rule that(2))
    next
      case False
      have "(if gw_aborted h w2 then (Threw, st, w2)
         else case after of Threw \<Rightarrow> (Threw, st, w3)
           | Got post \<Rightarrow>
             if pr_status r = Some 0 \<and> pr_error r = None \<and> \<not> pr_timed_out r
             then run_gates h cs (note_passed c st) w3
             else (Got (gate_verdict c (note_failed c r post st)), note_failed c r post st, w3)) = (result, st', w')"
        using assms False by (simp only: run_gates.simps Pair Got run later prod.case attempt.case if_False Let_def)
      then have "result = Threw \<and> st' = st
          \<or> (\<exists>post. result = Got (gate_verdict c (note_failed c r post st)) \<and> st' = note_failed c r post st)
          \<or> run_gates h cs (note_passed c st) w3 = (result, st', w')"
        by (cases after; simp only: attempt.case prod.inject split: if_split_asm) blast+
      then show thesis using that(1,3,4) by metis
    qed
  qed
qed

lemma run_gates_budget: "run_gates h cs st w = (result, st', w') \<Longrightarrow> same_budget st st'"
proof (induction cs arbitrary: st w)
  case (Cons c cs)
  from Cons.prems show ?case
  proof (cases rule: run_gates_cases)
    case (Passed w1)
    from same_budget_trans [OF note_budget(2) Cons.IH [OF this]] show ?thesis .
  qed auto
qed (auto simp: same_budget_def)

lemma run_gates_counted: "run_gates h cs st w = (result, st', w') \<Longrightarrow> failure_counted st \<Longrightarrow> failure_counted st'"
proof (induction cs arbitrary: st w)
  case (Cons c cs)
  from Cons.prems(1) show ?case
  proof (cases rule: run_gates_cases)
    case (Passed w1)
    then show ?thesis by (rule Cons.IH) (rule failure_counted_notes(1) [OF Cons.prems(2)])
  qed (use Cons.prems(2) in \<open>auto intro: failure_counted_notes dest: gate_unchanged_failing\<close>)
qed (auto simp: failure_counted_def)

lemma run_gates_failing:
  "run_gates h cs st w = (Got GateFailed, st', w') \<Longrightarrow> \<exists>c\<in>set cs. failing c st' \<and> (\<forall>d. failing d st' \<longrightarrow> d = c)"
proof (induction cs arbitrary: st w)
  case (Cons c cs)
  from Cons.prems show ?case
  proof (cases rule: run_gates_cases)
    case (Passed w1)
    with Cons.IH show ?thesis by (meson list.set_intros(2))
  qed (auto dest: gate_unchanged_failing)
qed simp

lemma run_gates_failed:
  assumes "run_gates h cs st w = (Got GateFailed, st', w')" "distinct cs" "failure_counted st" "failing c st'"
  shows "attempts_of c st' = attempts_of c st + 1 \<and> attempts_of c st' \<le> gc_retries (au_gates st)"
  using assms(1-3)
proof (induction cs arbitrary: st w)
  case (Cons d cs)
  from Cons.prems(1) show ?case
  proof (cases rule: run_gates_cases)
    case (Unchanged current)
    then have "failing d st" by (simp add: gate_unchanged_failing)
    with Unchanged assms(4) Cons.prems(3) gate_verdict_iff(1) [of d st'] show ?thesis
      by (auto simp: attempts_of_unchanged)
  next
    case (Failed r post)
    with assms(4) gate_verdict_iff(1) [of d st'] show ?thesis by auto
  next
    case (Passed w1)
    from run_gates_failing [OF this] assms(4) have "c \<in> set cs" by blast
    with Cons.prems(2) have "c \<noteq> d" "distinct cs" by auto
    with Cons.IH [OF Passed \<open>distinct cs\<close> failure_counted_notes(1) [OF Cons.prems(3)]] show ?thesis by simp
  qed simp
qed simp

text \<open>
  Evaluations of the gates in which \<open>c\<close> never passes (a pass takes its attempts back to zero), and how many
  of them asked for a continuation because \<open>c\<close> failed.
\<close>

inductive gate_rounds ::
    "'w gate_world \<Rightarrow> jstring \<Rightarrow> jstring \<Rightarrow> autonomous_state \<Rightarrow> nat \<Rightarrow> autonomous_state \<Rightarrow> bool" for h cwd c st where
  Start: "gate_rounds h cwd c st 0 st"
| Round: "gate_rounds h cwd c st n st1 \<Longrightarrow> run_quality_gates h (Some cwd) st1 w = (result, st2, w')
    \<Longrightarrow> attempts_of c st1 \<le> attempts_of c st2
    \<Longrightarrow> gate_rounds h cwd c st (if result = Got GateFailed \<and> failing c st2 then Suc n else n) st2"

lemma run_quality_gates_cases:
  assumes "run_quality_gates h (Some cwd) st w = (result, st', w')" "cwd \<noteq> []"
  obtains "result = Threw" "st' = st" | "run_gates h (gc_commands (au_gates st)) st w = (result, st', w')"
  using assms by (auto simp: run_quality_gates_def split: if_splits)

lemma gate_rounds_bound:
  assumes "gate_rounds h cwd c st n st'" "cwd \<noteq> []" "distinct (gc_commands (au_gates st))"
    and "au_attempts st = []" "au_failure st = None"
  shows "au_gates st' = au_gates st \<and> failure_counted st' \<and> int n \<le> attempts_of c st'
    \<and> int n \<le> max 0 (gc_retries (au_gates st))"
  using assms(1)
proof induction
  case Start
  then show ?case using assms(4,5) by (simp add: failure_counted_def attempts_of_def)
next
  case (Round n st1 w result st2 w')
  from Round.hyps(2) assms(2) show ?case
  proof (cases rule: run_quality_gates_cases)
    case 1
    then show ?thesis using Round.IH by simp
  next
    case 2
    have "au_gates st2 = au_gates st" using run_gates_budget [OF 2] Round.IH by (simp add: same_budget_def)
    moreover have "failure_counted st2" using run_gates_counted [OF 2] Round.IH by blast
    moreover have "attempts_of c st2 = attempts_of c st1 + 1 \<and> attempts_of c st2 \<le> gc_retries (au_gates st)"
      if "result = Got GateFailed" "failing c st2"
      using run_gates_failed [OF 2 [unfolded that(1)] _ _ that(2)] Round.IH assms(3) by simp
    ultimately show ?thesis using Round.IH Round.hyps(3) by auto
  qed
qed

text \<open>
  C22. A gate that keeps failing asks for at most \<open>maxRetries\<close> continuations, whatever else happens in the
  workspace and whichever gates fail in between.
\<close>

theorem a_failing_gate_is_retried_boundedly:
  assumes "gate_rounds h cwd c st n st'" "cwd \<noteq> []" "distinct (gc_commands (au_gates st))"
    and "au_attempts st = []" "au_failure st = None"
  shows "int n \<le> max 0 (gc_retries (au_gates st))"
  using gate_rounds_bound [OF assms] by blast

section \<open>Continuations\<close>

lemma run_quality_gates_budget: "run_quality_gates h cwd st w = (result, st', w') \<Longrightarrow> same_budget st st'"
  using run_gates_budget [of h "gc_commands (au_gates st)" st w result st' w']
  by (auto simp: run_quality_gates_def split: if_splits)

lemma refresh_budget: "refresh_quality_gates h cwd st w = (result, st', w') \<Longrightarrow> same_budget st st'"
  using run_quality_gates_budget [of h cwd st w]
  by (auto simp: refresh_quality_gates_def split: if_splits prod.splits attempt.splits)

lemma should_continue_budget: "should_continue h cwd m now st w = (result, st', w') \<Longrightarrow> same_budget st st'"
  using refresh_budget [of h cwd st w]
  by (auto simp: should_continue_def split: if_splits prod.splits attempt.splits)

lemma should_continue_yes:
  assumes "should_continue h cwd m now st w = (Got (True, reason), st', w')"
  shows "au_enabled st \<and> am_stop m \<noteq> ErrorStop \<and> am_stop m \<noteq> Aborted \<and> autonomous_limit_reason st' now = None
    \<and> (reason = MissingEvidence \<and> gc_commands (au_gates st) = []
       \<or> reason = FailedGate \<and> (\<exists>w1 w2. refresh_quality_gates h cwd st w1 = (Got (Some GateFailed), st', w2)))"
proof -
  obtain result st1 w1 where r: "refresh_quality_gates h cwd st w = (result, st1, w1)" by (metis prod_cases3)
  show ?thesis
  proof (cases result)
    case Threw
    with assms r show ?thesis by (simp add: should_continue_def split: if_splits)
  next
    case (Got g)
    with assms r have on: "au_enabled st" "am_stop m \<noteq> ErrorStop" "am_stop m \<noteq> Aborted"
      and same: "st' = st1" and verdict: "(case g of
             Some GatesPassed \<Rightarrow> (False, NotNeeded)
           | Some RetryExhausted \<Rightarrow> (False, LimitReached)
           | Some GateFailed \<Rightarrow>
               if autonomous_limit_reason st1 now \<noteq> None then (False, LimitReached) else (True, FailedGate)
           | None \<Rightarrow> if autonomous_limit_reason st1 now \<noteq> None then (False, LimitReached) else (True, MissingEvidence))
         = (True, reason)"
      by (auto simp: should_continue_def split: if_splits)
    have "gc_commands (au_gates st) = []" if "g = None"
      using r on(1) that Got by (auto simp: refresh_quality_gates_def split: if_splits prod.splits attempt.splits)
    with verdict on same r Got show ?thesis
      by (cases g) (auto split: gate_result.splits if_splits)
  qed
qed

lemma limit_free: "autonomous_limit_reason st now = None \<Longrightarrow> au_continuations st < lm_continuations (au_limits st)"
  by (simp add: autonomous_limit_reason_def split: if_splits)


section \<open>The session\<close>

text \<open>
  The handlers between two \<open>/autonomous on\<close>, with the number of continuations each sends: one that the hook
  returns, one that is admitted, or a prompt of the headless loop.
\<close>

inductive autonomous_step ::
    "'w gate_world \<Rightarrow> (int \<Rightarrow> jstring) \<Rightarrow> jstring option \<Rightarrow> autonomous_session \<Rightarrow> nat \<Rightarrow> autonomous_session \<Rightarrow> bool"
  for h stamp cwd where
  Hook: "autonomous_hook h stamp cwd env suppressed arrived m now s w = (result, s', w')
    \<Longrightarrow> autonomous_step h stamp cwd s (case result of Threw \<Rightarrow> 0 | Got ms \<Rightarrow> length ms) s'"
| Resume: "may_resume_owed env s = (True, s1) \<Longrightarrow> resume_owed h stamp cwd env' arrived last_message now s1 w = (sent, s', w')
    \<Longrightarrow> autonomous_step h stamp cwd s (length sent) s'"
| NotResumed: "may_resume_owed env s = (False, s') \<Longrightarrow> autonomous_step h stamp cwd s 0 s'"
| Fire: "fire_keep_alive env now s = (sent, s')
    \<Longrightarrow> autonomous_step h stamp cwd s (case sent of None \<Rightarrow> 0 | Some ms \<Rightarrow> length ms) s'"
| Hold: "hold_for_children env m now s = (held, s') \<Longrightarrow> autonomous_step h stamp cwd s 0 s'"
| Answer: "autonomous_step h stamp cwd s 0 (on_state (add_autonomous_usage u) s)"
| Off: "autonomous_step h stamp cwd s 0 (handle_autonomous_command TurnOff now s)"
| Gates: "refresh_quality_gates h cwd (as_state s) w = (result, st, w') \<Longrightarrow> autonomous_step h stamp cwd s 0 (s\<lparr>as_state := st\<rparr>)"
| Host: "should_continue_gates (as_state s) now \<Longrightarrow> autonomous_step h stamp cwd s 1 (on_state add_autonomous_continuation s)"

inductive autonomous_trace ::
    "'w gate_world \<Rightarrow> (int \<Rightarrow> jstring) \<Rightarrow> jstring option \<Rightarrow> autonomous_session \<Rightarrow> nat \<Rightarrow> autonomous_session \<Rightarrow> bool"
  for h stamp cwd s where
  Start: "autonomous_trace h stamp cwd s 0 s"
| Step: "autonomous_trace h stamp cwd s n s1 \<Longrightarrow> autonomous_step h stamp cwd s1 k s2 \<Longrightarrow> autonomous_trace h stamp cwd s (n + k) s2"

text \<open>An armed timer waits for an owed continuation, with the window of the session.\<close>

definition keep_alive_ok :: "autonomous_session \<Rightarrow> bool" where
  "keep_alive_ok s \<longleftrightarrow> (case as_timer s of None \<Rightarrow> True | Some k \<Rightarrow> as_awaits s \<and> k = au_keep_alive (as_state s) \<and> 0 < k)"

text \<open>What one handler does to the counts: it sends \<open>n\<close> continuations, each below the limit.\<close>

definition counts :: "autonomous_session \<Rightarrow> nat \<Rightarrow> autonomous_session \<Rightarrow> bool" where
  "counts s n s' \<longleftrightarrow>
     au_limits (as_state s') = au_limits (as_state s) \<and> au_keep_alive (as_state s') = au_keep_alive (as_state s)
     \<and> au_continuations (as_state s') = au_continuations (as_state s) + int n
     \<and> (0 < n \<longrightarrow> au_continuations (as_state s') \<le> lm_continuations (au_limits (as_state s)))"

named_theorems session_simps

lemma timer_simps [session_simps]:
  "as_timer (clear_await s) = None" "as_awaits (clear_await s) = False" "as_state (clear_await s) = as_state s"
  "as_timer (disarm_keep_alive s) = None" "as_awaits (disarm_keep_alive s) = as_awaits s"
  "as_state (disarm_keep_alive s) = as_state s" "as_state (arm_keep_alive s) = as_state s"
  "as_awaits (arm_keep_alive s) = as_awaits s"
  "as_timer (on_state f s) = as_timer s" "as_awaits (on_state f s) = as_awaits s" "as_state (on_state f s) = f (as_state s)"
  by (simp_all add: clear_await_def disarm_keep_alive_def arm_keep_alive_def on_state_def)

lemma state_simps [session_simps]:
  "au_limits (restore_counts old st) = au_limits st" "au_keep_alive (restore_counts old st) = au_keep_alive st"
  "au_continuations (restore_counts old st) = au_continuations old"
  "au_limits (add_autonomous_continuation st) = au_limits st"
  "au_keep_alive (add_autonomous_continuation st) = au_keep_alive st"
  "au_enabled st \<Longrightarrow> au_continuations (add_autonomous_continuation st) = au_continuations st + 1"
  "au_limits (add_autonomous_usage u st) = au_limits st" "au_keep_alive (add_autonomous_usage u st) = au_keep_alive st"
  "au_continuations (add_autonomous_usage u st) = au_continuations st"
  by (simp_all add: restore_counts_def add_autonomous_continuation_def add_autonomous_usage_def)

lemma keep_alive_ok_intros [intro]:
  "as_timer s = None \<Longrightarrow> keep_alive_ok s" "keep_alive_ok (clear_await s)"
  "keep_alive_ok s \<Longrightarrow> as_awaits s \<Longrightarrow> keep_alive_ok (arm_keep_alive s)"
  "keep_alive_ok s \<Longrightarrow> keep_alive_ok (arm_keep_alive (s\<lparr>as_awaits := True\<rparr>))"
  "keep_alive_ok s \<Longrightarrow> au_keep_alive (f (as_state s)) = au_keep_alive (as_state s) \<Longrightarrow> keep_alive_ok (on_state f s)"
  "keep_alive_ok s \<Longrightarrow> au_keep_alive st = au_keep_alive (as_state s) \<Longrightarrow> keep_alive_ok (s\<lparr>as_state := st\<rparr>)"
  by (auto simp: keep_alive_ok_def arm_keep_alive_def session_simps on_state_def split: option.splits)

lemma counts_same [intro]:
  "as_state s' = as_state s \<Longrightarrow> counts s 0 s'" "same_budget (as_state s) (as_state s') \<Longrightarrow> counts s 0 s'"
  by (simp_all add: counts_def same_budget_def)

lemma counts_trans: "counts a m b \<Longrightarrow> counts b n c \<Longrightarrow> counts a (m + n) c"
  by (cases "n = 0") (auto simp: counts_def)

lemma hold_keeps:
  assumes "hold_for_children env m now s = (held, s')"
  shows "as_state s' = as_state s" "keep_alive_ok s \<Longrightarrow> keep_alive_ok s'"
  using assms by (auto simp: hold_for_children_def session_simps split: if_splits)

lemma may_resume_keeps:
  assumes "may_resume_owed env s = (goes, s')"
  shows "as_state s' = as_state s" "keep_alive_ok s \<Longrightarrow> keep_alive_ok s'" "goes \<Longrightarrow> au_enabled (as_state s)"
  using assms by (auto simp: may_resume_owed_def session_simps split: if_splits)

lemma admit_counts:
  assumes "admit_owed admits old message (on_state add_autonomous_continuation s) = (sent, s')"
    and "au_enabled (as_state s)" "au_continuations (as_state s) < lm_continuations (au_limits (as_state s))"
    and "au_continuations old = au_continuations (as_state s)"
  shows "counts s (length sent) s'" "keep_alive_ok s \<Longrightarrow> keep_alive_ok s'" "admits \<or> as_awaits s' = as_awaits s"
proof -
  show "counts s (length sent) s'" "admits \<or> as_awaits s' = as_awaits s"
    using assms by (auto simp: admit_owed_def counts_def session_simps split: if_splits)
  show "keep_alive_ok s'" if "keep_alive_ok s"
  proof (cases admits)
    case False
    have "keep_alive_ok (on_state add_autonomous_continuation s)"
      using that by (rule keep_alive_ok_intros(5)) (simp add: session_simps)
    then show ?thesis
      using assms(1) False by (auto simp: admit_owed_def session_simps)
  qed (use assms(1) in \<open>auto simp: admit_owed_def\<close>)
qed

lemma next_continuation_counts:
  assumes "next_continuation h stamp cwd m now st w = (result, st', w')"
  shows "au_limits st' = au_limits st \<and> au_keep_alive st' = au_keep_alive st
    \<and> (case result of
         Got (Some _) \<Rightarrow> au_continuations st' = au_continuations st + 1 \<and> au_continuations st < lm_continuations (au_limits st)
       | _ \<Rightarrow> au_continuations st' = au_continuations st)"
proof -
  obtain r st1 w1 where c: "should_continue h cwd m now st w = (r, st1, w1)" by (metis prod_cases3)
  note same = should_continue_budget [OF c]
  show ?thesis
  proof (cases "\<exists>reason. r = Got (True, reason)")
    case True
    then obtain reason where r: "r = Got (True, reason)" by blast
    from should_continue_yes [OF c [unfolded r]] have "autonomous_limit_reason st1 now = None" by blast
    from limit_free [OF this] same assms c r show ?thesis
      by (auto simp: next_continuation_def same_budget_def Let_def split: if_splits)
  next
    case False
    with assms c same show ?thesis
      by (auto simp: next_continuation_def same_budget_def split: if_splits attempt.splits)
  qed
qed

lemma hook_counts:
  assumes "autonomous_hook h stamp cwd env suppressed arrived m now s w = (result, s', w')"
  shows "counts s (case result of Threw \<Rightarrow> 0 | Got ms \<Rightarrow> length ms) s'" "keep_alive_ok s \<Longrightarrow> keep_alive_ok s'"
proof -
  obtain held s1 where hold: "hold_for_children env m now s = (held, s1)" by fastforce
  obtain r st w1 where nxt: "next_continuation h stamp cwd m now (as_state s1) w = (r, st, w1)" by (metis prod_cases3)
  note keeps = hold_keeps [OF hold] and n = next_continuation_counts [OF nxt]
  show "counts s (case result of Threw \<Rightarrow> 0 | Got ms \<Rightarrow> length ms) s'"
    using assms hold nxt n keeps(1)
    by (cases suppressed; cases held; cases r)
      (auto simp: autonomous_hook_def counts_def session_simps split: option.splits if_splits)
  show "keep_alive_ok s'" if "keep_alive_ok s"
    using assms hold nxt n keeps(1) keeps(2) [OF that] that
    by (cases suppressed; cases held; cases r)
      (auto simp: autonomous_hook_def session_simps split: option.splits if_splits)
qed

lemma resume_counts:
  assumes "resume_owed h stamp cwd env arrived last_message now s w = (sent, s', w')" "au_enabled (as_state s)"
  shows "counts s (length sent) s'" "keep_alive_ok s \<Longrightarrow> keep_alive_ok s'"
proof -
  have "counts s (length sent) s' \<and> (keep_alive_ok s \<longrightarrow> keep_alive_ok s')"
  proof (cases last_message)
    case None
    show ?thesis
    proof (cases "autonomous_limit_reason (as_state s) now = None")
      case True
      from None True assms(1) obtain message where
        "admit_owed (sr_admits env) (as_state s) message (on_state add_autonomous_continuation s) = (sent, s')"
        by (auto simp: resume_owed_def Let_def split: prod.splits)
      from admit_counts [OF this assms(2) limit_free [OF True]] show ?thesis by simp
    qed (use None assms(1) in \<open>auto simp: resume_owed_def session_simps\<close>)
  next
    case (Some m)
    obtain r st w1 where c: "should_continue h cwd m now (as_state s) w = (r, st, w1)" by (metis prod_cases3)
    note same = should_continue_budget [OF c]
    let ?s1 = "s\<lparr>as_state := st\<rparr>"
    have s1: "counts s 0 ?s1" "keep_alive_ok s \<longrightarrow> keep_alive_ok ?s1"
      using same by (auto simp: same_budget_def)
    show ?thesis
    proof (cases "\<exists>reason. r = Got (True, reason) \<and> \<not> (sr_closed env \<or> \<not> au_enabled st \<or> sr_goal_owns env \<or> arrived)")
      case True
      then obtain reason where r: "r = Got (True, reason)" and on: "au_enabled st" by blast
      from True Some c assms(1) r obtain message where
        "admit_owed (sr_admits env) (as_state s) message (on_state add_autonomous_continuation ?s1) = (sent, s')"
        by (auto simp: resume_owed_def Let_def split: prod.splits)
      moreover have "autonomous_limit_reason st now = None" using should_continue_yes [OF c [unfolded r]] by blast
      ultimately have "counts ?s1 (length sent) s'" "keep_alive_ok ?s1 \<longrightarrow> keep_alive_ok s'"
        using admit_counts [of "sr_admits env" "as_state s" message ?s1 sent s'] on limit_free [of st now] same
        by (simp_all add: same_budget_def)
      with s1 counts_trans [OF s1(1)] show ?thesis by auto
    next
      case False
      with Some c assms(1) consider "sent = []" "s' = s\<lparr>as_state := restore_counts (as_state s) st\<rparr>"
        | "sent = []" "s' = clear_await ?s1"
        by (cases r) (auto simp: resume_owed_def Let_def)
      then show ?thesis
        using same s1 by cases (auto simp: counts_def same_budget_def session_simps)
    qed
  qed
  then show "counts s (length sent) s'" "keep_alive_ok s \<Longrightarrow> keep_alive_ok s'" by blast+
qed

lemma fire_counts:
  assumes "fire_keep_alive env now s = (sent, s')"
  shows "counts s (case sent of None \<Rightarrow> 0 | Some ms \<Rightarrow> length ms) s' \<and> keep_alive_ok s'"
proof -
  let ?s = "disarm_keep_alive s"
  have ok: "keep_alive_ok ?s" by (auto simp: session_simps)
  show ?thesis
  proof (cases "as_awaits ?s \<and> \<not> sr_closed env \<and> sr_children_busy env \<and> au_enabled (as_state ?s) \<and> \<not> sr_goal_owns env
      \<and> \<not> sr_paused env \<and> autonomous_limit_reason (as_state ?s) now = None")
    case True
    then obtain message sent' s1 where
      a: "admit_owed (sr_admits env) (as_state ?s) message (on_state add_autonomous_continuation ?s) = (sent', s1)"
      and r: "sent = Some sent'" "s' = (if sr_admits env then s1 else arm_keep_alive s1)"
      using assms by (auto simp: fire_keep_alive_def deliver_keep_alive_def Let_def split: prod.splits)
    have "counts ?s (length sent') s1" "keep_alive_ok s1" "sr_admits env \<or> as_awaits s1"
      using admit_counts [OF a] True limit_free [of "as_state ?s" now] ok by auto
    then show ?thesis using r by (auto simp: counts_def session_simps)
  next
    case False
    with assms have "(sent = None \<or> sent = Some []) \<and> as_state s' = as_state s
        \<and> (s' = ?s \<or> s' = clear_await ?s \<or> s' = arm_keep_alive ?s \<and> as_awaits ?s)"
      by (auto simp: fire_keep_alive_def deliver_keep_alive_def Let_def session_simps split: if_splits)
    with ok show ?thesis by (auto simp: counts_def)
  qed
qed

lemma step_counts:
  assumes "autonomous_step h stamp cwd s n s'"
  shows "counts s n s' \<and> (keep_alive_ok s \<longrightarrow> keep_alive_ok s')"
  using assms
proof cases
  case (Resume env s1 env' arrived last_message now w sent w')
  note keeps = may_resume_keeps [OF Resume(2)] and counted = resume_counts [OF Resume(3)]
  have "counts s 0 s1" using keeps(1) by blast
  with keeps counted counts_trans show ?thesis using Resume(1) by fastforce
next
  case (Host now)
  then show ?thesis
    using limit_free [of "as_state s" now] by (auto simp: counts_def session_simps should_continue_gates_def)
next
  case (Gates w result st w')
  then show ?thesis using refresh_budget [of h cwd "as_state s"] by (auto simp: same_budget_def)
qed (auto simp: hook_counts fire_counts hold_keeps may_resume_keeps counts_def session_simps set_autonomous_enabled_def
    dest: hook_counts fire_counts hold_keeps may_resume_keeps)


section \<open>A headless run\<close>

text \<open>
  What the loop relies on: the session counts a continuation of its host, and nothing else it is asked to do
  changes the limits or takes a counted continuation back.
\<close>

definition steady :: "'s headless_host \<Rightarrow> bool" where
  "steady h \<longleftrightarrow>
     (\<forall>s. hh_state h (hh_count h s) = add_autonomous_continuation (hh_state h s))
     \<and> (\<forall>f\<in>{hh_idle h, hh_refresh h} \<union> range (hh_prompt h). \<forall>s.
           au_limits (hh_state h (f s)) = au_limits (hh_state h s)
           \<and> au_continuations (hh_state h s) \<le> au_continuations (hh_state h (f s)))"

definition continuations_left :: "'s headless_host \<Rightarrow> 's \<Rightarrow> nat" where
  "continuations_left h s = nat (lm_continuations (au_limits (hh_state h s)) - au_continuations (hh_state h s))"

lemma steadyD:
  assumes "steady h"
  shows "hh_state h (hh_count h s) = add_autonomous_continuation (hh_state h s)"
    "au_limits (hh_state h (hh_idle h s)) = au_limits (hh_state h s)"
    "au_continuations (hh_state h s) \<le> au_continuations (hh_state h (hh_idle h s))"
    "au_limits (hh_state h (hh_refresh h s)) = au_limits (hh_state h s)"
    "au_continuations (hh_state h s) \<le> au_continuations (hh_state h (hh_refresh h s))"
    "au_limits (hh_state h (hh_prompt h t s)) = au_limits (hh_state h s)"
    "au_continuations (hh_state h s) \<le> au_continuations (hh_state h (hh_prompt h t s))"
  using assms by (simp_all add: steady_def)

lemma headless_round_progress:
  assumes "steady h" "headless_round h stamp waits s0 = (HeadlessGoesOn, s1)"
  shows "continuations_left h s1 < continuations_left h s0"
proof -
  let ?s = "hh_idle h s0"
  from assms(2) obtain f where go: "should_continue_gates (hh_state h ?s) (hh_now h ?s)"
    and s1: "s1 = hh_refresh h (hh_prompt h (headless_prompt h stamp f ?s) (hh_count h ?s))"
    by (auto simp: headless_round_def Let_def split: option.splits if_splits)
  from go have on: "au_enabled (hh_state h ?s)"
    and free: "au_continuations (hh_state h ?s) < lm_continuations (au_limits (hh_state h ?s))"
    by (auto simp: should_continue_gates_def dest: limit_free)
  note st = steadyD [OF assms(1)]
  let ?p = "hh_prompt h (headless_prompt h stamp f ?s) (hh_count h ?s)"
  have "au_continuations (hh_state h ?s) + 1 = au_continuations (hh_state h (hh_count h ?s))"
    using on by (simp add: st(1) session_simps)
  also have "\<dots> \<le> au_continuations (hh_state h s1)"
    unfolding s1 using st(7) st(5) by (rule order_trans)
  finally have "au_continuations (hh_state h ?s) + 1 \<le> au_continuations (hh_state h s1)" .
  moreover have "au_limits (hh_state h s1) = au_limits (hh_state h ?s)"
    unfolding s1 by (simp add: st(1,4,6) session_simps)
  ultimately show ?thesis
    using free st(2,3) [of s0] unfolding continuations_left_def by simp
qed


section \<open>Budgets\<close>

text \<open>Naming one limit in a command defines the whole budget: the limits it does not name are off.\<close>

lemma a_named_limit_is_the_whole_budget:
  assumes "parse_budget_options tokens = Inr c"
  shows "(ac_continuations c = None \<and> ac_turns c = None \<and> ac_tokens c = None \<and> ac_timeout c = None)
    \<or> (ac_continuations c \<noteq> None \<and> ac_turns c \<noteq> None \<and> ac_tokens c \<noteq> None \<and> ac_timeout c \<noteq> None)"
  using assms by (auto simp: parse_budget_options_def name_whole_budget_def Let_def split: sum.splits if_splits)

text \<open>
  A positive limit below one is truncated to zero after it was found positive, so the run is at its limit
  before it begins; the settings truncate first and drop such a value.
\<close>

lemma a_fractional_limit_stops_the_run:
  assumes "0 < x" "x < 1"
  shows "autonomous_limit_reason
      (create_autonomous_state (Some (no_config\<lparr>ac_enabled := Some True, ac_turns := Some (Fin x)\<rparr>)) defaults now) later \<noteq> None
    \<and> resolve_limit_setting (Some (NumberSetting (Fin x))) = None"
proof -
  have "\<lfloor>x\<rfloor> = 0" using assms by (simp add: floor_eq_iff)
  with assms show ?thesis
    by (simp add: create_autonomous_state_def autonomous_limit_reason_def normalize_limit_def no_config_def Let_def
        resolve_limit_setting_def)
qed

text \<open>
  A number too large for a double is read as infinity, which is no finite limit: the option is accepted and the
  limit keeps its old value, while the limits that were not named are taken off.
\<close>

lemma an_overflowing_limit_is_ignored:
  assumes "positive_digits (strip_separators v)" "number_bound \<le> of_nat (digits_value (strip_separators v))"
    and "js_lower v \<noteq> js ''unlimited''"
  shows "parse_budget_int flag allow v = Inr PosInf" "normalize_limit (Some PosInf) old = old"
  using assms by (simp_all add: parse_budget_int_def Let_def finite_number_def normalize_limit_def)

section \<open>Witnesses\<close>

text \<open>A workspace that is no git repository, and a gate that exits with status 1.\<close>

definition exit_result :: "int \<Rightarrow> jstring \<Rightarrow> process_result" where
  "exit_result n s = \<lparr>pr_status = Some n, pr_signal = None, pr_stdout = s, pr_stderr = [], pr_error = None,
     pr_timed_out = False, pr_truncated = False\<rparr>"

definition sample_world :: "nat gate_world" where
  "sample_world =
     \<lparr>gw_run = (\<lambda>call n. ((case call of ShellCommand _ _ \<Rightarrow> exit_result 1 (js ''red'') | _ \<Rightarrow> exit_result 128 []), n + 1)),
      gw_hash = (\<lambda>_ n. ([], n)), gw_aborted = (\<lambda>_. False)\<rparr>"

definition sample_gated :: autonomous_state where
  "sample_gated = create_autonomous_state
     (Some (no_config\<lparr>ac_enabled := Some True, ac_gates := Some (no_gate_options\<lparr>go_commands := Some [js ''make'']\<rparr>)\<rparr>))
     \<lparr>ld_continuations = None, ld_turns = None, ld_tokens = None, ld_timeout = None\<rparr> 0"

definition sample_red :: autonomous_state where
  "sample_red = note_failed (js ''make'') (exit_result 1 (js ''red'')) None sample_gated"

definition sample_reply :: assistant_message where
  "sample_reply = \<lparr>am_content = [], am_api = [], am_provider = [], am_model = [], am_response_model = None,
     am_response_id = None, am_diagnostics = None, am_usage = empty_usage, am_stop = Stop, am_stop_raw = None,
     am_error = None, am_time = 0\<rparr>"

lemmas sample_state_simps = sample_gated_def create_autonomous_state_def no_config_def no_gate_options_def Let_def
  normalize_limit_def default_limits_def default_gates_def

lemma sample_fields:
  "gc_commands (au_gates sample_gated) = [js ''make'']" "gc_retries (au_gates sample_gated) = 3"
  "au_attempts sample_gated = []" "au_failure sample_gated = None" "au_enabled sample_gated"
  "au_limits sample_gated = default_limits" "au_continuations sample_gated = 0"
  by (simp_all add: sample_state_simps)

lemma sample_gate_run:
  "run_quality_gates sample_world (Some (js ''/w'')) sample_gated 0 = (Got GateFailed, sample_red, 3)"
  by (simp add: run_quality_gates_def sample_world_def sample_fields sample_red_def capture_snapshot_def git_failed_def
      exit_result_def gate_unchanged_def js_def gate_verdict_iff) (simp add: attempts_of_def sample_fields)

theorem a_failing_gate_is_retried_boundedly_witness:
  "gate_rounds sample_world (js ''/w'') (js ''make'') sample_gated 1 sample_red
    \<and> int 1 \<le> max 0 (gc_retries (au_gates sample_gated))"
proof -
  have "gate_rounds sample_world (js ''/w'') (js ''make'') sample_gated
      (if Got GateFailed = Got GateFailed \<and> failing (js ''make'') sample_red then Suc 0 else 0) sample_red"
    by (rule gate_rounds.Round [OF gate_rounds.Start sample_gate_run]) (simp add: sample_red_def)
  then have "gate_rounds sample_world (js ''/w'') (js ''make'') sample_gated 1 sample_red"
    by (simp add: sample_red_def)
  with a_failing_gate_is_retried_boundedly [OF this] show ?thesis by (simp add: sample_fields js_def)
qed

definition sample_text :: user_message where
  "sample_text = message_for (\<lambda>_. js ''now'') FailedGate sample_red 5"

lemma sample_continuation:
  "next_continuation sample_world (\<lambda>_. js ''now'') (Some (js ''/w'')) sample_reply 5 sample_gated 0
    = (Got (Some sample_text), sample_red\<lparr>au_continuations := 1\<rparr>, 3)"
proof -
  have "refresh_quality_gates sample_world (Some (js ''/w'')) sample_gated 0 = (Got (Some GateFailed), sample_red, 3)"
    using sample_gate_run by (simp add: refresh_quality_gates_def sample_fields sample_world_def)
  moreover have "autonomous_limit_reason sample_red 5 = None"
    by (simp add: autonomous_limit_reason_def sample_red_def note_failed_def sample_state_simps)
  ultimately show ?thesis
    by (simp add: next_continuation_def should_continue_def sample_fields sample_reply_def sample_world_def Let_def
        sample_text_def message_for_def gate_failure_message_def sample_red_def note_failed_def)
qed


definition sample_session :: autonomous_session where
  "sample_session = \<lparr>as_state = sample_gated, as_awaits = False, as_timer = None\<rparr>"

definition sample_surroundings :: surroundings where
  "sample_surroundings =
     \<lparr>sr_closed = False, sr_goal_owns = False, sr_children_busy = False, sr_paused = False, sr_admits = True\<rparr>"


text \<open>A host whose gates stay red.\<close>

definition sample_host :: "autonomous_state headless_host" where
  "sample_host = \<lparr>hh_idle = (\<lambda>s. s), hh_state = (\<lambda>s. s), hh_now = (\<lambda>_. 0), hh_count = add_autonomous_continuation,
     hh_prompt = (\<lambda>_ s. s), hh_refresh = (\<lambda>s. s), hh_failed = (\<lambda>_. False)\<rparr>"


end
